theory Spec2Isabelle
  imports Complex_Main "HOL-Library.Word" "HOL-Library.Log_Nat"
begin

unbundle bit_operations_syntax

section \<open>Window refresher: data model\<close>

text \<open>
  The program (\<^verbatim>\<open>src/main.c\<close>) is a single-threaded Win32 console application. Its
  functions are embedded as HOL functions over an explicit program state. Every call
  into the operating system is either an action, recorded in a chronological trace, or a
  query, answered by an oracle \<open>os_env\<close>: the \<open>n\<close>-th call of an API receives the
  \<open>n\<close>-th answer of that API, so the windowing system may answer the same question
  differently each time (windows vanish, focus moves, keys are pressed and released).

  \<^item> \<open>HWND\<close> is a natural number, \<open>0\<close> being \<^verbatim>\<open>NULL\<close>; thread identifiers
    (\<^verbatim>\<open>DWORD\<close>) are natural numbers, \<open>0\<close> being the failure value of
    \<^verbatim>\<open>GetWindowThreadProcessId\<close>.
  \<^item> A finite \<^verbatim>\<open>double\<close> is the real number it denotes, and an arithmetic operation on
    doubles returns the \<open>binary64\<close> rounding of the exact result. The value returned by
    \<^verbatim>\<open>atof\<close> may also be an infinity or a NaN, see \<open>cdouble\<close>.
  \<^item> \<^verbatim>\<open>unsigned int\<close> is \<open>32 word\<close>, \<^verbatim>\<open>SHORT\<close> is \<open>16 word\<close>.
  \<^item> Log and console lines are recorded with their format string; the formatted
    arguments and the trailing newline are left out. The log file is open
    (\<^verbatim>\<open>main\<close> exits before anything else when \<^verbatim>\<open>InitializeLogging\<close> fails).
\<close>

type_synonym HWND = nat
type_synonym DWORD = nat

datatype level = DEBUG | INFO | WARNING | ERROR

datatype vkey = VK_CONTROL | VK_F5 | VK_MENU | VK_LMENU | VK_RMENU

datatype keyflag = KEYDOWN | KEYEVENTF_KEYUP

record INPUT =
  wVk :: vkey
  dwFlags :: keyflag

datatype event =
    Sleep DWORD
  | AttachThreadInput DWORD DWORD bool bool
  | ShowWindow_RESTORE HWND
  | SetForegroundWindow HWND
  | SendInput "INPUT list" nat
  | LogLine level string
  | Printf string
  | WriteDefaultConfig

text \<open>
  \<open>AttachThreadInput a b f r\<close> is the call \<^verbatim>\<open>AttachThreadInput(a, b, f)\<close> with result
  \<open>r\<close>; \<open>SendInput xs r\<close> is \<^verbatim>\<open>SendInput(|xs|, xs, sizeof(INPUT))\<close> with result \<open>r\<close>.
\<close>

record os_env =
  IsWindow_ans :: "nat \<Rightarrow> HWND \<Rightarrow> bool"
  GetForegroundWindow_ans :: "nat \<Rightarrow> HWND"
  IsIconic_ans :: "nat \<Rightarrow> HWND \<Rightarrow> bool"
  GetWindowThreadProcessId_ans :: "nat \<Rightarrow> HWND \<Rightarrow> DWORD"
  GetCurrentThreadId_ans :: DWORD
  AttachThreadInput_ans :: "nat \<Rightarrow> bool"
  SendInput_ans :: "nat \<Rightarrow> nat"
  GetAsyncKeyState_ans :: "nat \<Rightarrow> vkey \<Rightarrow> 16 word"
  CryptAcquireContext_ans :: "nat \<Rightarrow> bool"
  CryptGenRandom_ans :: "nat \<Rightarrow> 32 word option"
  rand_ans :: "nat \<Rightarrow> int"

record pstate =
  g_hTargetWindow :: HWND
  g_min_delay_seconds :: real
  g_max_delay_seconds :: real
  trace :: "event list"
  n_IsWindow :: nat
  n_GetForegroundWindow :: nat
  n_IsIconic :: nat
  n_GetWindowThreadProcessId :: nat
  n_AttachThreadInput :: nat
  n_SendInput :: nat
  n_GetAsyncKeyState :: nat
  n_random :: nat

definition DEFAULT_MIN_DELAY_S :: real where "DEFAULT_MIN_DELAY_S = 2.0"
definition DEFAULT_MAX_DELAY_S :: real where "DEFAULT_MAX_DELAY_S = 7.0"
definition ALT_KEY_CHECK_DELAY_MS :: nat where "ALT_KEY_CHECK_DELAY_MS = 500"
definition FOCUS_SWITCH_ATTEMPTS :: nat where "FOCUS_SWITCH_ATTEMPTS = 3"
definition FOCUS_SWITCH_RETRY_DELAY_MS :: nat where "FOCUS_SWITCH_RETRY_DELAY_MS = 100"
definition FOCUS_SETTLE_DELAY_MS :: nat where "FOCUS_SETTLE_DELAY_MS = 350"
definition POST_SENDINPUT_DELAY_MS :: nat where "POST_SENDINPUT_DELAY_MS = 100"
definition UINT_MAX :: "32 word" where "UINT_MAX = 0xFFFFFFFF"

subsection \<open>Actions and queries\<close>

definition emit :: "event \<Rightarrow> pstate \<Rightarrow> pstate" where
  "emit e st = st\<lparr>trace := trace st @ [e]\<rparr>"

definition LogDebug :: "string \<Rightarrow> pstate \<Rightarrow> pstate" where
  "LogDebug m = emit (LogLine DEBUG m)"

definition LogInfo :: "string \<Rightarrow> pstate \<Rightarrow> pstate" where
  "LogInfo m = emit (LogLine INFO m)"

definition LogWarning :: "string \<Rightarrow> pstate \<Rightarrow> pstate" where
  "LogWarning m = emit (LogLine WARNING m)"

definition LogError :: "string \<Rightarrow> pstate \<Rightarrow> pstate" where
  "LogError m = emit (LogLine ERROR m)"

definition printf :: "string \<Rightarrow> pstate \<Rightarrow> pstate" where
  "printf m = emit (Printf m)"

text \<open>\<^verbatim>\<open>WaitMilliseconds\<close>: sleeps only for a positive duration.\<close>

definition WaitMilliseconds :: "DWORD \<Rightarrow> pstate \<Rightarrow> pstate" where
  "WaitMilliseconds milliseconds st =
     (if milliseconds > 0 then emit (Sleep milliseconds) st else st)"

definition IsWindow :: "os_env \<Rightarrow> HWND \<Rightarrow> pstate \<Rightarrow> bool \<times> pstate" where
  "IsWindow env h st =
     (IsWindow_ans env (n_IsWindow st) h, st\<lparr>n_IsWindow := Suc (n_IsWindow st)\<rparr>)"

definition GetForegroundWindow :: "os_env \<Rightarrow> pstate \<Rightarrow> HWND \<times> pstate" where
  "GetForegroundWindow env st =
     (GetForegroundWindow_ans env (n_GetForegroundWindow st),
      st\<lparr>n_GetForegroundWindow := Suc (n_GetForegroundWindow st)\<rparr>)"

definition IsIconic :: "os_env \<Rightarrow> HWND \<Rightarrow> pstate \<Rightarrow> bool \<times> pstate" where
  "IsIconic env h st =
     (IsIconic_ans env (n_IsIconic st) h, st\<lparr>n_IsIconic := Suc (n_IsIconic st)\<rparr>)"

definition GetWindowThreadProcessId :: "os_env \<Rightarrow> HWND \<Rightarrow> pstate \<Rightarrow> DWORD \<times> pstate" where
  "GetWindowThreadProcessId env h st =
     (GetWindowThreadProcessId_ans env (n_GetWindowThreadProcessId st) h,
      st\<lparr>n_GetWindowThreadProcessId := Suc (n_GetWindowThreadProcessId st)\<rparr>)"

definition AttachThreadInput_call ::
  "os_env \<Rightarrow> DWORD \<Rightarrow> DWORD \<Rightarrow> bool \<Rightarrow> pstate \<Rightarrow> bool \<times> pstate" where
  "AttachThreadInput_call env idAttach idAttachTo fAttach st =
     (let r = AttachThreadInput_ans env (n_AttachThreadInput st)
      in (r, emit (AttachThreadInput idAttach idAttachTo fAttach r)
               (st\<lparr>n_AttachThreadInput := Suc (n_AttachThreadInput st)\<rparr>)))"

text \<open>The statement \<^verbatim>\<open>if (cond) AttachThreadInput(idAttach, idAttachTo, fAttach);\<close>,
  whose result is not used.\<close>

definition AttachThreadInput_when ::
  "os_env \<Rightarrow> bool \<Rightarrow> DWORD \<Rightarrow> DWORD \<Rightarrow> bool \<Rightarrow> pstate \<Rightarrow> pstate" where
  "AttachThreadInput_when env cond idAttach idAttachTo fAttach st =
     (if cond then snd (AttachThreadInput_call env idAttach idAttachTo fAttach st) else st)"

definition SendInput_call :: "os_env \<Rightarrow> INPUT list \<Rightarrow> pstate \<Rightarrow> nat \<times> pstate" where
  "SendInput_call env inputs st =
     (let r = SendInput_ans env (n_SendInput st)
      in (r, emit (SendInput inputs r) (st\<lparr>n_SendInput := Suc (n_SendInput st)\<rparr>)))"

definition GetAsyncKeyState :: "os_env \<Rightarrow> vkey \<Rightarrow> pstate \<Rightarrow> 16 word \<times> pstate" where
  "GetAsyncKeyState env vk st =
     (GetAsyncKeyState_ans env (n_GetAsyncKeyState st) vk,
      st\<lparr>n_GetAsyncKeyState := Suc (n_GetAsyncKeyState st)\<rparr>)"

section \<open>Utility functions\<close>

text \<open>
  IEEE 754 binary64 arithmetic, as \<^verbatim>\<open>double\<close> has it on the platform of the program
  (every operation is rounded to nearest, ties to even; \<^verbatim>\<open>FLT_EVAL_METHOD\<close> is 0).
  \<open>round_half_even t\<close> is the integer nearest to \<open>t\<close>, the even one of the two when
  \<open>t\<close> lies halfway. \<open>round53 z\<close> rounds \<open>z \<ge> 0\<close> to 53 significant bits, and to an
  integer when \<open>z < 2\<^sup>5\<^sup>3\<close>. A double is a multiple of \<open>2\<^sup>-\<^sup>1\<^sup>0\<^sup>7\<^sup>4\<close> with a
  significand of at most 53 bits, so \<open>binary64 x\<close> rounds \<open>\<bar>x\<bar> \<cdot> 2\<^sup>1\<^sup>0\<^sup>7\<^sup>4\<close> with \<open>round53\<close>:
  the normal and the subnormal range are both covered. Overflow is left out: every
  number the program computes has a magnitude below \<open>3600 \<cdot> 1000 \<cdot> (1 + 2\<^sup>-\<^sup>5\<^sup>0)\<close>.
  \<open>is_double x\<close> tells that \<open>x\<close> is such a number.
\<close>

definition round_half_even :: "real \<Rightarrow> int" where
  "round_half_even t =
     (let f = \<lfloor>t\<rfloor> in
      if t - of_int f < 1 / 2 then f
      else if t - of_int f > 1 / 2 then f + 1
      else if even f then f else f + 1)"

definition round53 :: "real \<Rightarrow> real" where
  "round53 z =
     (let k = nat (bitlen \<lfloor>z\<rfloor> - 53)
      in of_int (round_half_even (z / 2 ^ k)) * 2 ^ k)"

definition two_1074 :: real where
  "two_1074 = 2 ^ 1074"

definition binary64 :: "real \<Rightarrow> real" where
  "binary64 x = sgn x * (round53 (\<bar>x\<bar> * two_1074) / two_1074)"

definition is_double :: "real \<Rightarrow> bool" where
  "is_double x \<longleftrightarrow> binary64 x = x"

text \<open>
  \<^verbatim>\<open>GetRandomDelaySeconds\<close> (lines 659-686). One oracle index is used per call that
  gets past the early return: it answers \<^verbatim>\<open>CryptAcquireContext\<close>,
  \<^verbatim>\<open>CryptGenRandom\<close> (\<open>None\<close> when it fails, else the four random bytes) and
  \<^verbatim>\<open>rand\<close>. The result of \<^verbatim>\<open>rand()\<close> is an \<^verbatim>\<open>int\<close> converted to
  \<^verbatim>\<open>unsigned int\<close>. The conversions \<^verbatim>\<open>(double)random_value\<close> and
  \<^verbatim>\<open>(double)UINT_MAX\<close> are exact; the division, the subtraction, the multiplication
  and the addition are rounded, in this order.
\<close>

definition GetRandomDelaySeconds :: "os_env \<Rightarrow> real \<Rightarrow> real \<Rightarrow> pstate \<Rightarrow> real \<times> pstate" where
  "GetRandomDelaySeconds env min_s max_s st =
     (if min_s \<ge> max_s then
        (min_s, LogDebug ''GetRandomDelay: min_s (%.2f) >= max_s (%.2f). Returning min_s.'' st)
      else
        let k = n_random st;
            st1 = st\<lparr>n_random := Suc k\<rparr>;
            (cryptoSuccess, random_value, st2) =
              (if CryptAcquireContext_ans env k then
                 (case CryptGenRandom_ans env k of
                    Some v \<Rightarrow> (True, v, st1)
                  | None \<Rightarrow> (False, 0, LogError
                      ''GetRandomDelay: CryptGenRandom failed. Error: %lu. Falling back to rand().'' st1))
               else (False, 0, LogError
                      ''GetRandomDelay: CryptAcquireContext failed. Error: %lu. Falling back to rand().'' st1));
            random_value = (if \<not> cryptoSuccess then word_of_int (rand_ans env k) else random_value);
            scale = binary64 (real (unat random_value) / real (unat UINT_MAX))
        in (binary64 (min_s + binary64 (scale * binary64 (max_s - min_s))), st2))"

text \<open>\<^verbatim>\<open>IsAltKeyHeld\<close> (lines 702-707); \<^verbatim>\<open>||\<close> evaluates left to right and stops at
  the first operand that is true.\<close>

definition IsAltKeyHeld :: "os_env \<Rightarrow> pstate \<Rightarrow> bool \<times> pstate" where
  "IsAltKeyHeld env st =
     (let (k1, st1) = GetAsyncKeyState env VK_MENU st in
      if k1 AND 0x8000 \<noteq> 0 then (True, st1)
      else let (k2, st2) = GetAsyncKeyState env VK_LMENU st1 in
      if k2 AND 0x8000 \<noteq> 0 then (True, st2)
      else let (k3, st3) = GetAsyncKeyState env VK_RMENU st2 in
      (k3 AND 0x8000 \<noteq> 0, st3))"

section \<open>FocusArbiter: acquiring the focus\<close>

text \<open>
  The retry loop of \<^verbatim>\<open>ActivateWindowAndEnsureFocus\<close> (lines 510-521), \<open>i\<close> being the
  loop variable. A failed attempt asks \<^verbatim>\<open>GetForegroundWindow\<close> a second time, for
  the log line.
\<close>

function focus_loop :: "os_env \<Rightarrow> HWND \<Rightarrow> nat \<Rightarrow> pstate \<Rightarrow> bool \<times> pstate" where
  "focus_loop env hWndToActivate i st =
     (if i < FOCUS_SWITCH_ATTEMPTS then
        let st1 = emit (SetForegroundWindow hWndToActivate) st;
            st2 = WaitMilliseconds FOCUS_SWITCH_RETRY_DELAY_MS st1;
            (fg, st3) = GetForegroundWindow env st2
        in if fg = hWndToActivate then
             (True, LogDebug ''ActivateWindow: SetForegroundWindow for %p succeeded on attempt %d.'' st3)
           else
             let (fg', st4) = GetForegroundWindow env st3;
                 st5 = LogDebug
                   ''ActivateWindow: SetForegroundWindow for %p failed on attempt %d. Current FG: %p'' st4
             in focus_loop env hWndToActivate (Suc i) st5
      else (False, st))"
  by pat_completeness auto
termination
  by (relation "measure (\<lambda>(env, h, i, st). FOCUS_SWITCH_ATTEMPTS - i)") auto

declare focus_loop.simps [simp del]

text \<open>
  The blocks of \<^verbatim>\<open>ActivateWindowAndEnsureFocus\<close>, in the order of the source:
  the two joins (lines 487-493 and 494-502), the restore of a minimized target (504-508),
  the retry loop above and the check after the settle delay (523-535). The two unjoins
  (538-539) are conditional calls, \<open>AttachThreadInput_when\<close>.
\<close>

definition attach_target :: "os_env \<Rightarrow> DWORD \<Rightarrow> DWORD \<Rightarrow> pstate \<Rightarrow> bool \<times> pstate" where
  "attach_target env dwCurrentThreadId dwTargetThreadId st =
     (if dwTargetThreadId \<noteq> 0 \<and> dwTargetThreadId \<noteq> dwCurrentThreadId then
        let (ok, st1) = AttachThreadInput_call env dwCurrentThreadId dwTargetThreadId True st
        in if ok then (True, st1)
           else (False, LogWarning
                  ''ActivateWindow: Failed to attach to target thread %lu. Error: %lu'' st1)
      else (False, st))"

definition attach_original ::
  "os_env \<Rightarrow> DWORD \<Rightarrow> HWND \<Rightarrow> DWORD \<Rightarrow> DWORD \<Rightarrow> pstate \<Rightarrow> bool \<times> pstate" where
  "attach_original env dwCurrentThreadId hOriginalForeground dwOriginalForegroundThreadId
       dwTargetThreadId st =
     (if hOriginalForeground \<noteq> 0 \<and> dwOriginalForegroundThreadId \<noteq> 0 \<and>
         dwOriginalForegroundThreadId \<noteq> dwCurrentThreadId \<and>
         dwOriginalForegroundThreadId \<noteq> dwTargetThreadId then
        let (ok, st1) = AttachThreadInput_call env dwCurrentThreadId
                          dwOriginalForegroundThreadId True st
        in if ok then (True, st1)
           else (False, LogWarning
                  ''ActivateWindow: Failed to attach to original FG thread %lu. Error: %lu'' st1)
      else (False, st))"

definition restore_if_iconic :: "os_env \<Rightarrow> HWND \<Rightarrow> pstate \<Rightarrow> pstate" where
  "restore_if_iconic env hWndToActivate st =
     (let (iconic, st1) = IsIconic env hWndToActivate st in
      if iconic then
        WaitMilliseconds FOCUS_SWITCH_RETRY_DELAY_MS
          (emit (ShowWindow_RESTORE hWndToActivate)
             (LogDebug ''ActivateWindow: Target %p is iconic, restoring.'' st1))
      else st1)"

definition verify_hold :: "os_env \<Rightarrow> HWND \<Rightarrow> bool \<Rightarrow> pstate \<Rightarrow> bool \<times> pstate" where
  "verify_hold env hWndToActivate focusSet st =
     (if focusSet then
        let st1 = LogDebug ''ActivateWindow: Pausing (%dms) for system to settle.'' st;
            st2 = WaitMilliseconds FOCUS_SETTLE_DELAY_MS st1;
            (fg, st3) = GetForegroundWindow env st2
        in if fg \<noteq> hWndToActivate then
             let (fg', st4) = GetForegroundWindow env st3
             in (False, LogWarning
                  ''ActivateWindow: Focus lost from target %p after settling pause. Current FG: %p.'' st4)
           else (True, LogDebug
                  ''ActivateWindow: Target %p still has focus after settling pause.'' st3)
      else (False, LogWarning
                  ''ActivateWindow: Failed to set foreground to target %p after %d attempts.'' st))"

text \<open>\<^verbatim>\<open>ActivateWindowAndEnsureFocus\<close> (lines 472-542).\<close>

definition ActivateWindowAndEnsureFocus ::
  "os_env \<Rightarrow> HWND \<Rightarrow> HWND \<Rightarrow> pstate \<Rightarrow> bool \<times> pstate" where
  "ActivateWindowAndEnsureFocus env hWndToActivate hOriginalForeground st =
     (if hOriginalForeground = hWndToActivate then
        (True, LogDebug ''ActivateWindow: Target window %p is already foreground.'' st)
      else
        let st1 = LogDebug ''ActivateWindow: Target %p is not foreground. Attempting to activate.'' st;
            dwCurrentThreadId = GetCurrentThreadId_ans env;
            (dwTargetThreadId, st2) = GetWindowThreadProcessId env hWndToActivate st1;
            (dwOriginalForegroundThreadId, st3) = GetWindowThreadProcessId env hOriginalForeground st2;
            (attachedToTarget, st4) = attach_target env dwCurrentThreadId dwTargetThreadId st3;
            (attachedToOriginalFG, st5) =
              attach_original env dwCurrentThreadId hOriginalForeground
                dwOriginalForegroundThreadId dwTargetThreadId st4;
            st6 = restore_if_iconic env hWndToActivate st5;
            (focusSet, st7) = focus_loop env hWndToActivate 0 st6;
            (focusSet, st8) = verify_hold env hWndToActivate focusSet st7;
            st9 = AttachThreadInput_when env attachedToOriginalFG dwCurrentThreadId
                    dwOriginalForegroundThreadId False st8;
            st10 = AttachThreadInput_when env attachedToTarget dwCurrentThreadId
                     dwTargetThreadId False st9
        in (focusSet, st10))"

text \<open>The statement \<^verbatim>\<open>if (IsIconic(h)) ShowWindow(h, SW_RESTORE);\<close> (line 572).\<close>

definition ShowWindow_when_iconic :: "os_env \<Rightarrow> HWND \<Rightarrow> pstate \<Rightarrow> pstate" where
  "ShowWindow_when_iconic env h st =
     (let (iconic, st1) = IsIconic env h st in
      if iconic then emit (ShowWindow_RESTORE h) st1 else st1)"

text \<open>\<^verbatim>\<open>RestoreOriginalFocus\<close> (lines 550-586); \<^verbatim>\<open>IsWindow\<close> is asked only when the
  first two operands of \<^verbatim>\<open>||\<close> are false.\<close>

definition RestoreOriginalFocus :: "os_env \<Rightarrow> HWND \<Rightarrow> HWND \<Rightarrow> bool \<Rightarrow> pstate \<Rightarrow> pstate" where
  "RestoreOriginalFocus env hOriginalForeground hTargetWindow focusSwitchedSuccessfully st =
     (if hOriginalForeground = hTargetWindow \<or> hOriginalForeground = 0 then st
      else
        let (alive, st1) = IsWindow env hOriginalForeground st in
        if \<not> alive then st1
        else if \<not> focusSwitchedSuccessfully then
          LogDebug ''RestoreFocus: Input was not sent to target, not aggressively restoring original focus.'' st1
        else
          let (currentFgAfterInput, st2) = GetForegroundWindow env st1 in
          if currentFgAfterInput = hTargetWindow \<or> currentFgAfterInput \<noteq> hOriginalForeground then
            let st3 = LogDebug ''RestoreFocus: Attempting to restore original foreground to HWND %p'' st2;
                st4 = WaitMilliseconds FOCUS_SWITCH_RETRY_DELAY_MS st3;
                dwCurrentThreadId = GetCurrentThreadId_ans env;
                (dwOriginalFGThreadId, st5) = GetWindowThreadProcessId env hOriginalForeground st4;
                needsAttach = (dwOriginalFGThreadId \<noteq> 0 \<and> dwOriginalFGThreadId \<noteq> dwCurrentThreadId);
                st6 = AttachThreadInput_when env needsAttach dwCurrentThreadId
                        dwOriginalFGThreadId True st5;
                st8 = ShowWindow_when_iconic env hOriginalForeground st6;
                st9 = emit (SetForegroundWindow hOriginalForeground) st8;
                st10 = AttachThreadInput_when env needsAttach dwCurrentThreadId
                         dwOriginalFGThreadId False st9;
                (fg, st11) = GetForegroundWindow env st10
            in if fg = hOriginalForeground then
                 LogDebug ''RestoreFocus: Successfully restored foreground to HWND %p'' st11
               else
                 let (fg', st12) = GetForegroundWindow env st11
                 in LogWarning ''RestoreFocus: Failed to restore foreground to HWND %p. Current FG: %p'' st12
          else
            LogDebug ''RestoreFocus: Original foreground window %p is already active or user switched. No restore needed.'' st2)"

section \<open>KeystrokeInjector\<close>

text \<open>The \<^verbatim>\<open>INPUT inputs[4]\<close> array of lines 625-629.\<close>

definition ctrl_f5_inputs :: "INPUT list" where
  "ctrl_f5_inputs =
     [\<lparr>wVk = VK_CONTROL, dwFlags = KEYDOWN\<rparr>,
      \<lparr>wVk = VK_F5, dwFlags = KEYDOWN\<rparr>,
      \<lparr>wVk = VK_F5, dwFlags = KEYEVENTF_KEYUP\<rparr>,
      \<lparr>wVk = VK_CONTROL, dwFlags = KEYEVENTF_KEYUP\<rparr>]"

text \<open>
  The injection proper: the block of \<^verbatim>\<open>SendCtrlF5Keystroke\<close> guarded by the second
  \<^verbatim>\<open>if (focusSetForInput)\<close> (lines 624-637).
\<close>

definition inject_ctrl_f5 :: "os_env \<Rightarrow> pstate \<Rightarrow> pstate" where
  "inject_ctrl_f5 env st =
     (let (uSent, st1) = SendInput_call env ctrl_f5_inputs st
      in if uSent \<noteq> 4 then
           LogError ''SendCtrlF5 (SendInput): Failed. Sent %u of 4. Error: %lu'' st1
         else
           LogDebug ''SendCtrlF5 (SendInput): Sent Ctrl+F5 to HWND %p.'' st1)"

text \<open>
  The final check of \<^verbatim>\<open>SendCtrlF5Keystroke\<close> that the target is not minimized
  (lines 614-622); the result is the value of \<^verbatim>\<open>focusSetForInput\<close> after it.
\<close>

definition final_iconic_check :: "os_env \<Rightarrow> HWND \<Rightarrow> pstate \<Rightarrow> bool \<times> pstate" where
  "final_iconic_check env targetHwnd st =
     (let (iconic, st1) = IsIconic env targetHwnd st in
      if iconic then
        let st2 = LogDebug ''SendCtrlF5: Target %p became iconic before SendInput. Restoring.'' st1;
            st3 = emit (ShowWindow_RESTORE targetHwnd) st2;
            st4 = WaitMilliseconds FOCUS_SWITCH_RETRY_DELAY_MS st3;
            (fg, st5) = GetForegroundWindow env st4
        in if fg \<noteq> targetHwnd then
             (False, LogWarning
                ''SendCtrlF5: Failed to keep target %p foreground after restore. Skipping SendInput.'' st5)
           else (True, st5)
      else (True, st1))"

text \<open>
  The statement \<^verbatim>\<open>if (focusSetForInput) { ... } else { printf(...); }\<close> of
  \<^verbatim>\<open>SendCtrlF5Keystroke\<close> (lines 612-641); the result is the value of
  \<^verbatim>\<open>focusSetForInput\<close> after it.
\<close>

definition inject_if_focused :: "os_env \<Rightarrow> HWND \<Rightarrow> bool \<Rightarrow> pstate \<Rightarrow> bool \<times> pstate" where
  "inject_if_focused env targetHwnd focusSetForInput st =
     (if focusSetForInput then
        let (focusSetForInput, st1) = final_iconic_check env targetHwnd st
        in if focusSetForInput then (True, inject_ctrl_f5 env st1)
           else (False, st1)
      else
        (False, printf
           ''Info: Could not reliably switch to target window. Keystroke for Ctrl+F5 skipped this cycle.'' st))"

text \<open>\<^verbatim>\<open>SendCtrlF5Keystroke\<close> (lines 595-647).\<close>

definition SendCtrlF5Keystroke :: "os_env \<Rightarrow> HWND \<Rightarrow> pstate \<Rightarrow> pstate" where
  "SendCtrlF5Keystroke env targetHwnd st =
     (let (alive, st1) = IsWindow env targetHwnd st in
      if \<not> alive then
        printf ''Warning: The target window seems to be closed. Keystroke not sent.''
          (LogWarning ''SendCtrlF5: Target HWND %p is invalid. Skipping.'' st1)
      else
        let (hOriginalForeground, st2) = GetForegroundWindow env st1;
            targetWasAlreadyForeground = (hOriginalForeground = targetHwnd);
            (focusSetForInput, st3) =
              (if \<not> targetWasAlreadyForeground then
                 ActivateWindowAndEnsureFocus env targetHwnd hOriginalForeground st2
               else
                 (targetWasAlreadyForeground,
                  LogDebug ''SendCtrlF5: Target window %p is already foreground.'' st2));
            (focusSetForInput, st4) = inject_if_focused env targetHwnd focusSetForInput st3
        in if \<not> targetWasAlreadyForeground then
             RestoreOriginalFocus env hOriginalForeground targetHwnd focusSetForInput st4
           else st4)"

section \<open>ConfigStore: loading the delay bounds\<close>

text \<open>
  The result of \<^verbatim>\<open>atof\<close>: a finite number, an infinity or a NaN. Every comparison with
  a NaN is false in C, so a NaN fails the validation of \<^verbatim>\<open>LoadConfiguration\<close>, as the
  infinities do.
\<close>

datatype cdouble = Finite real | PlusInfinity | MinusInfinity | NaN

text \<open>\<^verbatim>\<open>isspace\<close> in the "C" locale.\<close>

definition isspace :: "char \<Rightarrow> bool" where
  "isspace c = (c = CHR '' '' \<or> c = CHR 0x09 \<or> c = CHR 0x0A \<or> c = CHR 0x0B \<or>
                c = CHR 0x0C \<or> c = CHR 0x0D)"

text \<open>The C string held by a buffer: the characters before the first NUL.\<close>

definition c_str :: "string \<Rightarrow> string" where
  "c_str buf = takeWhile (\<lambda>c. c \<noteq> CHR 0x00) buf"

text \<open>
  \<^verbatim>\<open>TrimWhitespace\<close> (lines 275-286). \<open>trim_end str e\<close> is the loop
  \<^verbatim>\<open>while(end > str && isspace(*end)) end--\<close>, with \<open>e\<close> the offset of \<^verbatim>\<open>end\<close> from
  \<^verbatim>\<open>str\<close>; the result of \<open>TrimWhitespace\<close> is the string the returned pointer designates.
\<close>

primrec trim_end :: "string \<Rightarrow> nat \<Rightarrow> nat" where
  "trim_end str 0 = 0"
| "trim_end str (Suc e) = (if isspace (str ! Suc e) then trim_end str e else Suc e)"

definition TrimWhitespace :: "string \<Rightarrow> string" where
  "TrimWhitespace str =
     (let str1 = dropWhile isspace str in
      if str1 = [] then str1
      else take (Suc (trim_end str1 (length str1 - 1))) str1)"

text \<open>
  The successive results of \<^verbatim>\<open>fgets(line, sizeof(line), configFile)\<close> on a file of the
  given content: each call reads up to and including a newline, and at most 255
  characters. \<open>room\<close> is the number of characters the current call may still store.
\<close>

fun fgets_lines :: "nat \<Rightarrow> string \<Rightarrow> string \<Rightarrow> string list" where
  "fgets_lines room line [] = (if line = [] then [] else [line])"
| "fgets_lines room line (c # cs) =
     (if c = CHR 0x0A \<or> room = 1 then (line @ [c]) # fgets_lines 255 [] cs
      else fgets_lines (room - 1) (line @ [c]) cs)"

text \<open>
  \<^verbatim>\<open>sscanf(trimmed_line, "%127[^= \t] = %127s", key, value_str) == 2\<close>: a non-empty
  key of at most 127 characters other than \<^verbatim>\<open>=\<close>, space and tab; optional white space;
  the character \<^verbatim>\<open>=\<close>; optional white space; a non-empty value of at most 127
  characters other than white space. \<open>None\<close> stands for every result other than 2.
\<close>

definition sscanf_key_value :: "string \<Rightarrow> (string \<times> string) option" where
  "sscanf_key_value s =
     (let key = take 127 (takeWhile (\<lambda>c. c \<noteq> CHR ''='' \<and> c \<noteq> CHR '' '' \<and> c \<noteq> CHR 0x09) s);
          r1 = dropWhile isspace (drop (length key) s)
      in if key = [] then None
         else case r1 of
                [] \<Rightarrow> None
              | c # r2 \<Rightarrow>
                  if c \<noteq> CHR ''='' then None
                  else let r3 = dropWhile isspace r2;
                           value_str = take 127 (takeWhile (\<lambda>c. \<not> isspace c) r3)
                       in if value_str = [] then None else Some (key, value_str))"

text \<open>
  The body of the reading loop of \<^verbatim>\<open>LoadConfiguration\<close> (lines 335-366), for one line.
  \<^verbatim>\<open>atof\<close> is a parameter of the model.
\<close>

definition process_config_line :: "(string \<Rightarrow> cdouble) \<Rightarrow> string \<Rightarrow> pstate \<Rightarrow> pstate" where
  "process_config_line atof line st =
     (let trimmed_line = TrimWhitespace line in
      case trimmed_line of
        [] \<Rightarrow> st
      | c # cs \<Rightarrow>
          if c = CHR ''#'' \<or> c = CHR '';'' then st
          else
            case sscanf_key_value trimmed_line of
              Some (key, value_str) \<Rightarrow>
                let trimmed_key = TrimWhitespace key;
                    trimmed_value_str = TrimWhitespace value_str;
                    parsed_val = atof trimmed_value_str
                in if trimmed_key = ''min_delay'' then
                     (case parsed_val of
                        Finite v \<Rightarrow>
                          if v > 0 \<and> v < 3600 then
                            LogDebug ''LoadConfig: Loaded min_delay = %.2f''
                              (st\<lparr>g_min_delay_seconds := v\<rparr>)
                          else LogWarning
                            ''LoadConfig: Invalid value for min_delay on line %d: '%s'. Using default or previous.'' st
                      | _ \<Rightarrow> LogWarning
                            ''LoadConfig: Invalid value for min_delay on line %d: '%s'. Using default or previous.'' st)
                   else if trimmed_key = ''max_delay'' then
                     (case parsed_val of
                        Finite v \<Rightarrow>
                          if v > 0 \<and> v < 3600 then
                            LogDebug ''LoadConfig: Loaded max_delay = %.2f''
                              (st\<lparr>g_max_delay_seconds := v\<rparr>)
                          else LogWarning
                            ''LoadConfig: Invalid value for max_delay on line %d: '%s'. Using default or previous.'' st
                      | _ \<Rightarrow> LogWarning
                            ''LoadConfig: Invalid value for max_delay on line %d: '%s'. Using default or previous.'' st)
                   else LogWarning ''LoadConfig: Unknown key '%s' on line %d.'' st
            | None \<Rightarrow> LogWarning (''LoadConfig: Could not parse line %d: '%s'' @ [CHR 0x27]) st)"

text \<open>The reading loop (lines 334-367).\<close>

definition read_config_lines :: "(string \<Rightarrow> cdouble) \<Rightarrow> string \<Rightarrow> pstate \<Rightarrow> pstate" where
  "read_config_lines atof content st =
     fold (\<lambda>line. process_config_line atof (c_str line)) (fgets_lines 255 [] content) st"

text \<open>
  \<^verbatim>\<open>CreateDefaultConfigFile\<close> (lines 292-308); \<open>can_create\<close> tells whether
  \<^verbatim>\<open>fopen(CONFIG_FILE_NAME, "w")\<close> succeeds.
\<close>

definition CreateDefaultConfigFile :: "bool \<Rightarrow> pstate \<Rightarrow> bool \<times> pstate" where
  "CreateDefaultConfigFile can_create st =
     (if \<not> can_create then
        (False, LogWarning ''LoadConfig: Failed to create default '%s'.''
                  (printf ''Warning: Could not create default '%s'.'' st))
      else
        (True, LogInfo ''LoadConfig: Created default '%s'.''
                 (printf ''Info: A default '%s' has been created.''
                    (emit WriteDefaultConfig st))))"

text \<open>
  \<^verbatim>\<open>LoadConfiguration\<close> (lines 314-380); \<open>configFile\<close> is \<open>None\<close> when
  \<^verbatim>\<open>fopen(CONFIG_FILE_NAME, "r")\<close> fails and the content of the file otherwise.
\<close>

definition LoadConfiguration ::
  "(string \<Rightarrow> cdouble) \<Rightarrow> string option \<Rightarrow> bool \<Rightarrow> pstate \<Rightarrow> pstate" where
  "LoadConfiguration atof configFile can_create st =
     (let st1 = st\<lparr>g_min_delay_seconds := DEFAULT_MIN_DELAY_S,
                   g_max_delay_seconds := DEFAULT_MAX_DELAY_S\<rparr>
      in case configFile of
           None \<Rightarrow>
             snd (CreateDefaultConfigFile can_create
                    (LogInfo ''LoadConfig: '%s' not found. Using default delays.''
                       (printf ''Info: '%s' not found. Using default delay values (Min: %.1fs, Max: %.1fs).'' st1)))
         | Some content \<Rightarrow>
             let st2 = LogInfo ''LoadConfig: Reading configuration from '%s'.'' st1;
                 st3 = read_config_lines atof content st2;
                 st4 = (if g_min_delay_seconds st3 > g_max_delay_seconds st3 then
                          let s1 = printf ''Warning: min_delay (%.1fs) in config is greater than max_delay (%.1fs). Swapping them.'' st3;
                              s2 = LogWarning ''LoadConfig: min_delay > max_delay. Swapping. Min: %.2f, Max: %.2f'' s1;
                              temp = g_min_delay_seconds s2
                          in s2\<lparr>g_min_delay_seconds := g_max_delay_seconds s2,
                                g_max_delay_seconds := temp\<rparr>
                        else st3)
             in printf ''Info: Using delays - Min: %.1fs, Max: %.1fs (from '%s').'' st4)"

section \<open>Dispatcher: the main loop\<close>

datatype control = Continue | Break

text \<open>
  One pass through the body of \<^verbatim>\<open>while (TRUE)\<close> in \<^verbatim>\<open>main\<close> (lines 143-176), from
  the state in which the target window has been selected. \<^verbatim>\<open>GetWindowText\<close> only
  feeds the console line and is left out. The product \<^verbatim>\<open>wait_duration_s * 1000.0\<close> is
  rounded and the cast to \<^verbatim>\<open>DWORD\<close> truncates it; the delay is not negative and stays
  below \<open>3601\<close>, so the value fits a \<^verbatim>\<open>DWORD\<close>.
\<close>

definition main_cycle :: "os_env \<Rightarrow> nat \<Rightarrow> pstate \<Rightarrow> control \<times> nat \<times> pstate" where
  \<open>main_cycle env keystroke_count st =
     (let (alive, st1) = IsWindow env (g_hTargetWindow st) st in
      if \<not> alive then
        (Break, keystroke_count,
         LogWarning ''Main: Target window HWND %p no longer exists. Exiting loop.''
           (printf ''Target window (HWND %p) no longer exists. Stopping.'' st1))
      else
        let (wait_duration_s, st2) =
              GetRandomDelaySeconds env (g_min_delay_seconds st1) (g_max_delay_seconds st1) st1;
            st3 = printf ''Waiting for %.2fs before sending Ctrl+F5 to "%s"...'' st2;
            st4 = LogDebug ''Main: Waiting for %.3f seconds.'' st3;
            st5 = WaitMilliseconds (nat \<lfloor>binary64 (wait_duration_s * 1000)\<rfloor>) st4;
            (alt, st6) = IsAltKeyHeld env st5
        in if alt then
             (Continue, keystroke_count,
              WaitMilliseconds ALT_KEY_CHECK_DELAY_MS
                (LogDebug ''Main: Alt key detected as pressed. Deferring SendCtrlF5Keystroke.''
                   (printf ''Info: Alt key is currently pressed. Skipping keystroke to avoid conflict.'' st6)))
           else
             let (alive', st7) = IsWindow env (g_hTargetWindow st6) st6 in
             if \<not> alive' then
               (Break, keystroke_count,
                LogWarning ''Main: Target window HWND %p disappeared during wait. Exiting loop.''
                  (printf ''Target window (HWND %p) disappeared before sending keystroke. Stopping.'' st7))
             else
               let keystroke_count' = keystroke_count + 1;
                   st8 = printf ''Sending Ctrl+F5 (Count: %d) to window "%s"...'' st7;
                   st9 = SendCtrlF5Keystroke env (g_hTargetWindow st8) st8
               in (Continue, keystroke_count', WaitMilliseconds POST_SENDINPUT_DELAY_MS st9))\<close>

text \<open>
  The loop itself never ends unless the target window disappears, so it is run for a
  given number of passes: \<open>Continue\<close> in the result means that the loop is still running
  after that many passes, \<open>Break\<close> that it has been left.
\<close>

fun main_loop :: "nat \<Rightarrow> os_env \<Rightarrow> nat \<Rightarrow> pstate \<Rightarrow> control \<times> nat \<times> pstate" where
  "main_loop 0 env keystroke_count st = (Continue, keystroke_count, st)"
| "main_loop (Suc n) env keystroke_count st =
     (case main_cycle env keystroke_count st of
        (Break, c, st') \<Rightarrow> (Break, c, st')
      | (Continue, c, st') \<Rightarrow> main_loop n env c st')"

section \<open>Observations on traces\<close>

text \<open>The events a call has added to the trace.\<close>

definition new_events :: "pstate \<Rightarrow> pstate \<Rightarrow> event list" where
  "new_events st st' = drop (length (trace st)) (trace st')"

fun is_SendInput :: "event \<Rightarrow> bool" where
  "is_SendInput (SendInput xs r) = True"
| "is_SendInput e = False"

fun is_AttachThreadInput :: "event \<Rightarrow> bool" where
  "is_AttachThreadInput (AttachThreadInput a b f r) = True"
| "is_AttachThreadInput e = False"

fun is_SetForegroundWindow :: "event \<Rightarrow> bool" where
  "is_SetForegroundWindow (SetForegroundWindow h) = True"
| "is_SetForegroundWindow e = False"

fun is_ShowWindow :: "event \<Rightarrow> bool" where
  "is_ShowWindow (ShowWindow_RESTORE h) = True"
| "is_ShowWindow e = False"

fun is_Sleep :: "event \<Rightarrow> bool" where
  "is_Sleep (Sleep n) = True"
| "is_Sleep e = False"

subsection \<open>Auxiliary notions for the proofs\<close>

text \<open>
  Projections of a trace onto the thread-input calls: the threads joined successfully, in
  order; the threads whose join was refused; the threads unjoined; and the
  \<^verbatim>\<open>fAttach\<close> flags of all calls. Further down, closed forms of the blocks of
  \<^verbatim>\<open>ActivateWindowAndEnsureFocus\<close> as functions of the oracle indices; the lemmas
  of the last section relate them to the blocks.
\<close>

definition quiet :: "event \<Rightarrow> bool" where
  "quiet e = (\<not> is_AttachThreadInput e \<and> \<not> is_SendInput e)"

fun joined :: "event list \<Rightarrow> DWORD list" where
  "joined [] = []"
| "joined (AttachThreadInput a b True True # es) = b # joined es"
| "joined (e # es) = joined es"

fun refused :: "event list \<Rightarrow> DWORD list" where
  "refused [] = []"
| "refused (AttachThreadInput a b True False # es) = b # refused es"
| "refused (e # es) = refused es"

fun detached :: "event list \<Rightarrow> DWORD list" where
  "detached [] = []"
| "detached (AttachThreadInput a b False r # es) = b # detached es"
| "detached (e # es) = detached es"

fun attach_flags :: "event list \<Rightarrow> bool list" where
  "attach_flags [] = []"
| "attach_flags (AttachThreadInput a b f r # es) = f # attach_flags es"
| "attach_flags (e # es) = attach_flags es"

definition focus_attempt_ok :: "HWND \<Rightarrow> event list" where
  "focus_attempt_ok h =
     [SetForegroundWindow h, Sleep FOCUS_SWITCH_RETRY_DELAY_MS,
      LogLine DEBUG ''ActivateWindow: SetForegroundWindow for %p succeeded on attempt %d.'']"

definition focus_attempt_failed :: "HWND \<Rightarrow> event list" where
  "focus_attempt_failed h =
     [SetForegroundWindow h, Sleep FOCUS_SWITCH_RETRY_DELAY_MS,
      LogLine DEBUG ''ActivateWindow: SetForegroundWindow for %p failed on attempt %d. Current FG: %p'']"

definition focus_loop_outcome :: "os_env \<Rightarrow> HWND \<Rightarrow> nat \<Rightarrow> bool \<times> nat \<times> event list" where
  "focus_loop_outcome env h k =
     (if GetForegroundWindow_ans env k = h then (True, k + 1, focus_attempt_ok h)
      else if GetForegroundWindow_ans env (k + 2) = h then
        (True, k + 3, focus_attempt_failed h @ focus_attempt_ok h)
      else if GetForegroundWindow_ans env (k + 4) = h then
        (True, k + 5, focus_attempt_failed h @ focus_attempt_failed h @ focus_attempt_ok h)
      else
        (False, k + 6, focus_attempt_failed h @ focus_attempt_failed h @ focus_attempt_failed h))"

definition verify_hold_outcome :: "os_env \<Rightarrow> HWND \<Rightarrow> bool \<Rightarrow> nat \<Rightarrow> bool \<times> nat \<times> event list" where
  "verify_hold_outcome env h f k =
     (if f then
        if GetForegroundWindow_ans env k \<noteq> h then
          (False, k + 2,
           [LogLine DEBUG ''ActivateWindow: Pausing (%dms) for system to settle.'',
            Sleep FOCUS_SETTLE_DELAY_MS,
            LogLine WARNING
              ''ActivateWindow: Focus lost from target %p after settling pause. Current FG: %p.''])
        else
          (True, k + 1,
           [LogLine DEBUG ''ActivateWindow: Pausing (%dms) for system to settle.'',
            Sleep FOCUS_SETTLE_DELAY_MS,
            LogLine DEBUG ''ActivateWindow: Target %p still has focus after settling pause.''])
      else
        (False, k,
         [LogLine WARNING
            ''ActivateWindow: Failed to set foreground to target %p after %d attempts.'']))"

definition activation_events ::
  "DWORD \<Rightarrow> DWORD \<Rightarrow> DWORD \<Rightarrow> bool \<Rightarrow> bool \<Rightarrow> bool \<Rightarrow> bool \<Rightarrow> event list \<Rightarrow> bool \<Rightarrow> bool \<Rightarrow> event list" where
  "activation_events c tT tO tryT okT tryO okO middle rO rT =
     LogLine DEBUG ''ActivateWindow: Target %p is not foreground. Attempting to activate.'' #
     (if tryT then
        if okT then [AttachThreadInput c tT True True]
        else [AttachThreadInput c tT True False,
              LogLine WARNING ''ActivateWindow: Failed to attach to target thread %lu. Error: %lu'']
      else []) @
     (if tryO then
        if okO then [AttachThreadInput c tO True True]
        else [AttachThreadInput c tO True False,
              LogLine WARNING ''ActivateWindow: Failed to attach to original FG thread %lu. Error: %lu'']
      else []) @
     middle @
     (if tryO \<and> okO then [AttachThreadInput c tO False rO] else []) @
     (if tryT \<and> okT then [AttachThreadInput c tT False rT] else [])"

definition injection_events :: "os_env \<Rightarrow> nat \<Rightarrow> event list" where
  "injection_events env kS =
     [SendInput ctrl_f5_inputs (SendInput_ans env kS),
      if SendInput_ans env kS \<noteq> 4
      then LogLine ERROR ''SendCtrlF5 (SendInput): Failed. Sent %u of 4. Error: %lu''
      else LogLine DEBUG ''SendCtrlF5 (SendInput): Sent Ctrl+F5 to HWND %p.'']"

definition inject_outcome ::
  "os_env \<Rightarrow> HWND \<Rightarrow> bool \<Rightarrow> nat \<Rightarrow> nat \<Rightarrow> nat \<Rightarrow> bool \<times> event list" where
  "inject_outcome env h focused kI kF kS =
     (if focused then
        if IsIconic_ans env kI h then
          if GetForegroundWindow_ans env kF \<noteq> h then
            (False,
             [LogLine DEBUG ''SendCtrlF5: Target %p became iconic before SendInput. Restoring.'',
              ShowWindow_RESTORE h, Sleep FOCUS_SWITCH_RETRY_DELAY_MS,
              LogLine WARNING
                ''SendCtrlF5: Failed to keep target %p foreground after restore. Skipping SendInput.''])
          else
            (True,
             [LogLine DEBUG ''SendCtrlF5: Target %p became iconic before SendInput. Restoring.'',
              ShowWindow_RESTORE h, Sleep FOCUS_SWITCH_RETRY_DELAY_MS] @ injection_events env kS)
        else (True, injection_events env kS)
      else
        (False,
         [Printf ''Info: Could not reliably switch to target window. Keystroke for Ctrl+F5 skipped this cycle.'']))"

text \<open>
  Closed forms for the main loop: the random number drawn by one call of
  \<^verbatim>\<open>GetRandomDelaySeconds\<close>, the value and the log lines of the call, as functions of
  the index of the random source; the result of
  \<^verbatim>\<open>IsAltKeyHeld\<close> and the number of \<^verbatim>\<open>GetAsyncKeyState\<close> calls it makes, as functions
  of the index of the first call; the events of the wait and of the skipped cycle. In a
  trace, \<open>waits_before_injection\<close> gives the sleeps from the log line of the modifier
  detection up to the next \<^verbatim>\<open>SendInput\<close> call.
\<close>

definition random_draw :: "os_env \<Rightarrow> nat \<Rightarrow> 32 word" where
  "random_draw env k =
     (if CryptAcquireContext_ans env k then
        (case CryptGenRandom_ans env k of
           Some v \<Rightarrow> v | None \<Rightarrow> word_of_int (rand_ans env k))
      else word_of_int (rand_ans env k))"

definition random_value :: "os_env \<Rightarrow> real \<Rightarrow> real \<Rightarrow> nat \<Rightarrow> real" where
  "random_value env min_s max_s k =
     (if min_s \<ge> max_s then min_s
      else
        let scale = binary64 (real (unat (random_draw env k)) / real (unat UINT_MAX))
        in binary64 (min_s + binary64 (scale * binary64 (max_s - min_s))))"

definition random_log :: "os_env \<Rightarrow> real \<Rightarrow> real \<Rightarrow> nat \<Rightarrow> event list" where
  "random_log env min_s max_s k =
     (if min_s \<ge> max_s then
        [LogLine DEBUG ''GetRandomDelay: min_s (%.2f) >= max_s (%.2f). Returning min_s.'']
      else if CryptAcquireContext_ans env k then
        (case CryptGenRandom_ans env k of
           Some v \<Rightarrow> []
         | None \<Rightarrow> [LogLine ERROR
             ''GetRandomDelay: CryptGenRandom failed. Error: %lu. Falling back to rand().''])
      else [LogLine ERROR
             ''GetRandomDelay: CryptAcquireContext failed. Error: %lu. Falling back to rand().''])"

definition key_down :: "16 word \<Rightarrow> bool" where
  "key_down w = (w AND 0x8000 \<noteq> 0)"

definition alt_held :: "os_env \<Rightarrow> nat \<Rightarrow> bool" where
  "alt_held env k =
     (key_down (GetAsyncKeyState_ans env k VK_MENU) \<or>
      key_down (GetAsyncKeyState_ans env (Suc k) VK_LMENU) \<or>
      key_down (GetAsyncKeyState_ans env (Suc (Suc k)) VK_RMENU))"

definition alt_calls :: "os_env \<Rightarrow> nat \<Rightarrow> nat" where
  "alt_calls env k =
     (if key_down (GetAsyncKeyState_ans env k VK_MENU) then 1
      else if key_down (GetAsyncKeyState_ans env (Suc k) VK_LMENU) then 2 else 3)"

definition wait_events :: "real \<Rightarrow> event list" where
  \<open>wait_events wait_duration_s =
     [Printf ''Waiting for %.2fs before sending Ctrl+F5 to "%s"...'',
      LogLine DEBUG ''Main: Waiting for %.3f seconds.''] @
     (if nat \<lfloor>binary64 (wait_duration_s * 1000)\<rfloor> > 0
      then [Sleep (nat \<lfloor>binary64 (wait_duration_s * 1000)\<rfloor>)] else [])\<close>

definition alt_skip_events :: "event list" where
  "alt_skip_events =
     [Printf ''Info: Alt key is currently pressed. Skipping keystroke to avoid conflict.'',
      LogLine DEBUG ''Main: Alt key detected as pressed. Deferring SendCtrlF5Keystroke.'',
      Sleep ALT_KEY_CHECK_DELAY_MS]"

definition waits_before_injection :: "event list \<Rightarrow> event list" where
  "waits_before_injection evs =
     filter is_Sleep
       (takeWhile (\<lambda>e. \<not> is_SendInput e)
          (dropWhile (\<lambda>e. e \<noteq> LogLine DEBUG
              ''Main: Alt key detected as pressed. Deferring SendCtrlF5Keystroke.'') evs))"

definition grows :: "pstate \<Rightarrow> pstate \<Rightarrow> bool" where
  "grows st st' \<longleftrightarrow>
     take (length (trace st)) (trace st') = trace st \<and>
     filter is_SendInput (new_events st st') = []"

subsection \<open>Observations on the configuration\<close>

text \<open>
  Notions used to state the properties of the configuration loader: the validation
  \<^verbatim>\<open>parsed_val > 0.0 && parsed_val < 3600.0\<close>; the key and the parsed value a line of
  the file carries, if any; the delay a key governs; the warning logged when the value
  of a key is rejected; the values a file gives to a key, in the order of the lines; the
  delay after one more value of its key has been read; and the default of a key.
\<close>

fun valid_delay :: "cdouble \<Rightarrow> bool" where
  "valid_delay (Finite v) = (v > 0 \<and> v < 3600)"
| "valid_delay w = False"

definition config_line_entry :: "(string \<Rightarrow> cdouble) \<Rightarrow> string \<Rightarrow> (string \<times> cdouble) option" where
  "config_line_entry atof line =
     (case TrimWhitespace line of
        [] \<Rightarrow> None
      | c # cs \<Rightarrow>
          if c = CHR ''#'' \<or> c = CHR '';'' then None
          else case sscanf_key_value (TrimWhitespace line) of
                 None \<Rightarrow> None
               | Some (key, value_str) \<Rightarrow>
                   Some (TrimWhitespace key, atof (TrimWhitespace value_str)))"

definition delay_of :: "string \<Rightarrow> pstate \<Rightarrow> real" where
  "delay_of key st =
     (if key = ''min_delay'' then g_min_delay_seconds st else g_max_delay_seconds st)"

definition invalid_value_warning :: "string \<Rightarrow> event" where
  "invalid_value_warning key =
     (if key = ''min_delay'' then
        LogLine WARNING
          ''LoadConfig: Invalid value for min_delay on line %d: '%s'. Using default or previous.''
      else
        LogLine WARNING
          ''LoadConfig: Invalid value for max_delay on line %d: '%s'. Using default or previous.'')"

definition key_values :: "(string \<Rightarrow> cdouble) \<Rightarrow> string \<Rightarrow> string list \<Rightarrow> cdouble list" where
  "key_values atof key lines =
     List.map_filter
       (\<lambda>line. case config_line_entry atof line of
                  None \<Rightarrow> None
                | Some (k, w) \<Rightarrow> if k = key then Some w else None)
       lines"

fun accept_value :: "real \<Rightarrow> cdouble \<Rightarrow> real" where
  "accept_value d (Finite v) = (if v > 0 \<and> v < 3600 then v else d)"
| "accept_value d w = d"

definition default_delay :: "string \<Rightarrow> real" where
  "default_delay key =
     (if key = ''min_delay'' then DEFAULT_MIN_DELAY_S else DEFAULT_MAX_DELAY_S)"

section \<open>Concrete environments and states\<close>

definition st0 :: pstate where
  "st0 = \<lparr>g_hTargetWindow = 5, g_min_delay_seconds = 2, g_max_delay_seconds = 7,
          trace = [], n_IsWindow = 0, n_GetForegroundWindow = 0, n_IsIconic = 0,
          n_GetWindowThreadProcessId = 0, n_AttachThreadInput = 0, n_SendInput = 0,
          n_GetAsyncKeyState = 0, n_random = 0\<rparr>"

text \<open>A quiet desktop: window 5 (thread 50) is the target and already has the focus, no
  key is held, the strong random source works and draws \<open>UINT_MAX\<close>.\<close>

definition env_quiet :: os_env where
  "env_quiet = \<lparr>IsWindow_ans = (\<lambda>n h. True),
                GetForegroundWindow_ans = (\<lambda>n. 5),
                IsIconic_ans = (\<lambda>n h. False),
                GetWindowThreadProcessId_ans = (\<lambda>n h. 10 * h),
                GetCurrentThreadId_ans = 1,
                AttachThreadInput_ans = (\<lambda>n. True),
                SendInput_ans = (\<lambda>n. 4),
                GetAsyncKeyState_ans = (\<lambda>n vk. 0),
                CryptAcquireContext_ans = (\<lambda>n. True),
                CryptGenRandom_ans = (\<lambda>n. Some 0xFFFFFFFF),
                rand_ans = (\<lambda>n. 0)\<rparr>"

text \<open>The same desktop after the target window has been closed.\<close>

definition env_gone :: os_env where
  "env_gone = env_quiet\<lparr>IsWindow_ans := (\<lambda>n h. False)\<rparr>"

text \<open>\<^verbatim>\<open>SendInput\<close> accepts only two of the four events.\<close>

definition env_partial :: os_env where
  "env_partial = env_quiet\<lparr>SendInput_ans := (\<lambda>n. 2)\<rparr>"

text \<open>Window 7 has the focus; the target 5 is observed as foreground window once, by the
  fourth \<^verbatim>\<open>GetForegroundWindow\<close> call, and never again.\<close>

definition env_stolen :: os_env where
  "env_stolen = env_quiet\<lparr>GetForegroundWindow_ans := (\<lambda>n. if n = 3 then 5 else 7)\<rparr>"

text \<open>The user holds the Ctrl key, and no other key.\<close>

definition env_ctrl :: os_env where
  "env_ctrl = env_quiet\<lparr>GetAsyncKeyState_ans := (\<lambda>n vk. if vk = VK_CONTROL then 0x8000 else 0)\<rparr>"

text \<open>An Alt key is held at the first \<^verbatim>\<open>GetAsyncKeyState\<close> call only; the random source
  draws \<open>UINT_MAX\<close> first and \<open>0\<close> afterwards.\<close>

definition env_alt_once :: os_env where
  "env_alt_once = env_quiet
     \<lparr>GetAsyncKeyState_ans := (\<lambda>n vk. if n = 0 then 0x8000 else 0),
      CryptGenRandom_ans := (\<lambda>n. if n = 0 then Some 0xFFFFFFFF else Some 0)\<rparr>"

text \<open>The random source draws \<open>2\<^sup>3\<^sup>1\<close>.\<close>

definition env_half :: os_env where
  "env_half = env_quiet\<lparr>CryptGenRandom_ans := (\<lambda>n. Some 0x80000000)\<rparr>"

text \<open>
  \<^verbatim>\<open>atof\<close> on plain decimal notation (optional white space and sign, digits, an optional
  fraction); as in C, the result is \<open>0\<close> when no number can be read.
\<close>

definition is_digit :: "char \<Rightarrow> bool" where
  "is_digit c = (48 \<le> (of_char c :: nat) \<and> (of_char c :: nat) \<le> 57)"

fun digits_value :: "nat \<Rightarrow> string \<Rightarrow> nat" where
  "digits_value acc [] = acc"
| "digits_value acc (c # cs) =
     (if is_digit c then digits_value (10 * acc + (of_char c - 48)) cs else acc)"

fun fraction_value :: "string \<Rightarrow> real" where
  "fraction_value [] = 0"
| "fraction_value (c # cs) =
     (if is_digit c then (real (of_char c - 48) + fraction_value cs) / 10 else 0)"

definition atof_decimal :: "string \<Rightarrow> cdouble" where
  "atof_decimal s =
     (let s1 = dropWhile isspace s;
          negative = (case s1 of [] \<Rightarrow> False | c # cs \<Rightarrow> c = CHR ''-'');
          s2 = (case s1 of [] \<Rightarrow> [] | c # cs \<Rightarrow> if c = CHR ''-'' \<or> c = CHR ''+'' then cs else s1);
          r = dropWhile is_digit s2;
          fraction = (case r of [] \<Rightarrow> 0 | c # cs \<Rightarrow> if c = CHR ''.'' then fraction_value cs else 0);
          v = real (digits_value 0 s2) + fraction
      in Finite (if negative then - v else v))"

text \<open>Contents of \<^verbatim>\<open>options.config\<close>.\<close>

definition config_swapped :: string where
  "config_swapped = ''min_delay=10\<newline>max_delay=5\<newline>''"

definition config_unparseable :: string where
  "config_unparseable = ''max_delay = abc\<newline>min_delay = 3\<newline>''"

definition config_prior_value :: string where
  "config_prior_value = ''min_delay = 3\<newline>min_delay = 9999\<newline>max_delay = 5\<newline>''"

definition config_reject_then_swap :: string where
  "config_reject_then_swap = ''min_delay = 9999\<newline>max_delay = 1\<newline>''"

section \<open>Theorems\<close>

lemmas os_defs = emit_def LogDebug_def LogInfo_def LogWarning_def LogError_def printf_def
  WaitMilliseconds_def IsWindow_def GetForegroundWindow_def IsIconic_def
  GetWindowThreadProcessId_def AttachThreadInput_call_def SendInput_call_def GetAsyncKeyState_def

lemmas delay_defs = FOCUS_SWITCH_RETRY_DELAY_MS_def FOCUS_SETTLE_DELAY_MS_def
  ALT_KEY_CHECK_DELAY_MS_def POST_SENDINPUT_DELAY_MS_def

subsection \<open>Binary64 rounding\<close>

text \<open>
  Rounding is monotone, leaves every double unchanged (integers up to \<open>2\<^sup>5\<^sup>3\<close> among
  them), and the rounded sum of two doubles differs from the exact sum by at most the
  fraction \<open>2\<^sup>-\<^sup>5\<^sup>3\<close> of it.
\<close>

lemma round_half_even_bounds: "\<lfloor>t :: real\<rfloor> \<le> round_half_even t \<and> round_half_even t \<le> \<lfloor>t\<rfloor> + 1"
  by (simp add: round_half_even_def Let_def)

lemma round_half_even_of_int [simp]: "round_half_even (of_int n) = n"
  by (simp add: round_half_even_def)

lemma round_half_even_mono:
  assumes "t \<le> u"
  shows "round_half_even t \<le> round_half_even u"
proof (cases "\<lfloor>t\<rfloor> = \<lfloor>u\<rfloor>")
  case True
  with assms show ?thesis
    by (auto simp add: round_half_even_def Let_def)
next
  case False
  with assms have "\<lfloor>t\<rfloor> < \<lfloor>u\<rfloor>" using floor_mono [OF assms] by linarith
  then have "\<lfloor>t\<rfloor> + 1 \<le> \<lfloor>u\<rfloor>" by simp
  with round_half_even_bounds [of t] round_half_even_bounds [of u] show ?thesis by linarith
qed

lemma round_half_even_error: "\<bar>of_int (round_half_even t) - t\<bar> \<le> 1 / 2"
  unfolding round_half_even_def Let_def
  by (auto simp add: abs_le_iff)


lemma bitlen_mono: "a \<le> b \<Longrightarrow> bitlen a \<le> bitlen b"
  by (simp add: bitlen_def floorlog_mono)

lemma round_half_even_0 [simp]: "round_half_even 0 = 0"
  using round_half_even_of_int [of 0] by simp

lemma round53_scaled_less:
  assumes "0 \<le> (z::real)"
  shows "z / 2 ^ nat (bitlen \<lfloor>z\<rfloor> - 53) < 2 ^ 53"
proof -
  define k where "k = nat (bitlen \<lfloor>z\<rfloor> - 53)"
  have "bitlen \<lfloor>z\<rfloor> \<le> int (k + 53)" by (simp add: k_def)
  then have "\<lfloor>z\<rfloor> < 2 ^ nat (int (k + 53))"
    using bitlen_le_iff_power [of "\<lfloor>z\<rfloor>" "int (k + 53)"] by blast
  then have "\<lfloor>z\<rfloor> < 2 ^ (k + 53)" by (simp only: nat_int)
  then have "z < 2 ^ (k + 53)"
    by (metis floor_less_iff of_int_numeral of_int_power)
  then have "z < 2 ^ 53 * 2 ^ k" by (simp add: power_add mult.commute)
  then show ?thesis unfolding k_def [symmetric] by (simp add: divide_less_eq)
qed

lemma round53_scaled_ge:
  assumes "0 < nat (bitlen \<lfloor>z :: real\<rfloor> - 53)"
  shows "2 ^ 52 \<le> z / 2 ^ nat (bitlen \<lfloor>z\<rfloor> - 53)"
proof -
  define k where "k = nat (bitlen \<lfloor>z\<rfloor> - 53)"
  from assms have "int (k + 53) \<le> bitlen \<lfloor>z\<rfloor>" by (simp add: k_def)
  then have "int (k + 53) \<le> 0 \<or> 2 ^ (nat (int (k + 53)) - 1) \<le> \<lfloor>z\<rfloor>"
    using bitlen_ge_iff_power [of "int (k + 53)" "\<lfloor>z\<rfloor>"] by blast
  then have "2 ^ (nat (int (k + 53)) - 1) \<le> \<lfloor>z\<rfloor>" by linarith
  moreover have "nat (int (k + 53)) - 1 = k + 52" by simp
  ultimately have "(2::int) ^ (k + 52) \<le> \<lfloor>z\<rfloor>" by (simp only:)
  then have "(2::real) ^ (k + 52) \<le> z"
    by (metis le_floor_iff of_int_numeral of_int_power)
  then have "2 ^ 52 * 2 ^ k \<le> z" by (simp add: power_add mult.commute)
  then show ?thesis unfolding k_def [symmetric] by (simp add: le_divide_eq)
qed

lemma round53_mantissa:
  assumes "0 \<le> (z::real)"
  shows "0 \<le> round_half_even (z / 2 ^ nat (bitlen \<lfloor>z\<rfloor> - 53))"
    and "round_half_even (z / 2 ^ nat (bitlen \<lfloor>z\<rfloor> - 53)) \<le> 2 ^ 53"
    and "0 < nat (bitlen \<lfloor>z\<rfloor> - 53) \<Longrightarrow>
         2 ^ 52 \<le> round_half_even (z / 2 ^ nat (bitlen \<lfloor>z\<rfloor> - 53))"
proof -
  let ?k = "nat (bitlen \<lfloor>z\<rfloor> - 53)"
  have "0 \<le> z / 2 ^ ?k" using assms by simp
  from round_half_even_mono [OF this] show "0 \<le> round_half_even (z / 2 ^ ?k)"
    using round_half_even_of_int [of 0] by simp
  have "z / 2 ^ ?k \<le> 2 ^ 53" using round53_scaled_less [OF assms] by simp
  from round_half_even_mono [OF this] show "round_half_even (z / 2 ^ ?k) \<le> 2 ^ 53"
    using round_half_even_of_int [of "2 ^ 53"] by simp
  assume "0 < ?k"
  from round_half_even_mono [OF round53_scaled_ge [OF this]]
  show "2 ^ 52 \<le> round_half_even (z / 2 ^ ?k)"
    using round_half_even_of_int [of "2 ^ 52"] by simp
qed

lemma round53_nonneg: "0 \<le> z \<Longrightarrow> 0 \<le> round53 z"
  using round53_mantissa(1) [of z] by (simp add: round53_def Let_def)

lemma round53_mono:
  assumes "0 \<le> z" and "z \<le> z'"
  shows "round53 z \<le> round53 z'"
proof -
  let ?k = "nat (bitlen \<lfloor>z\<rfloor> - 53)" and ?k' = "nat (bitlen \<lfloor>z'\<rfloor> - 53)"
  have z': "0 \<le> z'" using assms by simp
  have "bitlen \<lfloor>z\<rfloor> \<le> bitlen \<lfloor>z'\<rfloor>"
    by (rule bitlen_mono) (rule floor_mono [OF assms(2)])
  then have "?k \<le> ?k'" by simp
  then consider "?k = ?k'" | "?k < ?k'" by linarith
  then show ?thesis
  proof cases
    case 1
    have "z / 2 ^ ?k \<le> z' / 2 ^ ?k" using assms(2) by (simp add: divide_right_mono)
    from round_half_even_mono [OF this] show ?thesis
      unfolding round53_def Let_def 1 [symmetric] by simp
  next
    case 2
    then have pos: "0 < ?k'" by simp
    have "round53 z \<le> 2 ^ 53 * 2 ^ ?k"
      unfolding round53_def Let_def
      using round53_mantissa(2) [OF assms(1)]
      by (intro mult_right_mono) (simp_all add: of_int_le_numeral_power_cancel_iff)
    also have "\<dots> = 2 ^ (?k + 53)" by (simp add: power_add)
    also have "\<dots> \<le> 2 ^ (?k' + 52)"
    proof -
      from 2 have "?k + 53 \<le> ?k' + 52" by linarith
      then show ?thesis by (rule power_increasing) simp
    qed
    also have "\<dots> = 2 ^ 52 * 2 ^ ?k'" by (simp add: power_add)
    also have "\<dots> \<le> round53 z'"
      unfolding round53_def Let_def
      using round53_mantissa(3) [OF z' pos]
      by (intro mult_right_mono) (simp_all add: numeral_power_le_of_int_cancel_iff)
    finally show ?thesis .
  qed
qed

lemma round53_fixed_aux:
  assumes "0 \<le> m" and "m < 2 ^ 53"
  shows "round53 (of_int m * 2 ^ j) = of_int m * 2 ^ j"
proof (cases "m = 0")
  case True
  then show ?thesis by (simp add: round53_def)
next
  case False
  with assms have m: "0 < m" by simp
  define z :: real where "z = of_int m * 2 ^ j"
  define k where "k = nat (bitlen \<lfloor>z\<rfloor> - 53)"
  have fl: "\<lfloor>z\<rfloor> = m * 2 ^ j"
    unfolding z_def by (metis floor_of_int of_int_mult of_int_numeral of_int_power)
  have "bitlen m \<le> 53" using assms(2) bitlen_le_iff_power [of m 53] by simp
  then have k: "k \<le> j" unfolding k_def fl using m by simp
  define q where "q = j - k"
  have p: "(2::real) ^ j = 2 ^ q * 2 ^ k"
    using k by (simp add: q_def flip: power_add)
  have "z / 2 ^ k = of_int (m * 2 ^ q)"
    by (simp add: z_def p)
  then have "round_half_even (z / 2 ^ k) = m * 2 ^ q"
    by (metis round_half_even_of_int)
  then have "round53 z = of_int (m * 2 ^ q) * 2 ^ k"
    by (simp add: round53_def Let_def k_def)
  also have "\<dots> = z" by (simp add: z_def p)
  finally show ?thesis by (simp add: z_def)
qed

lemma round53_fixed:
  assumes "0 \<le> m" and "m \<le> 2 ^ 53"
  shows "round53 (of_int m * 2 ^ j) = of_int m * 2 ^ j"
proof (cases "m = 2 ^ 53")
  case True
  have "round53 (of_int (2 ^ 52) * 2 ^ Suc j) = of_int (2 ^ 52) * 2 ^ Suc j"
    by (rule round53_fixed_aux) simp_all
  then show ?thesis by (simp add: True)
next
  case False
  with assms show ?thesis by (intro round53_fixed_aux) simp_all
qed

lemma round53_form:
  assumes "0 \<le> z"
  shows "\<exists>m j. 0 \<le> m \<and> m \<le> 2 ^ 53 \<and> round53 z = of_int m * 2 ^ j"
  using round53_mantissa(1,2) [OF assms] unfolding round53_def Let_def by blast

lemma round53_idem: "0 \<le> z \<Longrightarrow> round53 (round53 z) = round53 z"
  using round53_form [of z] round53_fixed by auto


lemma two_1074_pos [simp]: "0 < two_1074" "0 \<le> two_1074" "two_1074 \<noteq> 0"
  by (simp_all add: two_1074_def)

lemma round53_0 [simp]: "round53 0 = 0"
  by (simp add: round53_def)

lemma binary64_0 [simp]: "binary64 0 = 0"
  by (simp add: binary64_def)

lemma binary64_minus: "binary64 (- x) = - binary64 x"
  by (simp add: binary64_def sgn_minus)

lemma binary64_pos: "0 \<le> x \<Longrightarrow> binary64 x = round53 (x * two_1074) / two_1074"
  by (cases "x = 0") (simp_all add: binary64_def)

lemma binary64_nonneg: "0 \<le> x \<Longrightarrow> 0 \<le> binary64 x"
  using round53_nonneg [of "x * two_1074"] by (simp add: binary64_pos)

lemma binary64_mono_pos:
  assumes "0 \<le> x" and "x \<le> y"
  shows "binary64 x \<le> binary64 y"
proof -
  have "round53 (x * two_1074) \<le> round53 (y * two_1074)"
    using assms by (intro round53_mono) simp_all
  then show ?thesis
    using assms by (simp add: binary64_pos divide_right_mono)
qed

lemma binary64_mono:
  assumes "x \<le> y"
  shows "binary64 x \<le> binary64 y"
proof -
  consider "0 \<le> x" | "x < 0" "0 \<le> y" | "x < 0" "y < 0" by linarith
  then show ?thesis
  proof cases
    case 1
    then show ?thesis using assms by (rule binary64_mono_pos)
  next
    case 2
    have "binary64 x = - binary64 (- x)" by (simp add: binary64_minus)
    moreover have "0 \<le> binary64 (- x)" using 2 by (intro binary64_nonneg) simp
    moreover have "0 \<le> binary64 y" using 2 by (intro binary64_nonneg)
    ultimately show ?thesis by linarith
  next
    case 3
    have "binary64 (- y) \<le> binary64 (- x)"
      using 3 assms by (intro binary64_mono_pos) simp_all
    then show ?thesis by (simp add: binary64_minus)
  qed
qed

lemma binary64_fixed_pos:
  assumes "0 \<le> m" and "m \<le> 2 ^ 53"
  shows "binary64 (of_int m * 2 ^ j / two_1074) = of_int m * 2 ^ j / two_1074"
proof -
  have "0 \<le> (of_int m * 2 ^ j / two_1074 :: real)" using assms by simp
  then show ?thesis
    using round53_fixed [OF assms, of j] by (simp add: binary64_pos)
qed

lemma binary64_idem_pos:
  assumes "0 \<le> x"
  shows "binary64 (binary64 x) = binary64 x"
proof -
  obtain m j where "0 \<le> m" "m \<le> 2 ^ 53" "round53 (x * two_1074) = of_int m * 2 ^ j"
    using round53_form [of "x * two_1074"] assms by auto
  then show ?thesis
    using binary64_fixed_pos [of m j] by (simp add: binary64_pos [OF assms])
qed

lemma binary64_idem [simp]: "binary64 (binary64 x) = binary64 x"
proof (cases "0 \<le> x")
  case True
  then show ?thesis by (rule binary64_idem_pos)
next
  case False
  then have "binary64 (binary64 (- x)) = binary64 (- x)"
    by (intro binary64_idem_pos) simp
  then show ?thesis by (simp add: binary64_minus)
qed

lemma is_double_binary64 [simp]: "is_double (binary64 x)"
  by (simp add: is_double_def)

lemma binary64_of_int:
  assumes "\<bar>n\<bar> \<le> 2 ^ 53"
  shows "binary64 (of_int n) = of_int n"
proof -
  have p: "binary64 (of_int m) = of_int m" if "0 \<le> m" "m \<le> 2 ^ 53" for m
    using binary64_fixed_pos [OF that, of 1074] by (simp add: two_1074_def)
  show ?thesis
  proof (cases "0 \<le> n")
    case True
    with assms show ?thesis by (intro p) simp_all
  next
    case False
    with assms have "binary64 (of_int (- n)) = of_int (- n)" by (intro p) simp_all
    then show ?thesis by (simp add: binary64_minus)
  qed
qed

lemma binary64_numeral [simp]:
  "numeral w \<le> (2 ^ 53 :: int) \<Longrightarrow> binary64 (numeral w) = numeral w"
  using binary64_of_int [of "numeral w"] by simp

lemma binary64_1 [simp]: "binary64 1 = 1"
  using binary64_of_int [of 1] by simp

text \<open>A double is a multiple of \<open>2\<^sup>-\<^sup>1\<^sup>0\<^sup>7\<^sup>4\<close>.\<close>

lemma is_double_multiple:
  assumes "is_double x"
  shows "\<exists>i::int. x * two_1074 = of_int i"
proof -
  have pos: "\<exists>i::int. binary64 y * two_1074 = of_int i" if "0 \<le> y" for y
  proof -
    have "0 \<le> y * two_1074" using that by simp
    from round53_form [OF this]
    obtain m j where "round53 (y * two_1074) = of_int m * 2 ^ j" by blast
    then have "binary64 y * two_1074 = of_int (m * 2 ^ j)"
      by (simp add: binary64_pos [OF that])
    then show ?thesis by blast
  qed
  show ?thesis
  proof (cases "0 \<le> x")
    case True
    from pos [OF this] assms show ?thesis by (simp add: is_double_def)
  next
    case False
    then have "0 \<le> - x" by simp
    from pos [OF this] obtain i where "binary64 (- x) * two_1074 = of_int i" by blast
    then have "x * two_1074 = of_int (- i)"
      using assms by (simp add: is_double_def binary64_minus)
    then show ?thesis by blast
  qed
qed


lemma round53_rel_error:
  assumes "0 \<le> z" and "z = of_int i"
  shows "\<bar>round53 z - z\<bar> \<le> z / 2 ^ 53"
proof -
  define k where "k = nat (bitlen \<lfloor>z\<rfloor> - 53)"
  show ?thesis
  proof (cases "k = 0")
    case True
    have "round53 z = of_int (round_half_even (z / 2 ^ k)) * 2 ^ k"
      by (simp add: round53_def Let_def k_def)
    also have "\<dots> = of_int (round_half_even (of_int i))"
      using True assms(2) by simp
    finally have "round53 z = z" using assms(2) by simp
    then show ?thesis using assms(1) by simp
  next
    case False
    then have pos: "0 < nat (bitlen \<lfloor>z\<rfloor> - 53)" by (simp add: k_def)
    have ge: "2 ^ 52 \<le> z / 2 ^ k"
      using round53_scaled_ge [OF pos] by (simp add: k_def)
    have "\<bar>of_int (round_half_even (z / 2 ^ k)) - z / 2 ^ k\<bar> \<le> 1 / 2"
      by (rule round_half_even_error)
    then have "\<bar>of_int (round_half_even (z / 2 ^ k)) - z / 2 ^ k\<bar> * 2 ^ k \<le> 1 / 2 * 2 ^ k"
      by (intro mult_right_mono) simp_all
    moreover have "\<bar>of_int (round_half_even (z / 2 ^ k)) - z / 2 ^ k\<bar> * 2 ^ k =
        \<bar>round53 z - z\<bar>"
    proof -
      have "\<bar>of_int (round_half_even (z / 2 ^ k)) - z / 2 ^ k\<bar> * 2 ^ k =
            \<bar>(of_int (round_half_even (z / 2 ^ k)) - z / 2 ^ k) * 2 ^ k\<bar>"
        by (simp add: abs_mult)
      also have "(of_int (round_half_even (z / 2 ^ k)) - z / 2 ^ k) * 2 ^ k = round53 z - z"
        by (simp add: round53_def Let_def k_def [symmetric] algebra_simps)
      finally show ?thesis .
    qed
    ultimately have e: "\<bar>round53 z - z\<bar> \<le> 2 ^ k / 2" by simp
    have "2 ^ 52 * 2 ^ k \<le> z" using ge by (simp add: le_divide_eq)
    then have "2 ^ k / 2 \<le> z / 2 ^ 53" by simp
    with e show ?thesis by linarith
  qed
qed

lemma binary64_rel_error:
  assumes "0 \<le> x" and "x * two_1074 = of_int i"
  shows "\<bar>binary64 x - x\<bar> \<le> x / 2 ^ 53"
proof -
  define z where "z = x * two_1074"
  have z: "0 \<le> z" "z = of_int i"
  proof -
    show "0 \<le> z" unfolding z_def using assms(1) by (intro mult_nonneg_nonneg) simp_all
    show "z = of_int i" unfolding z_def by (rule assms(2))
  qed
  have x: "x = z / two_1074" by (simp add: z_def)
  have "binary64 x - x = (round53 z - z) / two_1074"
    unfolding binary64_pos [OF assms(1)] by (simp add: z_def diff_divide_distrib)
  then have "\<bar>binary64 x - x\<bar> = \<bar>(round53 z - z) / two_1074\<bar>"
    by simp
  also have "\<dots> = \<bar>round53 z - z\<bar> / two_1074" by simp
  also have "\<dots> \<le> (z / 2 ^ 53) / two_1074"
    using round53_rel_error [OF z] by (intro divide_right_mono) simp_all
  also have "\<dots> = x / 2 ^ 53" unfolding x by simp
  finally show ?thesis .
qed

lemma binary64_add_le:
  assumes "is_double a" and "is_double b" and "0 \<le> a + b"
  shows "binary64 (a + b) \<le> (a + b) * (1 + 1 / 2 ^ 53)"
proof -
  obtain i j :: int where "a * two_1074 = of_int i" "b * two_1074 = of_int j"
    using is_double_multiple assms(1,2) by blast
  then have "(a + b) * two_1074 = of_int (i + j)" by (simp add: distrib_right)
  from binary64_rel_error [OF assms(3) this]
  have "binary64 (a + b) - (a + b) \<le> (a + b) / 2 ^ 53" by linarith
  then show ?thesis by (simp add: algebra_simps)
qed

lemma is_double_minus: "is_double a \<Longrightarrow> is_double (- a)"
  by (simp add: is_double_def binary64_minus)

lemma binary64_eval:
  assumes "2 ^ (k + 52) \<le> x * two_1074" and "x * two_1074 < 2 ^ (k + 53)" and "0 < x"
  shows "binary64 x = of_int (round_half_even (x * two_1074 / 2 ^ k)) * 2 ^ k / two_1074"
proof -
  define z where "z = x * two_1074"
  have e: "nat (int (k + 53)) - 1 = k + 52" by simp
  have e': "nat (int (k + 53)) = k + 53" by simp
  have "(2::int) ^ (k + 52) \<le> \<lfloor>z\<rfloor>"
    using assms(1) unfolding z_def [symmetric]
    by (metis le_floor_iff of_int_numeral of_int_power)
  then have "int (k + 53) \<le> 0 \<or> 2 ^ (nat (int (k + 53)) - 1) \<le> \<lfloor>z\<rfloor>"
    unfolding e by blast
  then have 1: "int (k + 53) \<le> bitlen \<lfloor>z\<rfloor>"
    using bitlen_ge_iff_power [of "int (k + 53)" "\<lfloor>z\<rfloor>"] by blast
  have "\<lfloor>z\<rfloor> < 2 ^ (k + 53)"
    using assms(2) unfolding z_def [symmetric]
    by (metis floor_less_iff of_int_numeral of_int_power)
  then have "0 \<le> int (k + 53) \<and> \<lfloor>z\<rfloor> < 2 ^ nat (int (k + 53))"
    unfolding e' by simp
  then have 2: "bitlen \<lfloor>z\<rfloor> \<le> int (k + 53)"
    using bitlen_le_iff_power [of "\<lfloor>z\<rfloor>" "int (k + 53)"] by blast
  from 1 2 have "nat (bitlen \<lfloor>z\<rfloor> - 53) = k" by simp
  then show ?thesis
    unfolding binary64_pos [OF less_imp_le [OF assms(3)]] z_def [symmetric]
    by (simp add: round53_def Let_def)
qed

lemma binary64_three_tenths: "binary64 (3 / 10) = 5404319552844595 / 2 ^ 54"
  by (subst binary64_eval [of 1020]) (simp_all add: round_half_even_def two_1074_def)

lemma binary64_nine_tenths: "binary64 (9 / 10) = 8106479329266893 / 2 ^ 53"
  by (subst binary64_eval [of 1021]) (simp_all add: round_half_even_def two_1074_def)

subsection \<open>Traces of the functions\<close>

lemma new_events_append: "trace st' = trace st @ evs \<Longrightarrow> new_events st st' = evs"
  by (simp add: new_events_def)

lemma attach_target_eq:
  "attach_target env c t st =
     (t \<noteq> 0 \<and> t \<noteq> c \<and> AttachThreadInput_ans env (n_AttachThreadInput st),
      st\<lparr>n_AttachThreadInput := (if t \<noteq> 0 \<and> t \<noteq> c then Suc (n_AttachThreadInput st)
                                   else n_AttachThreadInput st),
         trace := trace st @
           (if t \<noteq> 0 \<and> t \<noteq> c then
              if AttachThreadInput_ans env (n_AttachThreadInput st)
              then [AttachThreadInput c t True True]
              else [AttachThreadInput c t True False,
                    LogLine WARNING ''ActivateWindow: Failed to attach to target thread %lu. Error: %lu'']
            else [])\<rparr>)"
  by (simp add: attach_target_def os_defs Let_def)

lemma attach_original_eq:
  "attach_original env c ho t tt st =
     (ho \<noteq> 0 \<and> t \<noteq> 0 \<and> t \<noteq> c \<and> t \<noteq> tt \<and> AttachThreadInput_ans env (n_AttachThreadInput st),
      st\<lparr>n_AttachThreadInput := (if ho \<noteq> 0 \<and> t \<noteq> 0 \<and> t \<noteq> c \<and> t \<noteq> tt
                                   then Suc (n_AttachThreadInput st) else n_AttachThreadInput st),
         trace := trace st @
           (if ho \<noteq> 0 \<and> t \<noteq> 0 \<and> t \<noteq> c \<and> t \<noteq> tt then
              if AttachThreadInput_ans env (n_AttachThreadInput st)
              then [AttachThreadInput c t True True]
              else [AttachThreadInput c t True False,
                    LogLine WARNING ''ActivateWindow: Failed to attach to original FG thread %lu. Error: %lu'']
            else [])\<rparr>)"
  by (simp add: attach_original_def os_defs Let_def)

lemma restore_if_iconic_eq:
  "restore_if_iconic env h st =
     st\<lparr>n_IsIconic := Suc (n_IsIconic st),
        trace := trace st @
          (if IsIconic_ans env (n_IsIconic st) h then
             [LogLine DEBUG ''ActivateWindow: Target %p is iconic, restoring.'',
              ShowWindow_RESTORE h, Sleep 100]
           else [])\<rparr>"
  by (simp add: restore_if_iconic_def os_defs Let_def delay_defs)

lemma AttachThreadInput_when_eq:
  "AttachThreadInput_when env a c t f st =
     st\<lparr>n_AttachThreadInput := (if a then Suc (n_AttachThreadInput st) else n_AttachThreadInput st),
        trace := trace st @
          (if a then [AttachThreadInput c t f (AttachThreadInput_ans env (n_AttachThreadInput st))]
           else [])\<rparr>"
  by (simp add: AttachThreadInput_when_def os_defs Let_def)

lemma ShowWindow_when_iconic_eq:
  "ShowWindow_when_iconic env h st =
     st\<lparr>n_IsIconic := Suc (n_IsIconic st),
        trace := trace st @ (if IsIconic_ans env (n_IsIconic st) h then [ShowWindow_RESTORE h] else [])\<rparr>"
  by (simp add: ShowWindow_when_iconic_def os_defs Let_def)

lemma WaitMilliseconds_eq:
  "WaitMilliseconds ms st = st\<lparr>trace := trace st @ (if ms > 0 then [Sleep ms] else [])\<rparr>"
  by (simp add: WaitMilliseconds_def emit_def)

lemma joined_append: "joined (xs @ ys) = joined xs @ joined ys"
  by (induction xs rule: joined.induct) simp_all

lemma refused_append: "refused (xs @ ys) = refused xs @ refused ys"
  by (induction xs rule: refused.induct) simp_all

lemma detached_append: "detached (xs @ ys) = detached xs @ detached ys"
  by (induction xs rule: detached.induct) simp_all

lemma attach_flags_append: "attach_flags (xs @ ys) = attach_flags xs @ attach_flags ys"
  by (induction xs rule: attach_flags.induct) simp_all

lemma quiet_no_attach:
  "list_all quiet xs \<Longrightarrow> joined xs = [] \<and> refused xs = [] \<and> detached xs = [] \<and> attach_flags xs = []"
  by (induction xs rule: attach_flags.induct) (simp_all add: quiet_def)

lemmas attach_appends = joined_append refused_append detached_append attach_flags_append

lemma focus_loop_0:
  "focus_loop env h 0 st =
     (fst (focus_loop_outcome env h (n_GetForegroundWindow st)),
      st\<lparr>n_GetForegroundWindow := fst (snd (focus_loop_outcome env h (n_GetForegroundWindow st))),
         trace := trace st @ snd (snd (focus_loop_outcome env h (n_GetForegroundWindow st)))\<rparr>)"
  by (simp add: focus_loop.simps FOCUS_SWITCH_ATTEMPTS_def focus_loop_outcome_def
      focus_attempt_ok_def focus_attempt_failed_def os_defs Let_def delay_defs eval_nat_numeral)

lemma focus_loop_outcome_quiet: "list_all quiet (snd (snd (focus_loop_outcome env h k)))"
  by (simp add: focus_loop_outcome_def focus_attempt_ok_def focus_attempt_failed_def quiet_def)

lemma verify_hold_eq2:
  "verify_hold env h f st =
     (fst (verify_hold_outcome env h f (n_GetForegroundWindow st)),
      st\<lparr>n_GetForegroundWindow := fst (snd (verify_hold_outcome env h f (n_GetForegroundWindow st))),
         trace := trace st @ snd (snd (verify_hold_outcome env h f (n_GetForegroundWindow st)))\<rparr>)"
  by (simp add: verify_hold_def verify_hold_outcome_def os_defs Let_def delay_defs)

lemma verify_hold_outcome_quiet: "list_all quiet (snd (snd (verify_hold_outcome env h f k)))"
  by (simp add: verify_hold_outcome_def quiet_def)

lemmas quiet_blocks2 =
  quiet_no_attach [OF focus_loop_outcome_quiet] quiet_no_attach [OF verify_hold_outcome_quiet]

lemma Activate_eq:
  assumes "orig \<noteq> h"
  shows "ActivateWindowAndEnsureFocus env h orig st =
    (let c = GetCurrentThreadId_ans env;
         tT = GetWindowThreadProcessId_ans env (n_GetWindowThreadProcessId st) h;
         tO = GetWindowThreadProcessId_ans env (Suc (n_GetWindowThreadProcessId st)) orig;
         tryT = (tT \<noteq> 0 \<and> tT \<noteq> c);
         okT = AttachThreadInput_ans env (n_AttachThreadInput st);
         n1 = (if tryT then Suc (n_AttachThreadInput st) else n_AttachThreadInput st);
         tryO = (orig \<noteq> 0 \<and> tO \<noteq> 0 \<and> tO \<noteq> c \<and> tO \<noteq> tT);
         okO = AttachThreadInput_ans env n1;
         n2 = (if tryO then Suc n1 else n1);
         n3 = (if tryO \<and> okO then Suc n2 else n2);
         n4 = (if tryT \<and> okT then Suc n3 else n3);
         iconic = (if IsIconic_ans env (n_IsIconic st) h then
             [LogLine DEBUG ''ActivateWindow: Target %p is iconic, restoring.'',
              ShowWindow_RESTORE h, Sleep FOCUS_SWITCH_RETRY_DELAY_MS]
           else []);
         FL = focus_loop_outcome env h (n_GetForegroundWindow st);
         VH = verify_hold_outcome env h (fst FL) (fst (snd FL))
     in (fst VH,
         st\<lparr>n_GetWindowThreadProcessId := Suc (Suc (n_GetWindowThreadProcessId st)),
            n_AttachThreadInput := n4,
            n_IsIconic := Suc (n_IsIconic st),
            n_GetForegroundWindow := fst (snd VH),
            trace := trace st @
              activation_events c tT tO tryT okT tryO okO
                (iconic @ snd (snd FL) @ snd (snd VH))
                (AttachThreadInput_ans env n2) (AttachThreadInput_ans env n3)\<rparr>))"
  using assms
  apply (simp add: ActivateWindowAndEnsureFocus_def Let_def activation_events_def
      attach_target_eq attach_original_eq restore_if_iconic_eq focus_loop_0 verify_hold_eq2 AttachThreadInput_when_eq
      LogDebug_def emit_def GetWindowThreadProcessId_def delay_defs split del: if_split cong: if_cong)
  done

lemma attach_balance:
  assumes "list_all quiet middle" and "tryO \<longrightarrow> tO \<noteq> tT"
  shows "let evs = activation_events c tT tO tryT okT tryO okO middle rO rT in
     detached evs = rev (joined evs) \<and> distinct (joined evs) \<and> length (joined evs) \<le> 2 \<and>
     set (refused evs) \<inter> set (detached evs) = {} \<and>
     attach_flags evs = replicate (length (joined evs) + length (refused evs)) True @
                        replicate (length (detached evs)) False"
  using assms(2) quiet_no_attach [OF assms(1)]
  by (cases tryT; cases okT; cases tryO; cases okO)
     (simp_all add: activation_events_def attach_appends Let_def)

lemma quiet_no_send: "list_all quiet xs \<Longrightarrow> filter is_SendInput xs = []"
  by (induction xs) (simp_all add: quiet_def)

lemma activation_events_no_send:
  "filter is_SendInput middle = [] \<Longrightarrow>
   filter is_SendInput (activation_events c tT tO tryT okT tryO okO middle rO rT) = []"
  by (simp add: activation_events_def)

lemma Activate_events_shape:
  assumes "orig \<noteq> h"
  shows "\<exists>c tT tO tryT okT tryO okO middle rO rT.
     new_events st (snd (ActivateWindowAndEnsureFocus env h orig st)) =
       activation_events c tT tO tryT okT tryO okO middle rO rT \<and>
     list_all quiet middle \<and> (tryO \<longrightarrow> tO \<noteq> tT)"
  apply (simp add: Activate_eq [OF assms] Let_def new_events_def split del: if_split cong: if_cong)
  apply (intro exI conjI)
    apply (rule refl)
   apply (simp add: focus_loop_outcome_quiet verify_hold_outcome_quiet quiet_def)
  apply simp
  done

text \<open>
  C4: in every run of \<^verbatim>\<open>ActivateWindowAndEnsureFocus\<close> the thread-input calls are
  balanced. Among the events the call adds to the trace, the threads unjoined are exactly
  the threads joined successfully, each once, in the reverse order; at most two joins
  succeed; no thread whose join was refused is unjoined; and every join call comes before
  every unjoin call. This holds for every answer of the operating system, hence for both
  results of the function.
\<close>

theorem C4_attach_detach_balanced:
  "let evs = new_events st (snd (ActivateWindowAndEnsureFocus env h orig st)) in
     detached evs = rev (joined evs) \<and> distinct (joined evs) \<and> length (joined evs) \<le> 2 \<and>
     set (refused evs) \<inter> set (detached evs) = {} \<and>
     attach_flags evs = replicate (length (joined evs) + length (refused evs)) True @
                        replicate (length (detached evs)) False"
proof (cases "orig = h")
  case True
  then show ?thesis
    by (simp add: ActivateWindowAndEnsureFocus_def new_events_def os_defs)
next
  case False
  from Activate_events_shape [OF False, of st env]
  obtain c tT tO tryT okT tryO okO middle rO rT where
    ev: "new_events st (snd (ActivateWindowAndEnsureFocus env h orig st)) =
           activation_events c tT tO tryT okT tryO okO middle rO rT"
    and q: "list_all quiet middle" and d: "tryO \<longrightarrow> tO \<noteq> tT"
    by blast
  show ?thesis unfolding ev by (rule attach_balance [OF q d])
qed

text \<open>
  The same, at a concrete input: target 5 (thread 50) is activated while window 7
  (thread 70) has the focus; both joins succeed and are undone in reverse order.
\<close>

theorem C4_witness:
  "(let evs = new_events st0 (snd (ActivateWindowAndEnsureFocus env_quiet 5 7 st0)) in
     detached evs = rev (joined evs) \<and> distinct (joined evs) \<and> length (joined evs) \<le> 2 \<and>
     set (refused evs) \<inter> set (detached evs) = {} \<and>
     attach_flags evs = replicate (length (joined evs) + length (refused evs)) True @
                        replicate (length (detached evs)) False) \<and>
   joined (new_events st0 (snd (ActivateWindowAndEnsureFocus env_quiet 5 7 st0))) = [50, 70] \<and>
   detached (new_events st0 (snd (ActivateWindowAndEnsureFocus env_quiet 5 7 st0))) = [70, 50]"
proof -
  have "joined (new_events st0 (snd (ActivateWindowAndEnsureFocus env_quiet 5 7 st0))) = [50, 70] \<and>
    detached (new_events st0 (snd (ActivateWindowAndEnsureFocus env_quiet 5 7 st0))) = [70, 50]"
    by (simp add: Activate_eq Let_def new_events_def st0_def env_quiet_def activation_events_def
        focus_loop_outcome_def verify_hold_outcome_def focus_attempt_ok_def attach_appends)
  then show ?thesis
    using C4_attach_detach_balanced [of st0 env_quiet 5 7] by blast
qed

text \<open>
  C10: when the target handle is no longer a window, \<^verbatim>\<open>SendCtrlF5Keystroke\<close> returns at
  once. The state after the call is the state before it, except that \<^verbatim>\<open>IsWindow\<close> has
  been asked once and that a warning has been logged and printed: no key event, no
  thread-input call, no \<^verbatim>\<open>SetForegroundWindow\<close> and no \<^verbatim>\<open>ShowWindow\<close>.
\<close>

theorem C10_dead_target_no_effect:
  assumes "\<not> IsWindow_ans env (n_IsWindow st) h"
  shows "SendCtrlF5Keystroke env h st =
     st\<lparr>n_IsWindow := Suc (n_IsWindow st),
        trace := trace st @
          [LogLine WARNING ''SendCtrlF5: Target HWND %p is invalid. Skipping.'',
           Printf ''Warning: The target window seems to be closed. Keystroke not sent.'']\<rparr> \<and>
     filter (\<lambda>e. is_SendInput e \<or> is_AttachThreadInput e \<or> is_SetForegroundWindow e \<or>
                  is_ShowWindow e)
       (new_events st (SendCtrlF5Keystroke env h st)) = []"
  using assms by (simp add: SendCtrlF5Keystroke_def os_defs new_events_def)

theorem C10_witness:
  "\<not> IsWindow_ans env_gone (n_IsWindow st0) 5 \<and>
   SendCtrlF5Keystroke env_gone 5 st0 =
     st0\<lparr>n_IsWindow := Suc (n_IsWindow st0),
        trace := trace st0 @
          [LogLine WARNING ''SendCtrlF5: Target HWND %p is invalid. Skipping.'',
           Printf ''Warning: The target window seems to be closed. Keystroke not sent.'']\<rparr> \<and>
     filter (\<lambda>e. is_SendInput e \<or> is_AttachThreadInput e \<or> is_SetForegroundWindow e \<or>
                  is_ShowWindow e)
       (new_events st0 (SendCtrlF5Keystroke env_gone 5 st0)) = []"
proof -
  have h: "\<not> IsWindow_ans env_gone (n_IsWindow st0) 5" by (simp add: env_gone_def)
  show ?thesis using h C10_dead_target_no_effect [OF h] by blast
qed

lemma growsD:
  assumes "grows st st'"
  shows "trace st' = trace st @ new_events st st'" and "filter is_SendInput (new_events st st') = []"
proof -
  from assms have t: "take (length (trace st)) (trace st') = trace st" by (simp add: grows_def)
  show "trace st' = trace st @ new_events st st'"
    by (metis t append_take_drop_id new_events_def)
  show "filter is_SendInput (new_events st st') = []" using assms by (simp add: grows_def)
qed

lemma final_iconic_check_eq:
  "final_iconic_check env h st =
     (IsIconic_ans env (n_IsIconic st) h \<longrightarrow> GetForegroundWindow_ans env (n_GetForegroundWindow st) = h,
      st\<lparr>n_IsIconic := Suc (n_IsIconic st),
         n_GetForegroundWindow :=
           (if IsIconic_ans env (n_IsIconic st) h then Suc (n_GetForegroundWindow st)
            else n_GetForegroundWindow st),
         trace := trace st @
           (if IsIconic_ans env (n_IsIconic st) h then
              [LogLine DEBUG ''SendCtrlF5: Target %p became iconic before SendInput. Restoring.'',
               ShowWindow_RESTORE h, Sleep FOCUS_SWITCH_RETRY_DELAY_MS] @
              (if GetForegroundWindow_ans env (n_GetForegroundWindow st) \<noteq> h then
                 [LogLine WARNING
                    ''SendCtrlF5: Failed to keep target %p foreground after restore. Skipping SendInput.'']
               else [])
            else [])\<rparr>)"
  by (simp add: final_iconic_check_def os_defs Let_def delay_defs)

lemma inject_ctrl_f5_eq:
  "inject_ctrl_f5 env st =
     st\<lparr>n_SendInput := Suc (n_SendInput st),
        trace := trace st @
          [SendInput ctrl_f5_inputs (SendInput_ans env (n_SendInput st)),
           if SendInput_ans env (n_SendInput st) \<noteq> 4
           then LogLine ERROR ''SendCtrlF5 (SendInput): Failed. Sent %u of 4. Error: %lu''
           else LogLine DEBUG ''SendCtrlF5 (SendInput): Sent Ctrl+F5 to HWND %p.'']\<rparr>"
  by (simp add: inject_ctrl_f5_def os_defs Let_def)

lemmas if_push = if_distrib [where f = "filter is_SendInput"]

lemma Restore_grows: "grows st (RestoreOriginalFocus env orig h b st)"
  apply (simp add: RestoreOriginalFocus_def AttachThreadInput_when_eq
      ShowWindow_when_iconic_eq if_distrib [where f = "grows st"]
      emit_def LogDebug_def LogWarning_def WaitMilliseconds_def IsWindow_def
      GetForegroundWindow_def GetWindowThreadProcessId_def Let_def delay_defs
      split del: if_split cong: if_cong)
  apply (simp add: grows_def new_events_def if_push split del: if_split cong: if_cong)
  done

lemma inject_if_focused_eq:
  "inject_if_focused env h b st =
     (fst (inject_outcome env h b (n_IsIconic st) (n_GetForegroundWindow st) (n_SendInput st)),
      st\<lparr>n_IsIconic := (if b then Suc (n_IsIconic st) else n_IsIconic st),
         n_GetForegroundWindow :=
           (if b \<and> IsIconic_ans env (n_IsIconic st) h then Suc (n_GetForegroundWindow st)
            else n_GetForegroundWindow st),
         n_SendInput :=
           (if fst (inject_outcome env h b (n_IsIconic st) (n_GetForegroundWindow st) (n_SendInput st))
            then Suc (n_SendInput st) else n_SendInput st),
         trace := trace st @
           snd (inject_outcome env h b (n_IsIconic st) (n_GetForegroundWindow st) (n_SendInput st))\<rparr>)"
  by (simp add: inject_if_focused_def final_iconic_check_eq inject_ctrl_f5_eq inject_outcome_def
      injection_events_def printf_def emit_def)

lemma inject_outcome_sends:
  "filter is_SendInput (snd (inject_outcome env h b kI kF kS)) =
     (if fst (inject_outcome env h b kI kF kS)
      then [SendInput ctrl_f5_inputs (SendInput_ans env kS)] else [])"
  by (simp add: inject_outcome_def injection_events_def)

lemma inject_outcome_focused: "fst (inject_outcome env h b kI kF kS) \<Longrightarrow> b"
  by (simp add: inject_outcome_def split: if_splits)

lemma inject_outcome_log:
  "fst (inject_outcome env h b kI kF kS) \<Longrightarrow>
   (if SendInput_ans env kS \<noteq> 4
    then LogLine ERROR ''SendCtrlF5 (SendInput): Failed. Sent %u of 4. Error: %lu''
    else LogLine DEBUG ''SendCtrlF5 (SendInput): Sent Ctrl+F5 to HWND %p.'')
     \<in> set (snd (inject_outcome env h b kI kF kS))"
  by (simp add: inject_outcome_def injection_events_def split: if_splits)


lemma Activate_grows:
  "grows st (snd (ActivateWindowAndEnsureFocus env h orig st)) \<and>
   n_SendInput (snd (ActivateWindowAndEnsureFocus env h orig st)) = n_SendInput st"
proof (cases "orig = h")
  case True
  then show ?thesis
    by (simp add: ActivateWindowAndEnsureFocus_def os_defs grows_def new_events_def)
next
  case False
  show ?thesis
    by (simp add: Activate_eq [OF False] Let_def grows_def new_events_def
        activation_events_no_send quiet_no_send focus_loop_outcome_quiet verify_hold_outcome_quiet
        if_distrib [where f = "filter is_SendInput"]
        split del: if_split cong: if_cong)
qed

lemma inject_outcome_split:
  "\<exists>p. snd (inject_outcome env h b kI kF kS) =
          p @ (if fst (inject_outcome env h b kI kF kS) then injection_events env kS else []) \<and>
        filter is_SendInput p = []"
proof (cases "fst (inject_outcome env h b kI kF kS)")
  case False
  then show ?thesis
    by (intro exI [of _ "snd (inject_outcome env h b kI kF kS)"])
       (simp add: inject_outcome_def split: if_splits)
next
  case True
  show ?thesis
  proof (cases "IsIconic_ans env kI h")
    case False
    with True show ?thesis
      by (intro exI [of _ "[]"]) (simp add: inject_outcome_def split: if_splits)
  next
    case i: True
    with True show ?thesis
      by (intro exI [of _ "[LogLine DEBUG ''SendCtrlF5: Target %p became iconic before SendInput. Restoring.'',
              ShowWindow_RESTORE h, Sleep FOCUS_SWITCH_RETRY_DELAY_MS]"])
         (simp add: inject_outcome_def split: if_splits)
  qed
qed

lemma SendCtrlF5_events:
  assumes alive: "IsWindow_ans env (n_IsWindow st) h"
  shows "\<exists>pre post F.
     trace (SendCtrlF5Keystroke env h st) =
       trace st @ pre @ (if F then injection_events env (n_SendInput st) else []) @ post \<and>
     filter is_SendInput pre = [] \<and> filter is_SendInput post = [] \<and>
     (F \<longrightarrow> GetForegroundWindow_ans env (n_GetForegroundWindow st) = h \<or>
        fst (ActivateWindowAndEnsureFocus env h
               (GetForegroundWindow_ans env (n_GetForegroundWindow st))
               (st\<lparr>n_IsWindow := Suc (n_IsWindow st),
                   n_GetForegroundWindow := Suc (n_GetForegroundWindow st)\<rparr>)))"
proof -
  define orig where "orig = GetForegroundWindow_ans env (n_GetForegroundWindow st)"
  define st2 where "st2 = st\<lparr>n_IsWindow := Suc (n_IsWindow st),
                   n_GetForegroundWindow := Suc (n_GetForegroundWindow st)\<rparr>"
  define b where "b = (if orig = h then True else fst (ActivateWindowAndEnsureFocus env h orig st2))"
  define st3 where "st3 = (if orig = h then
       LogDebug ''SendCtrlF5: Target window %p is already foreground.'' st2
     else snd (ActivateWindowAndEnsureFocus env h orig st2))"
  define F where "F = fst (inject_if_focused env h b st3)"
  define st4 where "st4 = snd (inject_if_focused env h b st3)"
  define st' where "st' = (if orig = h then st4 else RestoreOriginalFocus env orig h F st4)"
  have e: "SendCtrlF5Keystroke env h st = st'"
  proof (cases "orig = h")
    case True
    then show ?thesis
      using alive True [unfolded orig_def]
      by (simp add: SendCtrlF5Keystroke_def IsWindow_def GetForegroundWindow_def Let_def
          case_prod_beta st'_def st4_def F_def st3_def b_def st2_def
          split del: if_split cong: if_cong)
  next
    case False
    then show ?thesis
      using alive False [unfolded orig_def]
      by (simp add: SendCtrlF5Keystroke_def IsWindow_def GetForegroundWindow_def Let_def
          case_prod_beta st'_def st4_def F_def st3_def b_def st2_def orig_def
          split del: if_split cong: if_cong)
  qed
  have t2: "trace st2 = trace st" and n2: "n_SendInput st2 = n_SendInput st"
    by (simp_all add: st2_def)
  have g3: "trace st3 = trace st2 @ new_events st2 st3"
    and s3: "filter is_SendInput (new_events st2 st3) = []"
    and n3: "n_SendInput st3 = n_SendInput st2"
  proof -
    have "grows st2 st3 \<and> n_SendInput st3 = n_SendInput st2"
      using Activate_grows [of st2 env h orig]
      by (simp add: st3_def LogDebug_def emit_def grows_def new_events_def)
    then show "trace st3 = trace st2 @ new_events st2 st3"
      and "filter is_SendInput (new_events st2 st3) = []"
      and "n_SendInput st3 = n_SendInput st2"
      using growsD by blast+
  qed
  define outc where "outc = inject_outcome env h b (n_IsIconic st3) (n_GetForegroundWindow st3) (n_SendInput st)"
  have F: "F = fst outc" and t4: "trace st4 = trace st3 @ snd outc"
    by (simp_all add: F_def st4_def outc_def inject_if_focused_eq n3 n2)
  obtain p where p: "snd outc = p @ (if F then injection_events env (n_SendInput st) else [])"
    and sp: "filter is_SendInput p = []"
    using inject_outcome_split [of env h b "n_IsIconic st3" "n_GetForegroundWindow st3" "n_SendInput st"]
    unfolding outc_def [symmetric] F by blast
  have g': "trace st' = trace st4 @ new_events st4 st'"
    and s': "filter is_SendInput (new_events st4 st') = []"
  proof -
    have "grows st4 st'"
      using Restore_grows [of st4 env orig h F]
      by (simp add: st'_def grows_def new_events_def)
    then show "trace st' = trace st4 @ new_events st4 st'"
      and "filter is_SendInput (new_events st4 st') = []"
      using growsD by blast+
  qed
  have Fb: "F \<longrightarrow> orig = h \<or> fst (ActivateWindowAndEnsureFocus env h orig st2)"
    using inject_outcome_focused [of env h b] unfolding F outc_def b_def by (auto split: if_splits)
  have "trace st' = trace st @ (new_events st2 st3 @ p) @
      (if F then injection_events env (n_SendInput st) else []) @ new_events st4 st'"
    by (simp add: g' t4 p g3 t2)
  moreover have "filter is_SendInput (new_events st2 st3 @ p) = []" by (simp add: s3 sp)
  ultimately show ?thesis
    unfolding e using s' Fb unfolding orig_def st2_def by blast
qed

lemma SendCtrlF5_already:
  assumes "IsWindow_ans env (n_IsWindow st) h"
    and "GetForegroundWindow_ans env (n_GetForegroundWindow st) = h"
  shows "new_events st (SendCtrlF5Keystroke env h st) =
     LogLine DEBUG ''SendCtrlF5: Target window %p is already foreground.'' #
     snd (inject_outcome env h True (n_IsIconic st) (Suc (n_GetForegroundWindow st)) (n_SendInput st))"
  using assms
  by (simp add: SendCtrlF5Keystroke_def IsWindow_def GetForegroundWindow_def Let_def
      inject_if_focused_eq LogDebug_def emit_def new_events_def
      split del: if_split cong: if_cong)

lemma SendCtrlF5_dead:
  assumes "\<not> IsWindow_ans env (n_IsWindow st) h"
  shows "new_events st (SendCtrlF5Keystroke env h st) =
     [LogLine WARNING ''SendCtrlF5: Target HWND %p is invalid. Skipping.'',
      Printf ''Warning: The target window seems to be closed. Keystroke not sent.'']"
  using assms by (simp add: SendCtrlF5Keystroke_def os_defs new_events_def)

text \<open>
  C6: the keystroke combo is submitted by one call of \<^verbatim>\<open>SendInput\<close>. Whatever the
  operating system answers, \<^verbatim>\<open>SendCtrlF5Keystroke\<close> calls \<^verbatim>\<open>SendInput\<close> at most once,
  and then with the four events Ctrl-down, F5-down, F5-up, Ctrl-up in this order; when the
  call is made and accepts a number of events other than four, an error is logged and no
  second call follows. The injection block itself consists of exactly that call and one
  log line.
\<close>

theorem C6_single_SendInput_call:
  "(let evs = new_events st (SendCtrlF5Keystroke env h st);
        r = SendInput_ans env (n_SendInput st);
        sends = filter is_SendInput evs
    in (sends = [] \<or> sends = [SendInput ctrl_f5_inputs r]) \<and>
       (sends \<noteq> [] \<and> r \<noteq> 4 \<longrightarrow>
          LogLine ERROR ''SendCtrlF5 (SendInput): Failed. Sent %u of 4. Error: %lu'' \<in> set evs)) \<and>
   new_events st (inject_ctrl_f5 env st) =
     [SendInput ctrl_f5_inputs (SendInput_ans env (n_SendInput st)),
      if SendInput_ans env (n_SendInput st) \<noteq> 4
      then LogLine ERROR ''SendCtrlF5 (SendInput): Failed. Sent %u of 4. Error: %lu''
      else LogLine DEBUG ''SendCtrlF5 (SendInput): Sent Ctrl+F5 to HWND %p.''] \<and>
   ctrl_f5_inputs =
     [\<lparr>wVk = VK_CONTROL, dwFlags = KEYDOWN\<rparr>, \<lparr>wVk = VK_F5, dwFlags = KEYDOWN\<rparr>,
      \<lparr>wVk = VK_F5, dwFlags = KEYEVENTF_KEYUP\<rparr>, \<lparr>wVk = VK_CONTROL, dwFlags = KEYEVENTF_KEYUP\<rparr>]"
proof -
  let ?evs = "new_events st (SendCtrlF5Keystroke env h st)"
  let ?r = "SendInput_ans env (n_SendInput st)"
  let ?err = "LogLine ERROR ''SendCtrlF5 (SendInput): Failed. Sent %u of 4. Error: %lu''"
  have main: "(filter is_SendInput ?evs = [] \<or> filter is_SendInput ?evs = [SendInput ctrl_f5_inputs ?r]) \<and>
     (filter is_SendInput ?evs \<noteq> [] \<and> ?r \<noteq> 4 \<longrightarrow> ?err \<in> set ?evs)"
  proof (cases "IsWindow_ans env (n_IsWindow st) h")
    case False
    then show ?thesis by (simp add: SendCtrlF5_dead)
  next
    case True
    from SendCtrlF5_events [OF True] obtain pre post F where
      t: "trace (SendCtrlF5Keystroke env h st) =
            trace st @ pre @ (if F then injection_events env (n_SendInput st) else []) @ post"
      and pre: "filter is_SendInput pre = []" and post: "filter is_SendInput post = []"
      by blast
    have ev: "?evs = pre @ (if F then injection_events env (n_SendInput st) else []) @ post"
      by (rule new_events_append [OF t])
    show ?thesis
      unfolding ev using pre post by (cases F) (simp_all add: injection_events_def)
  qed
  have inj: "new_events st (inject_ctrl_f5 env st) =
     [SendInput ctrl_f5_inputs ?r, if ?r \<noteq> 4 then ?err
      else LogLine DEBUG ''SendCtrlF5 (SendInput): Sent Ctrl+F5 to HWND %p.'']"
    by (simp add: inject_ctrl_f5_eq new_events_def)
  show ?thesis
    unfolding Let_def using main inj by (simp add: ctrl_f5_inputs_def)
qed

lemma C6_eval:
  "new_events st0 (SendCtrlF5Keystroke env_partial 5 st0) =
     [LogLine DEBUG ''SendCtrlF5: Target window %p is already foreground.'',
      SendInput ctrl_f5_inputs 2,
      LogLine ERROR ''SendCtrlF5 (SendInput): Failed. Sent %u of 4. Error: %lu'']"
  by (simp add: SendCtrlF5_already env_partial_def env_quiet_def st0_def inject_outcome_def
      injection_events_def)

text \<open>At a concrete input: the target has the focus and \<^verbatim>\<open>SendInput\<close> accepts two of the
  four events.\<close>

theorem C6_witness:
  "(let evs = new_events st0 (SendCtrlF5Keystroke env_partial 5 st0);
        r = SendInput_ans env_partial (n_SendInput st0);
        sends = filter is_SendInput evs
    in sends = [SendInput ctrl_f5_inputs 2] \<and> sends \<noteq> [] \<and> r \<noteq> 4 \<and>
       LogLine ERROR ''SendCtrlF5 (SendInput): Failed. Sent %u of 4. Error: %lu'' \<in> set evs)"
proof -
  have r: "SendInput_ans env_partial (n_SendInput st0) = 2"
    by (simp add: env_partial_def)
  have s: "filter is_SendInput (new_events st0 (SendCtrlF5Keystroke env_partial 5 st0)) =
      [SendInput ctrl_f5_inputs 2]"
    by (simp add: C6_eval)
  show ?thesis
    using C6_single_SendInput_call [of st0 env_partial 5] r s by (simp add: Let_def)
qed

lemma Activate_result:
  assumes "orig \<noteq> h"
  shows "fst (ActivateWindowAndEnsureFocus env h orig st) =
     fst (verify_hold_outcome env h
            (fst (focus_loop_outcome env h (n_GetForegroundWindow st)))
            (fst (snd (focus_loop_outcome env h (n_GetForegroundWindow st)))))"
  by (simp add: Activate_eq [OF assms] Let_def)

lemma focus_lost_outcome:
  assumes "i < FOCUS_SWITCH_ATTEMPTS"
    and "\<forall>j<i. GetForegroundWindow_ans env (k + 2 * j) \<noteq> h"
    and "GetForegroundWindow_ans env (k + 2 * i) = h"
    and "GetForegroundWindow_ans env (k + 2 * i + 1) \<noteq> h"
  shows "\<not> fst (verify_hold_outcome env h
            (fst (focus_loop_outcome env h k)) (fst (snd (focus_loop_outcome env h k))))"
proof -
  from assms(1) have "i = 0 \<or> i = 1 \<or> i = 2"
    unfolding FOCUS_SWITCH_ATTEMPTS_def by arith
  then consider "i = 0" | "i = 1" | "i = 2" by blast
  then show ?thesis
  proof cases
    case 1
    with assms show ?thesis
      by (simp add: focus_loop_outcome_def verify_hold_outcome_def eval_nat_numeral)
  next
    case 2
    with assms have "GetForegroundWindow_ans env k \<noteq> h" by auto
    with 2 assms show ?thesis
      by (simp add: focus_loop_outcome_def verify_hold_outcome_def eval_nat_numeral)
  next
    case 3
    then have "0 < i" and "1 < i" by simp_all
    with assms(2) have "GetForegroundWindow_ans env (k + 2 * 0) \<noteq> h"
      and "GetForegroundWindow_ans env (k + 2 * 1) \<noteq> h" by blast+
    with 3 assms(3,4) show ?thesis
      by (simp add: focus_loop_outcome_def verify_hold_outcome_def eval_nat_numeral)
  qed
qed

text \<open>
  C5: the target is a window and is not the foreground window when
  \<^verbatim>\<open>SendCtrlF5Keystroke\<close> starts; attempt number \<open>i\<close> of the retry loop (counted from
  \<open>0\<close>) is the first to observe the target as foreground window, and the check after the
  settle delay observes another window. Then \<^verbatim>\<open>ActivateWindowAndEnsureFocus\<close> returns
  \<^verbatim>\<open>FALSE\<close> and the cycle makes no \<^verbatim>\<open>SendInput\<close> call. The first
  \<^verbatim>\<open>GetForegroundWindow\<close> call of the cycle gives the original foreground window; every
  failed attempt makes two calls (the check and the log line), so attempt \<open>i\<close> checks at
  index \<open>1 + 2 * i\<close> and the check after the settle delay is the next call.
\<close>

theorem C5_focus_lost_after_settle:
  assumes alive: "IsWindow_ans env (n_IsWindow st) h"
    and orig: "GetForegroundWindow_ans env (n_GetForegroundWindow st) \<noteq> h"
    and i: "i < FOCUS_SWITCH_ATTEMPTS"
    and before: "\<forall>j<i. GetForegroundWindow_ans env (n_GetForegroundWindow st + 1 + 2 * j) \<noteq> h"
    and granted: "GetForegroundWindow_ans env (n_GetForegroundWindow st + 1 + 2 * i) = h"
    and lost: "GetForegroundWindow_ans env (n_GetForegroundWindow st + 1 + 2 * i + 1) \<noteq> h"
  shows "\<not> fst (ActivateWindowAndEnsureFocus env h
                 (GetForegroundWindow_ans env (n_GetForegroundWindow st))
                 (st\<lparr>n_IsWindow := Suc (n_IsWindow st),
                     n_GetForegroundWindow := Suc (n_GetForegroundWindow st)\<rparr>)) \<and>
         filter is_SendInput (new_events st (SendCtrlF5Keystroke env h st)) = []"
proof -
  let ?orig = "GetForegroundWindow_ans env (n_GetForegroundWindow st)"
  let ?st2 = "st\<lparr>n_IsWindow := Suc (n_IsWindow st),
                     n_GetForegroundWindow := Suc (n_GetForegroundWindow st)\<rparr>"
  have failed: "\<not> fst (ActivateWindowAndEnsureFocus env h ?orig ?st2)"
    unfolding Activate_result [OF orig]
    using focus_lost_outcome [of i env "Suc (n_GetForegroundWindow st)" h] i before granted lost
    by simp
  from SendCtrlF5_events [OF alive] obtain pre post F where
    t: "trace (SendCtrlF5Keystroke env h st) =
          trace st @ pre @ (if F then injection_events env (n_SendInput st) else []) @ post"
    and pre: "filter is_SendInput pre = []" and post: "filter is_SendInput post = []"
    and F: "F \<longrightarrow> ?orig = h \<or> fst (ActivateWindowAndEnsureFocus env h ?orig ?st2)"
    by blast
  from F orig failed have "\<not> F" by blast
  then have "new_events st (SendCtrlF5Keystroke env h st) = pre @ post"
    using new_events_append [OF t] by simp
  then show ?thesis using failed pre post by simp
qed

text \<open>At a concrete input: the first attempt fails, the second succeeds, and window 7 has
  the focus again after the settle delay.\<close>

theorem C5_witness:
  "IsWindow_ans env_stolen (n_IsWindow st0) 5 \<and>
   GetForegroundWindow_ans env_stolen (n_GetForegroundWindow st0) \<noteq> 5 \<and>
   (1::nat) < FOCUS_SWITCH_ATTEMPTS \<and>
   GetForegroundWindow_ans env_stolen (n_GetForegroundWindow st0 + 1 + 2 * 0) \<noteq> 5 \<and>
   GetForegroundWindow_ans env_stolen (n_GetForegroundWindow st0 + 1 + 2 * 1) = 5 \<and>
   GetForegroundWindow_ans env_stolen (n_GetForegroundWindow st0 + 1 + 2 * 1 + 1) \<noteq> 5 \<and>
   \<not> fst (ActivateWindowAndEnsureFocus env_stolen 5
            (GetForegroundWindow_ans env_stolen (n_GetForegroundWindow st0))
            (st0\<lparr>n_IsWindow := Suc (n_IsWindow st0),
                 n_GetForegroundWindow := Suc (n_GetForegroundWindow st0)\<rparr>)) \<and>
   filter is_SendInput (new_events st0 (SendCtrlF5Keystroke env_stolen 5 st0)) = []"
proof -
  have h: "IsWindow_ans env_stolen (n_IsWindow st0) 5"
    "GetForegroundWindow_ans env_stolen (n_GetForegroundWindow st0) \<noteq> 5"
    "(1::nat) < FOCUS_SWITCH_ATTEMPTS"
    "\<forall>j<1::nat. GetForegroundWindow_ans env_stolen (n_GetForegroundWindow st0 + 1 + 2 * j) \<noteq> 5"
    "GetForegroundWindow_ans env_stolen (n_GetForegroundWindow st0 + 1 + 2 * 1) = 5"
    "GetForegroundWindow_ans env_stolen (n_GetForegroundWindow st0 + 1 + 2 * 1 + 1) \<noteq> 5"
    by (simp_all add: env_stolen_def env_quiet_def st0_def FOCUS_SWITCH_ATTEMPTS_def)
  from h(4) have first:
    "GetForegroundWindow_ans env_stolen (n_GetForegroundWindow st0 + 1 + 2 * 0) \<noteq> 5"
    by blast
  show ?thesis
    using h(1,2,3,5,6) first C5_focus_lost_after_settle [OF h] by blast
qed



lemma GetRandomDelaySeconds_eq:
  "GetRandomDelaySeconds env a b st =
     (random_value env a b (n_random st),
      st\<lparr>n_random := (if a \<ge> b then n_random st else Suc (n_random st)),
         trace := trace st @ random_log env a b (n_random st)\<rparr>)"
  by (simp add: GetRandomDelaySeconds_def random_value_def random_draw_def random_log_def Let_def
      LogDebug_def LogError_def emit_def split: option.split)

lemma IsAltKeyHeld_eq:
  "IsAltKeyHeld env st =
     (alt_held env (n_GetAsyncKeyState st),
      st\<lparr>n_GetAsyncKeyState := n_GetAsyncKeyState st + alt_calls env (n_GetAsyncKeyState st)\<rparr>)"
  by (simp add: IsAltKeyHeld_def GetAsyncKeyState_def alt_held_def alt_calls_def key_down_def
      Let_def)

lemma main_cycle_alt:
  assumes "IsWindow_ans env (n_IsWindow st) (g_hTargetWindow st)"
    and "alt_held env (n_GetAsyncKeyState st)"
  shows "main_cycle env c st =
     (Continue, c,
      st\<lparr>n_IsWindow := Suc (n_IsWindow st),
         n_random := (if g_min_delay_seconds st \<ge> g_max_delay_seconds st then n_random st
                      else Suc (n_random st)),
         n_GetAsyncKeyState := n_GetAsyncKeyState st + alt_calls env (n_GetAsyncKeyState st),
         trace := trace st @
           random_log env (g_min_delay_seconds st) (g_max_delay_seconds st) (n_random st) @
           wait_events (random_value env (g_min_delay_seconds st) (g_max_delay_seconds st)
                          (n_random st)) @
           alt_skip_events\<rparr>)"
  using assms
  by (simp add: main_cycle_def IsWindow_def GetRandomDelaySeconds_eq IsAltKeyHeld_eq
      WaitMilliseconds_eq wait_events_def alt_skip_events_def printf_def LogDebug_def emit_def
      ALT_KEY_CHECK_DELAY_MS_def Let_def split del: if_split cong: if_cong)

lemma SendCtrlF5_prefix:
  "\<exists>evs. trace (SendCtrlF5Keystroke env h st) = trace st @ evs"
proof (cases "IsWindow_ans env (n_IsWindow st) h")
  case True
  from SendCtrlF5_events [OF True] show ?thesis by blast
next
  case False
  then show ?thesis by (simp add: SendCtrlF5Keystroke_def os_defs)
qed

lemma main_cycle_deliver:
  assumes "IsWindow_ans env (n_IsWindow st) (g_hTargetWindow st)"
    and "\<not> alt_held env (n_GetAsyncKeyState st)"
    and "IsWindow_ans env (Suc (n_IsWindow st)) (g_hTargetWindow st)"
  shows \<open>main_cycle env c st =
     (Continue, c + 1,
      WaitMilliseconds POST_SENDINPUT_DELAY_MS
        (SendCtrlF5Keystroke env (g_hTargetWindow st)
          (st\<lparr>n_IsWindow := Suc (Suc (n_IsWindow st)),
              n_random := (if g_min_delay_seconds st \<ge> g_max_delay_seconds st then n_random st
                           else Suc (n_random st)),
              n_GetAsyncKeyState := n_GetAsyncKeyState st + alt_calls env (n_GetAsyncKeyState st),
              trace := trace st @
                random_log env (g_min_delay_seconds st) (g_max_delay_seconds st) (n_random st) @
                wait_events (random_value env (g_min_delay_seconds st) (g_max_delay_seconds st)
                               (n_random st)) @
                [Printf ''Sending Ctrl+F5 (Count: %d) to window "%s"...'']\<rparr>)))\<close>
  using assms
  apply (simp add: main_cycle_def IsWindow_def GetRandomDelaySeconds_eq IsAltKeyHeld_eq
      WaitMilliseconds_eq [of "nat _"] printf_def LogDebug_def emit_def
      Let_def split del: if_split cong: if_cong)
  apply (rule arg_cong [where f = "\<lambda>s. WaitMilliseconds POST_SENDINPUT_DELAY_MS
      (SendCtrlF5Keystroke env (g_hTargetWindow st) s)"])
  apply (rule pstate.equality)
              apply (simp_all add: wait_events_def split del: if_split cong: if_cong)
  done

lemma main_cycle_gone_after_wait:
  assumes "IsWindow_ans env (n_IsWindow st) (g_hTargetWindow st)"
    and "\<not> alt_held env (n_GetAsyncKeyState st)"
    and "\<not> IsWindow_ans env (Suc (n_IsWindow st)) (g_hTargetWindow st)"
  shows "main_cycle env c st =
     (Break, c,
      st\<lparr>n_IsWindow := Suc (Suc (n_IsWindow st)),
         n_random := (if g_min_delay_seconds st \<ge> g_max_delay_seconds st then n_random st
                      else Suc (n_random st)),
         n_GetAsyncKeyState := n_GetAsyncKeyState st + alt_calls env (n_GetAsyncKeyState st),
         trace := trace st @
           random_log env (g_min_delay_seconds st) (g_max_delay_seconds st) (n_random st) @
           wait_events (random_value env (g_min_delay_seconds st) (g_max_delay_seconds st)
                          (n_random st)) @
           [Printf ''Target window (HWND %p) disappeared before sending keystroke. Stopping.'',
            LogLine WARNING ''Main: Target window HWND %p disappeared during wait. Exiting loop.'']\<rparr>)"
  using assms
  by (simp add: main_cycle_def IsWindow_def GetRandomDelaySeconds_eq IsAltKeyHeld_eq
      WaitMilliseconds_eq wait_events_def printf_def LogDebug_def LogWarning_def emit_def
      Let_def split del: if_split cong: if_cong)

lemma main_cycle_starts_with_wait:
  assumes alive: "IsWindow_ans env (n_IsWindow st) (g_hTargetWindow st)"
  shows "\<exists>rest. trace (snd (snd (main_cycle env c st))) =
     trace st @
     random_log env (g_min_delay_seconds st) (g_max_delay_seconds st) (n_random st) @
     wait_events (random_value env (g_min_delay_seconds st) (g_max_delay_seconds st)
                    (n_random st)) @ rest"
proof (cases "alt_held env (n_GetAsyncKeyState st)")
  case True
  show ?thesis unfolding main_cycle_alt [OF alive True] by simp
next
  case False
  show ?thesis
  proof (cases "IsWindow_ans env (Suc (n_IsWindow st)) (g_hTargetWindow st)")
    case gone: False
    show ?thesis unfolding main_cycle_gone_after_wait [OF alive False gone] by simp
  next
    case True
    let ?s = \<open>st\<lparr>n_IsWindow := Suc (Suc (n_IsWindow st)),
              n_random := (if g_min_delay_seconds st \<ge> g_max_delay_seconds st then n_random st
                           else Suc (n_random st)),
              n_GetAsyncKeyState := n_GetAsyncKeyState st + alt_calls env (n_GetAsyncKeyState st),
              trace := trace st @
                random_log env (g_min_delay_seconds st) (g_max_delay_seconds st) (n_random st) @
                wait_events (random_value env (g_min_delay_seconds st) (g_max_delay_seconds st)
                               (n_random st)) @
                [Printf ''Sending Ctrl+F5 (Count: %d) to window "%s"...'']\<rparr>\<close>
    obtain evs where
      e: "trace (SendCtrlF5Keystroke env (g_hTargetWindow st) ?s) = trace ?s @ evs"
      using SendCtrlF5_prefix by blast
    show ?thesis
      unfolding main_cycle_deliver [OF alive False True]
      by (simp add: WaitMilliseconds_eq e)
  qed
qed

lemma SendCtrlF5_trace:
  "trace (SendCtrlF5Keystroke env h st) = trace st @ new_events st (SendCtrlF5Keystroke env h st)"
proof -
  obtain evs where e: "trace (SendCtrlF5Keystroke env h st) = trace st @ evs"
    using SendCtrlF5_prefix by blast
  show ?thesis using e new_events_append [OF e] by simp
qed

lemma SendCtrlF5_already_trace:
  assumes "IsWindow_ans env (n_IsWindow st) h"
    and "GetForegroundWindow_ans env (n_GetForegroundWindow st) = h"
  shows "trace (SendCtrlF5Keystroke env h st) =
     trace st @
     LogLine DEBUG ''SendCtrlF5: Target window %p is already foreground.'' #
     snd (inject_outcome env h True (n_IsIconic st) (Suc (n_GetForegroundWindow st)) (n_SendInput st))"
  using SendCtrlF5_trace [of env h st] SendCtrlF5_already [OF assms] by simp

lemma random_log_no_send: "filter is_SendInput (random_log env a b k) = []"
  by (simp add: random_log_def split: option.split)

lemma random_log_no_sleep: "filter is_Sleep (random_log env a b k) = []"
  by (simp add: random_log_def split: option.split)

lemma wait_events_no_send: "filter is_SendInput (wait_events w) = []"
  by (simp add: wait_events_def)

lemma main_loop_1:
  "snd (snd (main_loop (Suc 0) env c st)) = snd (snd (main_cycle env c st))"
  by (simp split: prod.split control.split)

text \<open>
  C1 (as stated): a cycle in which the user holds the modifier of the combo, the Ctrl key, at
  the modifier check injects nothing and restarts after the penalty wait. This fails:
  \<^verbatim>\<open>IsAltKeyHeld\<close> asks for \<^verbatim>\<open>VK_MENU\<close>, \<^verbatim>\<open>VK_LMENU\<close> and \<^verbatim>\<open>VK_RMENU\<close> only. With
  Ctrl held and no Alt key held, the cycle waits its random delay (7000 ms here), injects
  the combo and waits the 100 ms after the injection; there is no penalty wait.
\<close>

theorem C1_counterexample:
  "key_down (GetAsyncKeyState_ans env_ctrl (n_GetAsyncKeyState st0) VK_CONTROL) \<and>
   filter (\<lambda>e. is_SendInput e \<or> is_Sleep e)
     (new_events st0 (snd (snd (main_cycle env_ctrl 0 st0)))) =
     [Sleep 7000, SendInput ctrl_f5_inputs 4, Sleep 100]"
proof -
  have a: "IsWindow_ans env_ctrl (n_IsWindow st0) (g_hTargetWindow st0)"
    and b: "\<not> alt_held env_ctrl (n_GetAsyncKeyState st0)"
    and c: "IsWindow_ans env_ctrl (Suc (n_IsWindow st0)) (g_hTargetWindow st0)"
    by (simp_all add: env_ctrl_def env_quiet_def st0_def alt_held_def key_down_def)
  have v: "random_value env_ctrl 2 7 0 = 7"
    by (simp add: random_value_def random_draw_def env_ctrl_def env_quiet_def UINT_MAX_def)
  have l: "random_log env_ctrl 2 7 0 = []"
    by (simp add: random_log_def env_ctrl_def env_quiet_def)
  have k: "key_down (GetAsyncKeyState_ans env_ctrl (n_GetAsyncKeyState st0) VK_CONTROL)"
    by (simp add: env_ctrl_def key_down_def)
  have "filter (\<lambda>e. is_SendInput e \<or> is_Sleep e)
     (new_events st0 (snd (snd (main_cycle env_ctrl 0 st0)))) =
     [Sleep 7000, SendInput ctrl_f5_inputs 4, Sleep 100]"
    unfolding main_cycle_deliver [OF a b c]
    apply (simp add: WaitMilliseconds_eq new_events_def POST_SENDINPUT_DELAY_MS_def st0_def v l
        wait_events_def)
    apply (simp add: SendCtrlF5_already_trace env_ctrl_def env_quiet_def
        inject_outcome_def injection_events_def)
    done
  with k show ?thesis by blast
qed

text \<open>
  C1 (amended): a cycle that finds the target window alive and in which an Alt key
  (\<^verbatim>\<open>VK_MENU\<close>, \<^verbatim>\<open>VK_LMENU\<close> or \<^verbatim>\<open>VK_RMENU\<close>) is held at the modifier check after the
  wait makes no \<^verbatim>\<open>SendInput\<close> call, ends with the fixed wait of 500 ms and continues the
  loop with the keystroke count unchanged.
\<close>

theorem C1_alt_held_skips_cycle:
  assumes alive: "IsWindow_ans env (n_IsWindow st) (g_hTargetWindow st)"
    and alt: "alt_held env (n_GetAsyncKeyState st)"
  shows "fst (main_cycle env c st) = Continue \<and> fst (snd (main_cycle env c st)) = c \<and>
     new_events st (snd (snd (main_cycle env c st))) =
       random_log env (g_min_delay_seconds st) (g_max_delay_seconds st) (n_random st) @
       wait_events (random_value env (g_min_delay_seconds st) (g_max_delay_seconds st)
                      (n_random st)) @
       alt_skip_events \<and>
     filter is_SendInput (new_events st (snd (snd (main_cycle env c st)))) = [] \<and>
     last (new_events st (snd (snd (main_cycle env c st)))) = Sleep 500"
proof -
  have e: "new_events st (snd (snd (main_cycle env c st))) =
       random_log env (g_min_delay_seconds st) (g_max_delay_seconds st) (n_random st) @
       wait_events (random_value env (g_min_delay_seconds st) (g_max_delay_seconds st)
                      (n_random st)) @
       alt_skip_events"
    unfolding main_cycle_alt [OF alive alt] by (simp add: new_events_def)
  have s: "filter is_SendInput (new_events st (snd (snd (main_cycle env c st)))) = []"
    unfolding e by (simp add: random_log_no_send wait_events_no_send alt_skip_events_def)
  have l: "last (new_events st (snd (snd (main_cycle env c st)))) = Sleep 500"
    unfolding e by (simp add: alt_skip_events_def ALT_KEY_CHECK_DELAY_MS_def)
  show ?thesis using e s l by (simp add: main_cycle_alt [OF alive alt])
qed

theorem C1_witness:
  "IsWindow_ans env_alt_once (n_IsWindow st0) (g_hTargetWindow st0) \<and>
   alt_held env_alt_once (n_GetAsyncKeyState st0) \<and>
   fst (main_cycle env_alt_once 0 st0) = Continue \<and>
   filter is_SendInput (new_events st0 (snd (snd (main_cycle env_alt_once 0 st0)))) = [] \<and>
   last (new_events st0 (snd (snd (main_cycle env_alt_once 0 st0)))) = Sleep 500"
proof -
  have h: "IsWindow_ans env_alt_once (n_IsWindow st0) (g_hTargetWindow st0)"
    "alt_held env_alt_once (n_GetAsyncKeyState st0)"
    by (simp_all add: env_alt_once_def env_quiet_def st0_def alt_held_def key_down_def)
  show ?thesis using h C1_alt_held_skips_cycle [OF h, of 0] by blast
qed

lemma main_cycle_deliver_already:
  assumes a: "IsWindow_ans env (n_IsWindow st) (g_hTargetWindow st)"
    and b: "\<not> alt_held env (n_GetAsyncKeyState st)"
    and c: "IsWindow_ans env (Suc (n_IsWindow st)) (g_hTargetWindow st)"
    and d: "IsWindow_ans env (Suc (Suc (n_IsWindow st))) (g_hTargetWindow st)"
    and e: "GetForegroundWindow_ans env (n_GetForegroundWindow st) = g_hTargetWindow st"
  shows \<open>trace (snd (snd (main_cycle env k st))) =
     trace st @
     random_log env (g_min_delay_seconds st) (g_max_delay_seconds st) (n_random st) @
     wait_events (random_value env (g_min_delay_seconds st) (g_max_delay_seconds st)
                    (n_random st)) @
     [Printf ''Sending Ctrl+F5 (Count: %d) to window "%s"...'',
      LogLine DEBUG ''SendCtrlF5: Target window %p is already foreground.''] @
     snd (inject_outcome env (g_hTargetWindow st) True (n_IsIconic st)
            (Suc (n_GetForegroundWindow st)) (n_SendInput st)) @
     [Sleep POST_SENDINPUT_DELAY_MS]\<close>
  unfolding main_cycle_deliver [OF a b c]
  by (simp add: WaitMilliseconds_eq SendCtrlF5_already_trace d e POST_SENDINPUT_DELAY_MS_def)

lemma C3_trace:
  \<open>new_events st0 (snd (snd (main_loop 2 env_alt_once 0 st0))) =
     [Printf ''Waiting for %.2fs before sending Ctrl+F5 to "%s"...'',
      LogLine DEBUG ''Main: Waiting for %.3f seconds.'',
      Sleep 7000,
      Printf ''Info: Alt key is currently pressed. Skipping keystroke to avoid conflict.'',
      LogLine DEBUG ''Main: Alt key detected as pressed. Deferring SendCtrlF5Keystroke.'',
      Sleep 500,
      Printf ''Waiting for %.2fs before sending Ctrl+F5 to "%s"...'',
      LogLine DEBUG ''Main: Waiting for %.3f seconds.'',
      Sleep 2000,
      Printf ''Sending Ctrl+F5 (Count: %d) to window "%s"...'',
      LogLine DEBUG ''SendCtrlF5: Target window %p is already foreground.'',
      SendInput ctrl_f5_inputs 4,
      LogLine DEBUG ''SendCtrlF5 (SendInput): Sent Ctrl+F5 to HWND %p.'',
      Sleep 100]\<close>
proof -
  have a: "IsWindow_ans env_alt_once (n_IsWindow st0) (g_hTargetWindow st0)"
    and b: "alt_held env_alt_once (n_GetAsyncKeyState st0)"
    by (simp_all add: env_alt_once_def env_quiet_def st0_def alt_held_def key_down_def)
  have v0: "random_value env_alt_once 2 7 0 = 7" and v1: "random_value env_alt_once 2 7 (Suc 0) = 2"
    by (simp_all add: random_value_def random_draw_def env_alt_once_def env_quiet_def UINT_MAX_def)
  have l: "random_log env_alt_once 2 7 k = []" for k
    by (simp add: random_log_def env_alt_once_def env_quiet_def)
  have c0: "alt_calls env_alt_once 0 = 1" and c1: "alt_calls env_alt_once (Suc 0) = 3"
    by (simp_all add: alt_calls_def env_alt_once_def key_down_def)
  define st1 where "st1 = snd (snd (main_cycle env_alt_once 0 st0))"
  have e1: "main_cycle env_alt_once 0 st0 = (Continue, 0, st1)"
    by (simp add: st1_def main_cycle_alt [OF a b])
  have f1: "g_hTargetWindow st1 = 5" "g_min_delay_seconds st1 = 2" "g_max_delay_seconds st1 = 7"
    "n_IsWindow st1 = Suc 0" "n_GetAsyncKeyState st1 = Suc 0" "n_random st1 = Suc 0"
    "n_GetForegroundWindow st1 = 0" "n_IsIconic st1 = 0" "n_SendInput st1 = 0"
    unfolding st1_def main_cycle_alt [OF a b] by (simp_all add: st0_def c0)
  have t1: "trace st1 = wait_events 7 @ alt_skip_events"
    unfolding st1_def main_cycle_alt [OF a b] by (simp add: st0_def l v0)
  have a2: "IsWindow_ans env_alt_once (n_IsWindow st1) (g_hTargetWindow st1)"
    and b2: "\<not> alt_held env_alt_once (n_GetAsyncKeyState st1)"
    and c2: "IsWindow_ans env_alt_once (Suc (n_IsWindow st1)) (g_hTargetWindow st1)"
    by (simp_all add: f1 env_alt_once_def env_quiet_def alt_held_def key_down_def)
  have d2: "IsWindow_ans env_alt_once (Suc (Suc (n_IsWindow st1))) (g_hTargetWindow st1)"
    and g2: "GetForegroundWindow_ans env_alt_once (n_GetForegroundWindow st1) = g_hTargetWindow st1"
    by (simp_all add: f1 env_alt_once_def env_quiet_def)
  have m: "snd (snd (main_loop 2 env_alt_once 0 st0)) = snd (snd (main_cycle env_alt_once 0 st1))"
    by (simp add: eval_nat_numeral e1 split: prod.split control.split)
  have \<open>trace (snd (snd (main_loop 2 env_alt_once 0 st0))) =
      wait_events 7 @ alt_skip_events @ wait_events 2 @
      [Printf ''Sending Ctrl+F5 (Count: %d) to window "%s"...'',
       LogLine DEBUG ''SendCtrlF5: Target window %p is already foreground.''] @
      snd (inject_outcome env_alt_once 5 True 0 (Suc 0) 0) @ [Sleep 100]\<close>
    unfolding m main_cycle_deliver_already [OF a2 b2 c2 d2 g2]
    by (simp add: f1 t1 l v1 POST_SENDINPUT_DELAY_MS_def)
  then show ?thesis
    by (simp add: new_events_def st0_def wait_events_def alt_skip_events_def injection_events_def
        inject_outcome_def ALT_KEY_CHECK_DELAY_MS_def env_alt_once_def env_quiet_def)
qed

text \<open>
  C3 (as stated): after a held modifier has been detected, the only delay before the next
  injection attempt is the fixed penalty. This fails: \<^verbatim>\<open>continue\<close> goes back to the top of
  the loop, which samples a new delay and waits it out. Here Alt is held at the first check
  only; the random draws give 7 s in the first cycle and 2 s in the second. Between the
  detection and the injection the program sleeps 500 ms and then 2000 ms.
\<close>

theorem C3_counterexample:
  "waits_before_injection (new_events st0 (snd (snd (main_loop 2 env_alt_once 0 st0)))) =
     [Sleep 500, Sleep 2000] \<and>
   waits_before_injection (new_events st0 (snd (snd (main_loop 2 env_alt_once 0 st0)))) \<noteq>
     [Sleep ALT_KEY_CHECK_DELAY_MS] \<and>
   filter (\<lambda>e. is_Sleep e \<or> is_SendInput e)
     (new_events st0 (snd (snd (main_loop 2 env_alt_once 0 st0)))) =
     [Sleep 7000, Sleep 500, Sleep 2000, SendInput ctrl_f5_inputs 4, Sleep 100]"
  by (simp add: C3_trace waits_before_injection_def)

text \<open>
  C3 (amended): when a held Alt key is detected after the randomized wait, the cycle ends
  with the fixed penalty wait and the loop restarts; the restarted cycle first calls
  \<^verbatim>\<open>GetRandomDelaySeconds\<close> again (with the next index of the random source when
  \<open>min < max\<close>) and waits that delay, and only then checks the modifier and possibly
  injects. None of the events before \<open>rest\<close> is a \<^verbatim>\<open>SendInput\<close> call
  (\<open>random_log_no_send\<close>, \<open>wait_events_no_send\<close>).
\<close>

theorem C3_restart_resamples:
  assumes alive: "IsWindow_ans env (n_IsWindow st) (g_hTargetWindow st)"
    and alt: "alt_held env (n_GetAsyncKeyState st)"
    and alive2: "IsWindow_ans env (Suc (n_IsWindow st)) (g_hTargetWindow st)"
  shows "\<exists>rest.
     new_events st (snd (snd (main_loop 2 env c st))) =
       random_log env (g_min_delay_seconds st) (g_max_delay_seconds st) (n_random st) @
       wait_events (random_value env (g_min_delay_seconds st) (g_max_delay_seconds st)
                      (n_random st)) @
       alt_skip_events @
       random_log env (g_min_delay_seconds st) (g_max_delay_seconds st)
         (if g_min_delay_seconds st \<ge> g_max_delay_seconds st then n_random st
          else Suc (n_random st)) @
       wait_events (random_value env (g_min_delay_seconds st) (g_max_delay_seconds st)
                      (if g_min_delay_seconds st \<ge> g_max_delay_seconds st then n_random st
                       else Suc (n_random st))) @
       rest"
proof -
  define st1 where "st1 = snd (snd (main_cycle env c st))"
  have e1: "main_cycle env c st = (Continue, c, st1)"
    by (simp add: st1_def main_cycle_alt [OF alive alt])
  have f: "g_hTargetWindow st1 = g_hTargetWindow st"
    "g_min_delay_seconds st1 = g_min_delay_seconds st"
    "g_max_delay_seconds st1 = g_max_delay_seconds st"
    "n_IsWindow st1 = Suc (n_IsWindow st)"
    "n_random st1 = (if g_min_delay_seconds st \<ge> g_max_delay_seconds st then n_random st
                     else Suc (n_random st))"
    "trace st1 = trace st @
       random_log env (g_min_delay_seconds st) (g_max_delay_seconds st) (n_random st) @
       wait_events (random_value env (g_min_delay_seconds st) (g_max_delay_seconds st)
                      (n_random st)) @
       alt_skip_events"
    unfolding st1_def main_cycle_alt [OF alive alt] by simp_all
  have m: "snd (snd (main_loop 2 env c st)) = snd (snd (main_cycle env c st1))"
    by (simp add: eval_nat_numeral e1 split: prod.split control.split)
  have a1: "IsWindow_ans env (n_IsWindow st1) (g_hTargetWindow st1)"
    using alive2 by (simp add: f)
  obtain rest where
    r: "trace (snd (snd (main_cycle env c st1))) =
       trace st1 @
       random_log env (g_min_delay_seconds st1) (g_max_delay_seconds st1) (n_random st1) @
       wait_events (random_value env (g_min_delay_seconds st1) (g_max_delay_seconds st1)
                      (n_random st1)) @ rest"
    using main_cycle_starts_with_wait [OF a1] by blast
  have "trace (snd (snd (main_loop 2 env c st))) = trace st @
       (random_log env (g_min_delay_seconds st) (g_max_delay_seconds st) (n_random st) @
       wait_events (random_value env (g_min_delay_seconds st) (g_max_delay_seconds st)
                      (n_random st)) @
       alt_skip_events @
       random_log env (g_min_delay_seconds st) (g_max_delay_seconds st)
         (if g_min_delay_seconds st \<ge> g_max_delay_seconds st then n_random st
          else Suc (n_random st)) @
       wait_events (random_value env (g_min_delay_seconds st) (g_max_delay_seconds st)
                      (if g_min_delay_seconds st \<ge> g_max_delay_seconds st then n_random st
                       else Suc (n_random st))) @
       rest)"
    unfolding m r by (simp only: f append_assoc)
  from new_events_append [OF this] show ?thesis by blast
qed

theorem C3_witness:
  "IsWindow_ans env_alt_once (n_IsWindow st0) (g_hTargetWindow st0) \<and>
   alt_held env_alt_once (n_GetAsyncKeyState st0) \<and>
   IsWindow_ans env_alt_once (Suc (n_IsWindow st0)) (g_hTargetWindow st0) \<and>
   (\<exists>rest.
     new_events st0 (snd (snd (main_loop 2 env_alt_once 0 st0))) =
       random_log env_alt_once (g_min_delay_seconds st0) (g_max_delay_seconds st0) (n_random st0) @
       wait_events (random_value env_alt_once (g_min_delay_seconds st0) (g_max_delay_seconds st0)
                      (n_random st0)) @
       alt_skip_events @
       random_log env_alt_once (g_min_delay_seconds st0) (g_max_delay_seconds st0)
         (if g_min_delay_seconds st0 \<ge> g_max_delay_seconds st0 then n_random st0
          else Suc (n_random st0)) @
       wait_events (random_value env_alt_once (g_min_delay_seconds st0) (g_max_delay_seconds st0)
                      (if g_min_delay_seconds st0 \<ge> g_max_delay_seconds st0 then n_random st0
                       else Suc (n_random st0))) @
       rest)"
proof -
  have h: "IsWindow_ans env_alt_once (n_IsWindow st0) (g_hTargetWindow st0)"
    "alt_held env_alt_once (n_GetAsyncKeyState st0)"
    "IsWindow_ans env_alt_once (Suc (n_IsWindow st0)) (g_hTargetWindow st0)"
    by (simp_all add: env_alt_once_def env_quiet_def st0_def alt_held_def key_down_def)
  show ?thesis using h C3_restart_resamples [OF h, of 0] by blast
qed

subsection \<open>The random delay\<close>

lemma scale_bounds:
  "0 \<le> real (unat (v :: 32 word)) / real (unat UINT_MAX) \<and>
   real (unat v) / real (unat UINT_MAX) \<le> 1"
proof -
  have "unat v < 2 ^ 32" using unsigned_less [of v, where 'a = nat] by simp
  then have a: "unat v \<le> 4294967295" by simp
  have u: "unat UINT_MAX = 4294967295" by (simp add: UINT_MAX_def)
  have "real (unat v) \<le> real (unat UINT_MAX)"
    unfolding u using a by (simp only: of_nat_le_iff)
  moreover have "0 < real (unat UINT_MAX)" unfolding u by simp
  moreover have "0 \<le> real (unat v)" by (rule of_nat_0_le_iff)
  ultimately show ?thesis by (simp only: divide_le_eq_1_pos zero_le_divide_iff) simp
qed

lemma rounded_scale_bounds:
  "0 \<le> binary64 (real (unat (v :: 32 word)) / real (unat UINT_MAX)) \<and>
   binary64 (real (unat v) / real (unat UINT_MAX)) \<le> 1"
proof -
  have "binary64 (real (unat v) / real (unat UINT_MAX)) \<le> binary64 1"
    using scale_bounds [of v] by (intro binary64_mono) simp
  moreover have "0 \<le> binary64 (real (unat v) / real (unat UINT_MAX))"
    using scale_bounds [of v] by (intro binary64_nonneg) simp
  ultimately show ?thesis by simp
qed

lemma GetRandomDelaySeconds_value:
  "fst (GetRandomDelaySeconds env min_s max_s st) = random_value env min_s max_s (n_random st)"
  by (simp add: GetRandomDelaySeconds_eq)

lemma random_value_unfold:
  "min_s < max_s \<Longrightarrow>
   random_value env min_s max_s k =
     binary64 (min_s + binary64 (binary64 (real (unat (random_draw env k)) / real (unat UINT_MAX)) *
                                  binary64 (max_s - min_s)))"
  by (simp add: random_value_def)

lemma random_value_top:
  "random_draw env k = UINT_MAX \<Longrightarrow> min_s < max_s \<Longrightarrow>
   random_value env min_s max_s k = binary64 (min_s + binary64 (max_s - min_s))"
  by (simp add: random_value_unfold UINT_MAX_def)

text \<open>
  The value of the last line of \<^verbatim>\<open>GetRandomDelaySeconds\<close> for a scalar \<open>s\<close> between \<open>0\<close>
  and \<open>1\<close>: it is at least \<open>min\<close> and at most the value for the scalar \<open>1\<close>.
\<close>

lemma scaled_delay_bounds:
  assumes "is_double min_s" and "min_s < max_s" and "0 \<le> s" and "s \<le> 1"
  shows "min_s \<le> binary64 (min_s + binary64 (s * binary64 (max_s - min_s)))"
    and "binary64 (min_s + binary64 (s * binary64 (max_s - min_s))) \<le>
         binary64 (min_s + binary64 (max_s - min_s))"
proof -
  define D where "D = binary64 (max_s - min_s)"
  have D: "0 \<le> D" unfolding D_def using assms(2) by (intro binary64_nonneg) simp
  have "0 \<le> s * D" using assms(3) D by simp
  then have p: "0 \<le> binary64 (s * D)" by (rule binary64_nonneg)
  have "s * D \<le> 1 * D" using assms(4) D by (intro mult_right_mono)
  then have "binary64 (s * D) \<le> binary64 D" by (intro binary64_mono) simp
  then have q: "binary64 (s * D) \<le> D" by (simp add: D_def)
  have "binary64 min_s \<le> binary64 (min_s + binary64 (s * D))"
    using p by (intro binary64_mono) simp
  then show "min_s \<le> binary64 (min_s + binary64 (s * binary64 (max_s - min_s)))"
    using assms(1) by (simp add: is_double_def D_def)
  show "binary64 (min_s + binary64 (s * binary64 (max_s - min_s))) \<le>
         binary64 (min_s + binary64 (max_s - min_s))"
    unfolding D_def [symmetric] using q by (intro binary64_mono) simp
qed

text \<open>The value for the scalar \<open>1\<close> exceeds \<open>max\<close> by two rounding errors at most.\<close>

lemma top_delay_bound:
  assumes "is_double min_s" and "is_double max_s" and "0 < min_s" and "min_s < max_s"
  shows "binary64 (min_s + binary64 (max_s - min_s)) \<le> max_s * (1 + 1 / 2 ^ 53) ^ 2"
proof -
  define u :: real where "u = 1 / 2 ^ 53"
  have u: "0 < u" by (simp add: u_def)
  define D where "D = binary64 (max_s - min_s)"
  have D0: "0 \<le> D" unfolding D_def using assms(4) by (intro binary64_nonneg) simp
  have "binary64 (max_s + - min_s) \<le> (max_s + - min_s) * (1 + 1 / 2 ^ 53)"
    using assms by (intro binary64_add_le is_double_minus) simp_all
  then have D: "D \<le> (max_s - min_s) * (1 + u)" by (simp add: D_def u_def)
  have "u * (max_s - min_s) \<le> u * max_s"
    using u assms(3) by (intro mult_left_mono) simp_all
  with D have s: "min_s + D \<le> max_s * (1 + u)" by (simp add: algebra_simps)
  have "binary64 (min_s + D) \<le> (min_s + D) * (1 + 1 / 2 ^ 53)"
    using assms(1,3) D0 unfolding D_def by (intro binary64_add_le) simp_all
  also have "\<dots> \<le> (max_s * (1 + u)) * (1 + u)"
    unfolding u_def [symmetric] using s u by (intro mult_right_mono) simp_all
  also have "\<dots> = max_s * (1 + u) ^ 2" by (simp add: power2_eq_square)
  finally show ?thesis by (simp add: D_def u_def)
qed

text \<open>
  C2 (as stated): for \<open>0 < min < max < 3600\<close> the sampled delay is in the half-open
  interval \<open>[min, max)\<close>. This fails: the draw is divided by \<^verbatim>\<open>UINT_MAX\<close>, so the draw
  \<^verbatim>\<open>UINT_MAX\<close> gives the scalar \<open>1\<close>, and for \<open>min = 2\<close>, \<open>max = 7\<close> the delay \<open>7\<close>
  (every intermediate value, \<open>4294967295\<close>, \<open>1\<close>, \<open>5\<close>, \<open>7\<close>, is a double, so no operation
  rounds).
\<close>

theorem C2_counterexample:
  "\<not> (fst (GetRandomDelaySeconds env_quiet 2 7 st0) < 7)"
  by (simp add: GetRandomDelaySeconds_def env_quiet_def st0_def UINT_MAX_def Let_def)

text \<open>
  Rounding moves the upper end as well. For the doubles nearest to \<open>0.3\<close> and \<open>0.9\<close> the
  draw \<^verbatim>\<open>UINT_MAX\<close> gives a delay above \<open>max\<close>: the difference is rounded up to
  \<open>5404319552844596 / 2\<^sup>5\<^sup>3\<close>, the sum is rounded up again, and the result is the double
  after \<open>max\<close> (printed \<^verbatim>\<open>0.9000000000000001\<close>). And for \<open>min = 1\<close> and the double
  after it, \<open>max = 1 + 2\<^sup>-\<^sup>5\<^sup>2\<close>, the draw \<open>2\<^sup>3\<^sup>1\<close> already gives \<open>max\<close>. So neither \<open>\<le> max\<close>
  for every draw nor \<open>< max\<close> for every draw but \<^verbatim>\<open>UINT_MAX\<close> holds of the program.
\<close>

lemma GetRandomDelaySeconds_above_max:
  "fst (GetRandomDelaySeconds env_quiet (binary64 (3 / 10)) (binary64 (9 / 10)) st0) =
     8106479329266894 / 2 ^ 53 \<and>
   binary64 (9 / 10) = 8106479329266893 / 2 ^ 53 \<and>
   binary64 (9 / 10) < fst (GetRandomDelaySeconds env_quiet (binary64 (3 / 10)) (binary64 (9 / 10)) st0)"
proof -
  define m M where "m = binary64 (3 / 10)" and "M = binary64 (9 / 10)"
  have m: "m = 5404319552844595 / 2 ^ 54" unfolding m_def by (rule binary64_three_tenths)
  have M: "M = 8106479329266893 / 2 ^ 53" unfolding M_def by (rule binary64_nine_tenths)
  have lt: "m < M" unfolding m M by simp
  have sub: "M - m = 10808639105689191 / 2 ^ 54" unfolding m M by simp
  have D: "binary64 (M - m) = 5404319552844596 / 2 ^ 53"
    unfolding sub
    by (subst binary64_eval [of 1021]) (simp_all add: round_half_even_def two_1074_def)
  have add: "m + 5404319552844596 / 2 ^ 53 = 16212958658533787 / 2 ^ 54"
    unfolding m by simp
  have U: "binary64 (m + binary64 (M - m)) = 8106479329266894 / 2 ^ 53"
    unfolding D add
    by (subst binary64_eval [of 1021]) (simp_all add: round_half_even_def two_1074_def)
  have top: "random_draw env_quiet (n_random st0) = UINT_MAX"
    by (simp add: random_draw_def env_quiet_def UINT_MAX_def)
  have v: "fst (GetRandomDelaySeconds env_quiet m M st0) = 8106479329266894 / 2 ^ 53"
    unfolding GetRandomDelaySeconds_value random_value_top [OF top lt] by (rule U)
  have gt: "M < 8106479329266894 / 2 ^ 53" unfolding M by simp
  have above: "M < fst (GetRandomDelaySeconds env_quiet m M st0)"
    unfolding v by (rule gt)
  show ?thesis
    unfolding m_def [symmetric] M_def [symmetric] by (intro conjI v M above)
qed

lemma GetRandomDelaySeconds_reaches_max_early:
  "is_double (1 + 1 / 2 ^ 52) \<and>
   random_draw env_half (n_random st0) \<noteq> UINT_MAX \<and>
   fst (GetRandomDelaySeconds env_half 1 (1 + 1 / 2 ^ 52) st0) = 1 + 1 / 2 ^ 52"
proof -
  define M :: real where "M = 1 + 1 / 2 ^ 52"
  have M: "binary64 M = M"
    unfolding M_def
    by (subst binary64_eval [of 1022]) (simp_all add: round_half_even_def two_1074_def)
  have lt: "1 < M" by (simp add: M_def)
  have sub: "M - 1 = 1 / 2 ^ 52" by (simp add: M_def)
  have D: "binary64 (M - 1) = 1 / 2 ^ 52"
    unfolding sub
    by (subst binary64_eval [of 970]) (simp_all add: round_half_even_def two_1074_def)
  have draw: "random_draw env_half (n_random st0) = 0x80000000"
    by (simp add: random_draw_def env_half_def env_quiet_def)
  have q: "real (unat (0x80000000 :: 32 word)) / real (unat UINT_MAX) = 2147483648 / 4294967295"
    by (simp add: UINT_MAX_def)
  have s: "binary64 (2147483648 / 4294967295) = 4503599628419072 / 2 ^ 53"
    by (subst binary64_eval [of 1021]) (simp_all add: round_half_even_def two_1074_def)
  have mul: "4503599628419072 / 2 ^ 53 * (1 / 2 ^ 52) = (4503599628419072 / 2 ^ 105 :: real)"
    by simp
  have p: "binary64 (4503599628419072 / 2 ^ 105) = 4503599628419072 / 2 ^ 105"
    by (subst binary64_eval [of 969]) (simp_all add: round_half_even_def two_1074_def)
  have r: "binary64 (1 + 4503599628419072 / 2 ^ 105) = M"
    unfolding M_def
    by (subst binary64_eval [of 1022]) (simp_all add: round_half_even_def two_1074_def)
  have v: "fst (GetRandomDelaySeconds env_half 1 M st0) = M"
    unfolding GetRandomDelaySeconds_value random_value_unfold [OF lt] draw q s D mul p
    by (rule r)
  have other: "random_draw env_half (n_random st0) \<noteq> UINT_MAX"
    unfolding draw by (simp add: UINT_MAX_def)
  have dbl: "is_double M" using M by (simp add: is_double_def)
  show ?thesis
    unfolding M_def [symmetric] by (intro conjI dbl other v)
qed

text \<open>
  C2 (amended): for doubles \<open>0 < min < max < 3600\<close> the sampled delay is never below
  \<open>min\<close> and never above the value the draw \<^verbatim>\<open>UINT_MAX\<close> gives, which is
  \<open>binary64 (min + binary64 (max - min))\<close>. This value is \<open>max\<close> whenever \<open>max - min\<close> is a
  double (as for \<open>2\<close> and \<open>7\<close>), and at most \<open>max \<cdot> (1 + 2\<^sup>-\<^sup>5\<^sup>3)\<^sup>2\<close> in any case. The draw \<open>0\<close>
  gives \<open>min\<close>.
\<close>

theorem C2_GetRandomDelaySeconds_range:
  assumes "is_double min_s" and "is_double max_s"
    and "0 < min_s" and "min_s < max_s" and "max_s < 3600"
  shows "min_s \<le> fst (GetRandomDelaySeconds env min_s max_s st) \<and>
         fst (GetRandomDelaySeconds env min_s max_s st) \<le>
           binary64 (min_s + binary64 (max_s - min_s)) \<and>
         binary64 (min_s + binary64 (max_s - min_s)) \<le> max_s * (1 + 1 / 2 ^ 53) ^ 2 \<and>
         (is_double (max_s - min_s) \<longrightarrow>
            binary64 (min_s + binary64 (max_s - min_s)) = max_s) \<and>
         (random_draw env (n_random st) = UINT_MAX \<longrightarrow>
            fst (GetRandomDelaySeconds env min_s max_s st) =
              binary64 (min_s + binary64 (max_s - min_s))) \<and>
         (random_draw env (n_random st) = 0 \<longrightarrow>
            fst (GetRandomDelaySeconds env min_s max_s st) = min_s)"
proof -
  let ?v = "random_draw env (n_random st)"
  let ?s = "binary64 (real (unat ?v) / real (unat UINT_MAX))"
  have r: "fst (GetRandomDelaySeconds env min_s max_s st) =
             binary64 (min_s + binary64 (?s * binary64 (max_s - min_s)))"
    using assms(4) by (simp add: GetRandomDelaySeconds_value random_value_def)
  have s: "0 \<le> ?s" "?s \<le> 1" using rounded_scale_bounds [of ?v] by simp_all
  have lo: "min_s \<le> fst (GetRandomDelaySeconds env min_s max_s st)"
    unfolding r by (rule scaled_delay_bounds(1) [OF assms(1,4) s])
  have hi: "fst (GetRandomDelaySeconds env min_s max_s st) \<le>
           binary64 (min_s + binary64 (max_s - min_s))"
    unfolding r by (rule scaled_delay_bounds(2) [OF assms(1,4) s])
  have top: "binary64 (min_s + binary64 (max_s - min_s)) \<le> max_s * (1 + 1 / 2 ^ 53) ^ 2"
    by (rule top_delay_bound [OF assms(1,2,3,4)])
  have exact: "binary64 (min_s + binary64 (max_s - min_s)) = max_s"
    if "is_double (max_s - min_s)"
    using that assms(2) by (simp add: is_double_def)
  have last: "fst (GetRandomDelaySeconds env min_s max_s st) =
              binary64 (min_s + binary64 (max_s - min_s))"
    if "?v = UINT_MAX"
    unfolding r that by (simp add: UINT_MAX_def)
  have first: "fst (GetRandomDelaySeconds env min_s max_s st) = min_s"
    if "?v = 0"
    unfolding r that using assms(1) by (simp add: is_double_def)
  from lo hi top exact last first show ?thesis by blast
qed

theorem C2_witness:
  "is_double 2 \<and> is_double 7 \<and> (0::real) < 2 \<and> (2::real) < 7 \<and> (7::real) < 3600 \<and>
   is_double (7 - 2) \<and> random_draw env_quiet (n_random st0) = UINT_MAX \<and>
   2 \<le> fst (GetRandomDelaySeconds env_quiet 2 7 st0) \<and>
   fst (GetRandomDelaySeconds env_quiet 2 7 st0) \<le> binary64 (2 + binary64 (7 - 2)) \<and>
   binary64 (2 + binary64 (7 - 2)) \<le> 7 * (1 + 1 / 2 ^ 53) ^ 2 \<and>
   binary64 (2 + binary64 (7 - 2)) = 7 \<and>
   fst (GetRandomDelaySeconds env_quiet 2 7 st0) = binary64 (2 + binary64 (7 - 2)) \<and>
   random_draw env_alt_once (Suc (n_random st0)) = 0 \<and>
   fst (GetRandomDelaySeconds env_alt_once 2 7 (st0\<lparr>n_random := Suc (n_random st0)\<rparr>)) = 2"
proof -
  have h: "is_double 2" "is_double 7" "(0::real) < 2" "(2::real) < 7" "(7::real) < 3600"
    by (simp_all add: is_double_def)
  have e: "is_double (7 - 2)" "random_draw env_quiet (n_random st0) = UINT_MAX"
    "random_draw env_alt_once (n_random (st0\<lparr>n_random := Suc (n_random st0)\<rparr>)) = 0"
    by (simp_all add: is_double_def random_draw_def env_quiet_def env_alt_once_def st0_def
        UINT_MAX_def)
  show ?thesis
    using h e C2_GetRandomDelaySeconds_range [OF h, of env_quiet st0]
      C2_GetRandomDelaySeconds_range [OF h, of env_alt_once "st0\<lparr>n_random := Suc (n_random st0)\<rparr>"]
    by simp
qed

subsection \<open>The configuration loader\<close>

lemma trim_end_numeral:
  "trim_end str (numeral k) =
     (if isspace (str ! numeral k) then trim_end str (pred_numeral k) else numeral k)"
  by (simp add: numeral_eq_Suc)

lemma process_config_line_bounds:
  assumes "0 < g_min_delay_seconds st \<and> g_min_delay_seconds st < 3600 \<and>
           0 < g_max_delay_seconds st \<and> g_max_delay_seconds st < 3600"
  shows "0 < g_min_delay_seconds (process_config_line atof line st) \<and>
         g_min_delay_seconds (process_config_line atof line st) < 3600 \<and>
         0 < g_max_delay_seconds (process_config_line atof line st) \<and>
         g_max_delay_seconds (process_config_line atof line st) < 3600"
  using assms
  by (simp add: process_config_line_def Let_def LogDebug_def LogWarning_def emit_def
      split: list.split option.split cdouble.split prod.split)

lemma read_lines_bounds:
  assumes "0 < g_min_delay_seconds st \<and> g_min_delay_seconds st < 3600 \<and>
           0 < g_max_delay_seconds st \<and> g_max_delay_seconds st < 3600"
  shows "0 < g_min_delay_seconds (fold (\<lambda>line. process_config_line atof (c_str line)) lines st) \<and>
         g_min_delay_seconds (fold (\<lambda>line. process_config_line atof (c_str line)) lines st) < 3600 \<and>
         0 < g_max_delay_seconds (fold (\<lambda>line. process_config_line atof (c_str line)) lines st) \<and>
         g_max_delay_seconds (fold (\<lambda>line. process_config_line atof (c_str line)) lines st) < 3600"
  using assms
proof (induction lines arbitrary: st)
  case Nil
  then show ?case by simp
next
  case (Cons l ls)
  show ?case
    using Cons.IH [OF process_config_line_bounds [OF Cons.prems, of atof "c_str l"]] by simp
qed

lemma LoadConfiguration_bounds:
  "g_min_delay_seconds (LoadConfiguration atof configFile can_create st) \<le>
     g_max_delay_seconds (LoadConfiguration atof configFile can_create st) \<and>
   0 < g_min_delay_seconds (LoadConfiguration atof configFile can_create st) \<and>
   g_min_delay_seconds (LoadConfiguration atof configFile can_create st) < 3600 \<and>
   0 < g_max_delay_seconds (LoadConfiguration atof configFile can_create st) \<and>
   g_max_delay_seconds (LoadConfiguration atof configFile can_create st) < 3600"
proof (cases configFile)
  case None
  then show ?thesis
    by (simp add: LoadConfiguration_def CreateDefaultConfigFile_def LogInfo_def LogWarning_def
        printf_def emit_def DEFAULT_MIN_DELAY_S_def DEFAULT_MAX_DELAY_S_def Let_def)
next
  case (Some content)
  define st2 where "st2 = LogInfo ''LoadConfig: Reading configuration from '%s'.''
     (st\<lparr>g_min_delay_seconds := DEFAULT_MIN_DELAY_S, g_max_delay_seconds := DEFAULT_MAX_DELAY_S\<rparr>)"
  have "0 < g_min_delay_seconds st2 \<and> g_min_delay_seconds st2 < 3600 \<and>
        0 < g_max_delay_seconds st2 \<and> g_max_delay_seconds st2 < 3600"
    by (simp add: st2_def LogInfo_def emit_def DEFAULT_MIN_DELAY_S_def DEFAULT_MAX_DELAY_S_def)
  from read_lines_bounds [OF this, of atof "fgets_lines 255 [] content"]
  have b: "0 < g_min_delay_seconds (read_config_lines atof content st2) \<and>
        g_min_delay_seconds (read_config_lines atof content st2) < 3600 \<and>
        0 < g_max_delay_seconds (read_config_lines atof content st2) \<and>
        g_max_delay_seconds (read_config_lines atof content st2) < 3600"
    by (simp add: read_config_lines_def)
  show ?thesis
    using b
    by (simp add: Some LoadConfiguration_def Let_def st2_def [symmetric] printf_def LogWarning_def
        emit_def)
qed

lemma lines_swapped:
  "fgets_lines 255 [] config_swapped = [''min_delay=10\<newline>'', ''max_delay=5\<newline>'']"
  by (simp add: config_swapped_def)

lemma line_min_10:
  "process_config_line atof_decimal (c_str ''min_delay=10\<newline>'') st =
     LogDebug ''LoadConfig: Loaded min_delay = %.2f'' (st\<lparr>g_min_delay_seconds := 10\<rparr>)"
  by (simp add: process_config_line_def c_str_def TrimWhitespace_def trim_end_numeral isspace_def
      sscanf_key_value_def atof_decimal_def is_digit_def Let_def)


lemma line_max_5:
  "process_config_line atof_decimal (c_str ''max_delay=5\<newline>'') st =
     LogDebug ''LoadConfig: Loaded max_delay = %.2f'' (st\<lparr>g_max_delay_seconds := 5\<rparr>)"
  by (simp add: process_config_line_def c_str_def TrimWhitespace_def trim_end_numeral isspace_def
      sscanf_key_value_def atof_decimal_def is_digit_def Let_def)

lemma LoadConfiguration_swapped:
  "LoadConfiguration atof_decimal (Some config_swapped) can_create st =
     st\<lparr>g_min_delay_seconds := 5, g_max_delay_seconds := 10,
        trace := trace st @
          [LogLine INFO ''LoadConfig: Reading configuration from '%s'.'',
           LogLine DEBUG ''LoadConfig: Loaded min_delay = %.2f'',
           LogLine DEBUG ''LoadConfig: Loaded max_delay = %.2f'',
           Printf ''Warning: min_delay (%.1fs) in config is greater than max_delay (%.1fs). Swapping them.'',
           LogLine WARNING ''LoadConfig: min_delay > max_delay. Swapping. Min: %.2f, Max: %.2f'',
           Printf ''Info: Using delays - Min: %.1fs, Max: %.1fs (from '%s').'']\<rparr>"
  by (simp add: LoadConfiguration_def read_config_lines_def lines_swapped line_min_10 line_max_5
      Let_def LogInfo_def LogDebug_def LogWarning_def printf_def emit_def)

text \<open>
  C8: after \<^verbatim>\<open>LoadConfiguration\<close> has returned, whatever the file contains (or when
  there is none) and whatever \<^verbatim>\<open>atof\<close> answers, the delay bounds satisfy \<open>min \<le> max\<close> and
  both lie strictly between \<open>0\<close> and \<open>3600\<close>. When the reading loop leaves
  \<open>min > max\<close>, the two values are exchanged and the warning
  \<^verbatim>\<open>LoadConfig: min_delay > max_delay. Swapping.\<close> is logged. In particular the file
  \<^verbatim>\<open>min_delay=10\<close>, \<^verbatim>\<open>max_delay=5\<close> gives the bounds \<open>(5, 10)\<close> and that warning.
\<close>

theorem C8_delay_bounds_after_load:
  "(g_min_delay_seconds (LoadConfiguration atof configFile can_create st) \<le>
      g_max_delay_seconds (LoadConfiguration atof configFile can_create st) \<and>
    0 < g_min_delay_seconds (LoadConfiguration atof configFile can_create st) \<and>
    g_min_delay_seconds (LoadConfiguration atof configFile can_create st) < 3600 \<and>
    0 < g_max_delay_seconds (LoadConfiguration atof configFile can_create st) \<and>
    g_max_delay_seconds (LoadConfiguration atof configFile can_create st) < 3600) \<and>
   (let st2 = LogInfo ''LoadConfig: Reading configuration from '%s'.''
                (st\<lparr>g_min_delay_seconds := DEFAULT_MIN_DELAY_S,
                    g_max_delay_seconds := DEFAULT_MAX_DELAY_S\<rparr>);
        st3 = read_config_lines atof content st2;
        st' = LoadConfiguration atof (Some content) can_create st
    in g_min_delay_seconds st3 > g_max_delay_seconds st3 \<longrightarrow>
         g_min_delay_seconds st' = g_max_delay_seconds st3 \<and>
         g_max_delay_seconds st' = g_min_delay_seconds st3 \<and>
         LogLine WARNING ''LoadConfig: min_delay > max_delay. Swapping. Min: %.2f, Max: %.2f''
           \<in> set (new_events st3 st')) \<and>
   g_min_delay_seconds (LoadConfiguration atof_decimal (Some config_swapped) can_create st) = 5 \<and>
   g_max_delay_seconds (LoadConfiguration atof_decimal (Some config_swapped) can_create st) = 10 \<and>
   LogLine WARNING ''LoadConfig: min_delay > max_delay. Swapping. Min: %.2f, Max: %.2f''
     \<in> set (new_events st (LoadConfiguration atof_decimal (Some config_swapped) can_create st))"
proof -
  have swap: "let st2 = LogInfo ''LoadConfig: Reading configuration from '%s'.''
                (st\<lparr>g_min_delay_seconds := DEFAULT_MIN_DELAY_S,
                    g_max_delay_seconds := DEFAULT_MAX_DELAY_S\<rparr>);
        st3 = read_config_lines atof content st2;
        st' = LoadConfiguration atof (Some content) can_create st
    in g_min_delay_seconds st3 > g_max_delay_seconds st3 \<longrightarrow>
         g_min_delay_seconds st' = g_max_delay_seconds st3 \<and>
         g_max_delay_seconds st' = g_min_delay_seconds st3 \<and>
         LogLine WARNING ''LoadConfig: min_delay > max_delay. Swapping. Min: %.2f, Max: %.2f''
           \<in> set (new_events st3 st')"
    by (simp add: LoadConfiguration_def Let_def printf_def LogWarning_def emit_def new_events_def)
  have ex: "g_min_delay_seconds (LoadConfiguration atof_decimal (Some config_swapped) can_create st) = 5"
    "g_max_delay_seconds (LoadConfiguration atof_decimal (Some config_swapped) can_create st) = 10"
    "LogLine WARNING ''LoadConfig: min_delay > max_delay. Swapping. Min: %.2f, Max: %.2f''
     \<in> set (new_events st (LoadConfiguration atof_decimal (Some config_swapped) can_create st))"
    by (simp_all add: LoadConfiguration_swapped new_events_def)
  show ?thesis
    using LoadConfiguration_bounds [of atof configFile can_create st] swap ex by blast
qed

theorem C8_witness:
  "(let st2 = LogInfo ''LoadConfig: Reading configuration from '%s'.''
                (st0\<lparr>g_min_delay_seconds := DEFAULT_MIN_DELAY_S,
                    g_max_delay_seconds := DEFAULT_MAX_DELAY_S\<rparr>);
        st3 = read_config_lines atof_decimal config_swapped st2;
        st' = LoadConfiguration atof_decimal (Some config_swapped) True st0
    in g_min_delay_seconds st3 > g_max_delay_seconds st3 \<and>
       g_min_delay_seconds st' = g_max_delay_seconds st3 \<and>
       g_max_delay_seconds st' = g_min_delay_seconds st3 \<and>
       g_min_delay_seconds st' = 5 \<and> g_max_delay_seconds st' = 10 \<and>
       g_min_delay_seconds st' \<le> g_max_delay_seconds st' \<and>
       LogLine WARNING ''LoadConfig: min_delay > max_delay. Swapping. Min: %.2f, Max: %.2f''
         \<in> set (new_events st3 st'))"
proof -
  have r: "g_min_delay_seconds (read_config_lines atof_decimal config_swapped
      (LogInfo ''LoadConfig: Reading configuration from '%s'.''
         (st0\<lparr>g_min_delay_seconds := DEFAULT_MIN_DELAY_S,
              g_max_delay_seconds := DEFAULT_MAX_DELAY_S\<rparr>))) = 10"
    "g_max_delay_seconds (read_config_lines atof_decimal config_swapped
      (LogInfo ''LoadConfig: Reading configuration from '%s'.''
         (st0\<lparr>g_min_delay_seconds := DEFAULT_MIN_DELAY_S,
              g_max_delay_seconds := DEFAULT_MAX_DELAY_S\<rparr>))) = 5"
    by (simp_all add: read_config_lines_def lines_swapped line_min_10 line_max_5 LogInfo_def
        LogDebug_def emit_def)
  show ?thesis
    using C8_delay_bounds_after_load [of atof_decimal "Some config_swapped" True st0 config_swapped]
    by (simp add: Let_def r)
qed

lemma accept_invalid: "\<not> valid_delay w \<Longrightarrow> accept_value d w = d"
  by (cases w) auto

lemma foldl_accept_invalid:
  "\<forall>w \<in> set ws. \<not> valid_delay w \<Longrightarrow> foldl accept_value d ws = d"
  by (induction ws arbitrary: d) (simp_all add: accept_invalid)

lemma foldl_accept_last_valid:
  assumes "valid_delay (Finite v)" "\<forall>w \<in> set ws'. \<not> valid_delay w"
  shows "foldl accept_value d (ws @ Finite v # ws') = v"
  using assms by (simp add: foldl_accept_invalid)

lemma process_config_line_min:
  "g_min_delay_seconds (process_config_line atof line st) =
     (case config_line_entry atof line of
        None \<Rightarrow> g_min_delay_seconds st
      | Some (k, w) \<Rightarrow>
          if k = ''min_delay'' then accept_value (g_min_delay_seconds st) w
          else g_min_delay_seconds st)"
  by (simp add: process_config_line_def config_line_entry_def Let_def LogDebug_def
      LogWarning_def emit_def
      split: list.split option.split cdouble.split prod.split)

lemma process_config_line_max:
  "g_max_delay_seconds (process_config_line atof line st) =
     (case config_line_entry atof line of
        None \<Rightarrow> g_max_delay_seconds st
      | Some (k, w) \<Rightarrow>
          if k = ''max_delay'' then accept_value (g_max_delay_seconds st) w
          else g_max_delay_seconds st)"
  by (simp add: process_config_line_def config_line_entry_def Let_def LogDebug_def
      LogWarning_def emit_def
      split: list.split option.split cdouble.split prod.split)

lemma process_config_line_delay:
  assumes "key = ''min_delay'' \<or> key = ''max_delay''"
  shows "delay_of key (process_config_line atof line st) =
     (case config_line_entry atof line of
        None \<Rightarrow> delay_of key st
      | Some (k, w) \<Rightarrow>
          if k = key then accept_value (delay_of key st) w else delay_of key st)"
  using assms
  by (auto simp add: delay_of_def process_config_line_min process_config_line_max
      split: option.split prod.split)

lemma fold_delay:
  assumes "key = ''min_delay'' \<or> key = ''max_delay''"
  shows "delay_of key (fold (process_config_line atof) lines st) =
         foldl accept_value (delay_of key st) (key_values atof key lines)"
proof (induction lines arbitrary: st)
  case Nil
  then show ?case by (simp add: key_values_def List.map_filter_simps)
next
  case (Cons l ls)
  show ?case
    by (simp add: Cons.IH process_config_line_delay [OF assms] key_values_def
        List.map_filter_simps split: option.split prod.split)
qed

lemma process_config_line_trace:
  "\<exists>es. trace (process_config_line atof line st) = trace st @ es \<and>
        (\<forall>w. (key = ''min_delay'' \<or> key = ''max_delay'') \<and>
             config_line_entry atof line = Some (key, w) \<and> \<not> valid_delay w \<longrightarrow>
             invalid_value_warning key \<in> set es)"
  by (auto simp add: process_config_line_def config_line_entry_def Let_def LogDebug_def
      LogWarning_def emit_def invalid_value_warning_def
      split: list.split option.split cdouble.split prod.split)

lemma fold_trace:
  "\<exists>es. trace (fold (process_config_line atof) lines st) = trace st @ es \<and>
        ((key = ''min_delay'' \<or> key = ''max_delay'') \<and>
         (\<exists>w \<in> set (key_values atof key lines). \<not> valid_delay w) \<longrightarrow>
         invalid_value_warning key \<in> set es)"
proof (induction lines arbitrary: st)
  case Nil
  then show ?case by (simp add: key_values_def List.map_filter_simps)
next
  case (Cons l ls)
  obtain es1 where 1: "trace (process_config_line atof l st) = trace st @ es1"
    and w1: "\<And>w. (key = ''min_delay'' \<or> key = ''max_delay'') \<Longrightarrow>
               config_line_entry atof l = Some (key, w) \<Longrightarrow> \<not> valid_delay w \<Longrightarrow>
               invalid_value_warning key \<in> set es1"
    using process_config_line_trace [of atof l st key] by blast
  obtain es2 where 2: "trace (fold (process_config_line atof) ls (process_config_line atof l st)) =
        trace (process_config_line atof l st) @ es2"
    and w2: "(key = ''min_delay'' \<or> key = ''max_delay'') \<Longrightarrow>
             \<exists>w \<in> set (key_values atof key ls). \<not> valid_delay w \<Longrightarrow>
             invalid_value_warning key \<in> set es2"
    using Cons.IH [of "process_config_line atof l st"] by blast
  have t: "trace (fold (process_config_line atof) (l # ls) st) = trace st @ (es1 @ es2)"
    using 1 2 by simp
  have "invalid_value_warning key \<in> set (es1 @ es2)"
    if k: "key = ''min_delay'' \<or> key = ''max_delay''"
      and b: "\<exists>w \<in> set (key_values atof key (l # ls)). \<not> valid_delay w"
  proof (cases "\<exists>w \<in> set (key_values atof key ls). \<not> valid_delay w")
    case True
    then show ?thesis using w2 [OF k] by simp
  next
    case False
    with b obtain w where "config_line_entry atof l = Some (key, w)" "\<not> valid_delay w"
      by (auto simp add: key_values_def List.map_filter_simps
          split: option.splits prod.splits if_splits)
    then show ?thesis using w1 [OF k] by simp
  qed
  with t show ?case by blast
qed

lemma read_config_lines_fold:
  "read_config_lines atof content st =
     fold (process_config_line atof) (map c_str (fgets_lines 255 [] content)) st"
  by (simp add: read_config_lines_def fold_map comp_def)

lemma read_config_lines_delay:
  assumes "key = ''min_delay'' \<or> key = ''max_delay''"
  shows "delay_of key (read_config_lines atof content st) =
         foldl accept_value (delay_of key st)
           (key_values atof key (map c_str (fgets_lines 255 [] content)))"
  unfolding read_config_lines_fold by (rule fold_delay [OF assms])

lemma LoadConfiguration_Some_delays:
  "g_min_delay_seconds (LoadConfiguration atof (Some content) can_create st) =
     min (g_min_delay_seconds (read_config_lines atof content
            (LogInfo ''LoadConfig: Reading configuration from '%s'.''
               (st\<lparr>g_min_delay_seconds := DEFAULT_MIN_DELAY_S,
                   g_max_delay_seconds := DEFAULT_MAX_DELAY_S\<rparr>))))
         (g_max_delay_seconds (read_config_lines atof content
            (LogInfo ''LoadConfig: Reading configuration from '%s'.''
               (st\<lparr>g_min_delay_seconds := DEFAULT_MIN_DELAY_S,
                   g_max_delay_seconds := DEFAULT_MAX_DELAY_S\<rparr>))))"
  "g_max_delay_seconds (LoadConfiguration atof (Some content) can_create st) =
     max (g_min_delay_seconds (read_config_lines atof content
            (LogInfo ''LoadConfig: Reading configuration from '%s'.''
               (st\<lparr>g_min_delay_seconds := DEFAULT_MIN_DELAY_S,
                   g_max_delay_seconds := DEFAULT_MAX_DELAY_S\<rparr>))))
         (g_max_delay_seconds (read_config_lines atof content
            (LogInfo ''LoadConfig: Reading configuration from '%s'.''
               (st\<lparr>g_min_delay_seconds := DEFAULT_MIN_DELAY_S,
                   g_max_delay_seconds := DEFAULT_MAX_DELAY_S\<rparr>))))"
  by (simp_all add: LoadConfiguration_def Let_def printf_def LogWarning_def emit_def)

lemma LoadConfiguration_Some_trace:
  "\<exists>es. trace (LoadConfiguration atof (Some content) can_create st) =
          trace (read_config_lines atof content
            (LogInfo ''LoadConfig: Reading configuration from '%s'.''
               (st\<lparr>g_min_delay_seconds := DEFAULT_MIN_DELAY_S,
                   g_max_delay_seconds := DEFAULT_MAX_DELAY_S\<rparr>))) @ es"
  by (simp add: LoadConfiguration_def Let_def printf_def LogWarning_def emit_def)

text \<open>
  The bounds \<^verbatim>\<open>LoadConfiguration\<close> returns, from the values the file gives to each key:
  the two delays the reading loop leaves, starting from the defaults, in ascending order.
\<close>

lemma LoadConfiguration_Some_bounds:
  "g_min_delay_seconds (LoadConfiguration atof (Some content) can_create st) =
     min (foldl accept_value DEFAULT_MIN_DELAY_S
            (key_values atof ''min_delay'' (map c_str (fgets_lines 255 [] content))))
         (foldl accept_value DEFAULT_MAX_DELAY_S
            (key_values atof ''max_delay'' (map c_str (fgets_lines 255 [] content))))"
  "g_max_delay_seconds (LoadConfiguration atof (Some content) can_create st) =
     max (foldl accept_value DEFAULT_MIN_DELAY_S
            (key_values atof ''min_delay'' (map c_str (fgets_lines 255 [] content))))
         (foldl accept_value DEFAULT_MAX_DELAY_S
            (key_values atof ''max_delay'' (map c_str (fgets_lines 255 [] content))))"
proof -
  define st2 where "st2 = LogInfo ''LoadConfig: Reading configuration from '%s'.''
               (st\<lparr>g_min_delay_seconds := DEFAULT_MIN_DELAY_S,
                   g_max_delay_seconds := DEFAULT_MAX_DELAY_S\<rparr>)"
  have d: "delay_of ''min_delay'' st2 = DEFAULT_MIN_DELAY_S"
    "delay_of ''max_delay'' st2 = DEFAULT_MAX_DELAY_S"
    by (simp_all add: st2_def delay_of_def LogInfo_def emit_def)
  have a: "g_min_delay_seconds (read_config_lines atof content st2) =
      foldl accept_value DEFAULT_MIN_DELAY_S
        (key_values atof ''min_delay'' (map c_str (fgets_lines 255 [] content)))"
    using read_config_lines_delay [of "''min_delay''" atof content st2]
    unfolding d by (simp add: delay_of_def)
  have b: "g_max_delay_seconds (read_config_lines atof content st2) =
      foldl accept_value DEFAULT_MAX_DELAY_S
        (key_values atof ''max_delay'' (map c_str (fgets_lines 255 [] content)))"
    using read_config_lines_delay [of "''max_delay''" atof content st2]
    unfolding d by (simp add: delay_of_def)
  show "g_min_delay_seconds (LoadConfiguration atof (Some content) can_create st) =
     min (foldl accept_value DEFAULT_MIN_DELAY_S
            (key_values atof ''min_delay'' (map c_str (fgets_lines 255 [] content))))
         (foldl accept_value DEFAULT_MAX_DELAY_S
            (key_values atof ''max_delay'' (map c_str (fgets_lines 255 [] content))))"
    unfolding LoadConfiguration_Some_delays st2_def [symmetric] a b ..
  show "g_max_delay_seconds (LoadConfiguration atof (Some content) can_create st) =
     max (foldl accept_value DEFAULT_MIN_DELAY_S
            (key_values atof ''min_delay'' (map c_str (fgets_lines 255 [] content))))
         (foldl accept_value DEFAULT_MAX_DELAY_S
            (key_values atof ''max_delay'' (map c_str (fgets_lines 255 [] content))))"
    unfolding LoadConfiguration_Some_delays st2_def [symmetric] a b ..
qed

lemma process_config_line_rejected:
  assumes "key = ''min_delay'' \<or> key = ''max_delay''"
    and "config_line_entry atof line = Some (key, w)"
    and "\<not> valid_delay w"
  shows "process_config_line atof line s = emit (invalid_value_warning key) s"
  using assms
  by (cases w)
    (auto simp add: process_config_line_def config_line_entry_def Let_def LogWarning_def
      invalid_value_warning_def split: list.splits option.splits prod.splits if_splits)

lemma key_values_append:
  "key_values atof key (xs @ ys) = key_values atof key xs @ key_values atof key ys"
  by (simp add: key_values_def List.map_filter_def)

lemma key_values_Cons:
  "key_values atof key (l # ls) =
     (case config_line_entry atof l of
        None \<Rightarrow> key_values atof key ls
      | Some (k, w) \<Rightarrow> if k = key then w # key_values atof key ls else key_values atof key ls)"
  by (simp add: key_values_def List.map_filter_simps split: option.split prod.split)

lemma key_values_Nil [simp]: "key_values atof key [] = []"
  by (simp add: key_values_def List.map_filter_simps)

lemma lines_unparseable:
  "map c_str (fgets_lines 255 [] config_unparseable) = [''max_delay = abc\<newline>'', ''min_delay = 3\<newline>'']"
  by (simp add: config_unparseable_def c_str_def)

lemma lines_prior_value:
  "map c_str (fgets_lines 255 [] config_prior_value) =
     [''min_delay = 3\<newline>'', ''min_delay = 9999\<newline>'', ''max_delay = 5\<newline>'']"
  by (simp add: config_prior_value_def c_str_def)

lemma lines_reject_then_swap:
  "map c_str (fgets_lines 255 [] config_reject_then_swap) =
     [''min_delay = 9999\<newline>'', ''max_delay = 1\<newline>'']"
  by (simp add: config_reject_then_swap_def c_str_def)

lemma entry_min_9999:
  "config_line_entry atof_decimal ''min_delay = 9999\<newline>'' = Some (''min_delay'', Finite 9999)"
  by (simp add: config_line_entry_def TrimWhitespace_def trim_end_numeral isspace_def
      sscanf_key_value_def atof_decimal_def is_digit_def Let_def)

lemma entry_max_5:
  "config_line_entry atof_decimal ''max_delay = 5\<newline>'' = Some (''max_delay'', Finite 5)"
  by (simp add: config_line_entry_def TrimWhitespace_def trim_end_numeral isspace_def
      sscanf_key_value_def atof_decimal_def is_digit_def Let_def)

lemma entry_max_1:
  "config_line_entry atof_decimal ''max_delay = 1\<newline>'' = Some (''max_delay'', Finite 1)"
  by (simp add: config_line_entry_def TrimWhitespace_def trim_end_numeral isspace_def
      sscanf_key_value_def atof_decimal_def is_digit_def Let_def)

lemma entry_max_abc:
  "config_line_entry atof_decimal ''max_delay = abc\<newline>'' = Some (''max_delay'', Finite 0)"
  by (simp add: config_line_entry_def TrimWhitespace_def trim_end_numeral isspace_def
      sscanf_key_value_def atof_decimal_def is_digit_def Let_def)

lemma entry_min_3:
  "config_line_entry atof_decimal ''min_delay = 3\<newline>'' = Some (''min_delay'', Finite 3)"
  by (simp add: config_line_entry_def TrimWhitespace_def trim_end_numeral isspace_def
      sscanf_key_value_def atof_decimal_def is_digit_def Let_def)

lemmas entry_simps = entry_min_9999 entry_max_5 entry_max_1 entry_max_abc entry_min_3

text \<open>
  C9 (as stated): when one key has an out-of-range value, that key retains its default
  and the valid value of the other key takes effect. As a statement about the bounds in
  effect when \<^verbatim>\<open>LoadConfiguration\<close> returns, this fails: with \<^verbatim>\<open>min_delay = 9999\<close> and
  \<^verbatim>\<open>max_delay = 1\<close> the reading loop leaves the default minimum \<open>2\<close> and the maximum
  \<open>1\<close>, and the exchange of lines 370-377 makes the minimum \<open>1\<close> and the maximum \<open>2\<close>:
  the rejected key does not end with its default, and the value loaded for the other key
  is not the maximum in effect.
\<close>

theorem C9_counterexample:
  "key_values atof_decimal ''min_delay'' (map c_str (fgets_lines 255 [] config_reject_then_swap)) =
     [Finite 9999] \<and>
   \<not> valid_delay (Finite 9999) \<and>
   key_values atof_decimal ''max_delay'' (map c_str (fgets_lines 255 [] config_reject_then_swap)) =
     [Finite 1] \<and>
   valid_delay (Finite 1) \<and>
   g_min_delay_seconds (LoadConfiguration atof_decimal (Some config_reject_then_swap) True st0) = 1 \<and>
   g_min_delay_seconds (LoadConfiguration atof_decimal (Some config_reject_then_swap) True st0) \<noteq>
     DEFAULT_MIN_DELAY_S \<and>
   g_max_delay_seconds (LoadConfiguration atof_decimal (Some config_reject_then_swap) True st0) = 2 \<and>
   g_max_delay_seconds (LoadConfiguration atof_decimal (Some config_reject_then_swap) True st0) \<noteq> 1"
proof -
  have a: "key_values atof_decimal ''min_delay''
             (map c_str (fgets_lines 255 [] config_reject_then_swap)) = [Finite 9999]"
    "key_values atof_decimal ''max_delay''
             (map c_str (fgets_lines 255 [] config_reject_then_swap)) = [Finite 1]"
    unfolding lines_reject_then_swap by (simp_all add: key_values_Cons entry_simps)
  show ?thesis
    unfolding LoadConfiguration_Some_bounds a
    by (simp add: DEFAULT_MIN_DELAY_S_def DEFAULT_MAX_DELAY_S_def)
qed

text \<open>
  C9 (amended): rejection is per key in the reading loop (lines 334-367). A line that
  gives a key an out-of-range or unparseable value changes nothing but the log, which
  receives the warning \<^verbatim>\<open>Invalid value for ...\<close>; so after the loop that key has the value
  it would have without the line (its last valid value in the file, else the value from
  before the loop, which is the default), and the other key has its own last valid
  value. The bounds in effect when \<^verbatim>\<open>LoadConfiguration\<close> returns are these two values,
  exchanged when the minimum so obtained exceeds the maximum.
\<close>

theorem C9_rejected_value_per_key:
  assumes keys: "(key = ''min_delay'' \<and> other = ''max_delay'') \<or>
                 (key = ''max_delay'' \<and> other = ''min_delay'')"
    and split: "map c_str (fgets_lines 255 [] content) = pre @ bad # post"
    and bad: "config_line_entry atof bad = Some (key, w)"
    and invalid: "\<not> valid_delay w"
    and good: "key_values atof other (pre @ bad # post) = ws @ Finite v # ws'"
    and valid: "valid_delay (Finite v)"
    and rest: "\<forall>w \<in> set ws'. \<not> valid_delay w"
  shows "process_config_line atof bad s = emit (invalid_value_warning key) s \<and>
         read_config_lines atof content st =
           fold (process_config_line atof) post
             (emit (invalid_value_warning key) (fold (process_config_line atof) pre st)) \<and>
         delay_of key (read_config_lines atof content st) =
           foldl accept_value (delay_of key st) (key_values atof key (pre @ post)) \<and>
         delay_of other (read_config_lines atof content st) = v \<and>
         invalid_value_warning key
           \<in> set (new_events st (LoadConfiguration atof (Some content) can_create st)) \<and>
         (g_min_delay_seconds (LoadConfiguration atof (Some content) can_create st),
          g_max_delay_seconds (LoadConfiguration atof (Some content) can_create st)) =
           (let d = foldl accept_value (default_delay key) (key_values atof key (pre @ post));
                a = (if key = ''min_delay'' then d else v);
                b = (if key = ''min_delay'' then v else d)
            in if a \<le> b then (a, b) else (b, a))"
proof -
  have k: "key = ''min_delay'' \<or> key = ''max_delay''"
    and o: "other = ''min_delay'' \<or> other = ''max_delay''"
    using keys by auto
  have line: "process_config_line atof bad s = emit (invalid_value_warning key) s" for s
    by (rule process_config_line_rejected [OF k bad invalid])
  have loop: "read_config_lines atof content st =
           fold (process_config_line atof) post
             (emit (invalid_value_warning key) (fold (process_config_line atof) pre st))"
    unfolding read_config_lines_fold split by (simp add: line)
  have kv: "key_values atof key (pre @ bad # post) =
              key_values atof key pre @ w # key_values atof key post"
    by (simp add: key_values_append key_values_Cons bad)
  have kvb: "key_values atof key (bad # post) = w # key_values atof key post"
    by (simp add: key_values_Cons bad)
  have skip: "foldl accept_value d (key_values atof key (pre @ bad # post)) =
              foldl accept_value d (key_values atof key (pre @ post))" for d
    by (simp add: key_values_append kvb accept_invalid [OF invalid])
  have kept: "delay_of key (read_config_lines atof content s) =
           foldl accept_value (delay_of key s) (key_values atof key (pre @ post))" for s
    unfolding read_config_lines_delay [OF k] split by (rule skip)
  have loaded: "delay_of other (read_config_lines atof content s) = v" for s
    unfolding read_config_lines_delay [OF o] split good
    using valid rest by (rule foldl_accept_last_valid)
  define st2 where "st2 = LogInfo ''LoadConfig: Reading configuration from '%s'.''
               (st\<lparr>g_min_delay_seconds := DEFAULT_MIN_DELAY_S,
                   g_max_delay_seconds := DEFAULT_MAX_DELAY_S\<rparr>)"
  have t2: "trace st2 = trace st @ [LogLine INFO ''LoadConfig: Reading configuration from '%s'.'']"
    by (simp add: st2_def LogInfo_def emit_def)
  have "w \<in> set (key_values atof key (pre @ bad # post))" unfolding kv by simp
  with invalid have ex: "\<exists>w \<in> set (key_values atof key (pre @ bad # post)). \<not> valid_delay w"
    by blast
  obtain es where es: "trace (read_config_lines atof content st2) = trace st2 @ es"
    and w2: "invalid_value_warning key \<in> set es"
    using fold_trace [of atof "pre @ bad # post" st2 key] k ex
    unfolding read_config_lines_fold split by blast
  obtain es' where es': "trace (LoadConfiguration atof (Some content) can_create st) =
       trace (read_config_lines atof content st2) @ es'"
    using LoadConfiguration_Some_trace [of atof content can_create st]
    unfolding st2_def [symmetric] by blast
  have warned: "invalid_value_warning key
           \<in> set (new_events st (LoadConfiguration atof (Some content) can_create st))"
    using w2 by (simp add: new_events_def es' es t2)
  have d2: "delay_of key st2 = default_delay key"
    using k by (auto simp add: st2_def delay_of_def default_delay_def LogInfo_def emit_def)
  define d where "d = foldl accept_value (default_delay key) (key_values atof key (pre @ post))"
  have kd: "delay_of key (read_config_lines atof content st2) = d"
    unfolding kept d2 d_def ..
  have final: "(g_min_delay_seconds (LoadConfiguration atof (Some content) can_create st),
          g_max_delay_seconds (LoadConfiguration atof (Some content) can_create st)) =
           (let a = (if key = ''min_delay'' then d else v);
                b = (if key = ''min_delay'' then v else d)
            in if a \<le> b then (a, b) else (b, a))"
    using kd loaded [of st2] keys
    unfolding LoadConfiguration_Some_delays st2_def [symmetric]
    by (auto simp add: delay_of_def min_def max_def Let_def)
  show ?thesis
    using line loop kept [of st] loaded [of st] warned final
    unfolding d_def by (simp add: Let_def)
qed

theorem C9_witness:
  "(map c_str (fgets_lines 255 [] config_prior_value) =
      [''min_delay = 3\<newline>''] @ ''min_delay = 9999\<newline>'' # [''max_delay = 5\<newline>''] \<and>
    config_line_entry atof_decimal ''min_delay = 9999\<newline>'' = Some (''min_delay'', Finite 9999) \<and>
    \<not> valid_delay (Finite 9999) \<and>
    key_values atof_decimal ''max_delay''
      ([''min_delay = 3\<newline>''] @ ''min_delay = 9999\<newline>'' # [''max_delay = 5\<newline>'']) = [Finite 5] \<and>
    valid_delay (Finite 5) \<and>
    process_config_line atof_decimal ''min_delay = 9999\<newline>'' st0 =
      emit (invalid_value_warning ''min_delay'') st0 \<and>
    delay_of ''min_delay'' (read_config_lines atof_decimal config_prior_value st0) = 3 \<and>
    delay_of ''max_delay'' (read_config_lines atof_decimal config_prior_value st0) = 5 \<and>
    invalid_value_warning ''min_delay''
      \<in> set (new_events st0 (LoadConfiguration atof_decimal (Some config_prior_value) True st0)) \<and>
    g_min_delay_seconds (LoadConfiguration atof_decimal (Some config_prior_value) True st0) = 3 \<and>
    g_max_delay_seconds (LoadConfiguration atof_decimal (Some config_prior_value) True st0) = 5) \<and>
   (map c_str (fgets_lines 255 [] config_unparseable) =
      [] @ ''max_delay = abc\<newline>'' # [''min_delay = 3\<newline>''] \<and>
    config_line_entry atof_decimal ''max_delay = abc\<newline>'' = Some (''max_delay'', Finite 0) \<and>
    \<not> valid_delay (Finite 0) \<and>
    key_values atof_decimal ''min_delay''
      ([] @ ''max_delay = abc\<newline>'' # [''min_delay = 3\<newline>'']) = [Finite 3] \<and>
    valid_delay (Finite 3) \<and>
    process_config_line atof_decimal ''max_delay = abc\<newline>'' st0 =
      emit (invalid_value_warning ''max_delay'') st0 \<and>
    delay_of ''max_delay'' (read_config_lines atof_decimal config_unparseable st0) = 7 \<and>
    delay_of ''min_delay'' (read_config_lines atof_decimal config_unparseable st0) = 3 \<and>
    invalid_value_warning ''max_delay''
      \<in> set (new_events st0 (LoadConfiguration atof_decimal (Some config_unparseable) True st0)) \<and>
    g_min_delay_seconds (LoadConfiguration atof_decimal (Some config_unparseable) True st0) = 3 \<and>
    g_max_delay_seconds (LoadConfiguration atof_decimal (Some config_unparseable) True st0) = 7)"
proof -
  have f1: "map c_str (fgets_lines 255 [] config_prior_value) =
      [''min_delay = 3\<newline>''] @ ''min_delay = 9999\<newline>'' # [''max_delay = 5\<newline>'']"
    unfolding lines_prior_value by simp
  have g1: "key_values atof_decimal ''max_delay''
      ([''min_delay = 3\<newline>''] @ ''min_delay = 9999\<newline>'' # [''max_delay = 5\<newline>'']) =
      [] @ Finite 5 # []"
    by (simp add: key_values_Cons entry_simps)
  have k1: "key_values atof_decimal ''min_delay''
      ([''min_delay = 3\<newline>''] @ [''max_delay = 5\<newline>'']) = [Finite 3]"
    by (simp add: key_values_Cons entry_simps)
  have f2: "map c_str (fgets_lines 255 [] config_unparseable) =
      [] @ ''max_delay = abc\<newline>'' # [''min_delay = 3\<newline>'']"
    unfolding lines_unparseable by simp
  have g2: "key_values atof_decimal ''min_delay''
      ([] @ ''max_delay = abc\<newline>'' # [''min_delay = 3\<newline>'']) = [] @ Finite 3 # []"
    by (simp add: key_values_Cons entry_simps)
  have k2: "key_values atof_decimal ''max_delay'' ([] @ [''min_delay = 3\<newline>'']) = []"
    by (simp add: key_values_Cons entry_simps)
  have d: "delay_of ''min_delay'' st0 = 2" "delay_of ''max_delay'' st0 = 7"
    "default_delay ''min_delay'' = 2" "default_delay ''max_delay'' = 7"
    by (simp_all add: delay_of_def st0_def default_delay_def DEFAULT_MIN_DELAY_S_def
        DEFAULT_MAX_DELAY_S_def)
  have keys1: "(''min_delay'' = ''min_delay'' \<and> ''max_delay'' = ''max_delay'') \<or>
               (''min_delay'' = ''max_delay'' \<and> ''max_delay'' = ''min_delay'')"
    and keys2: "(''max_delay'' = ''min_delay'' \<and> ''min_delay'' = ''max_delay'') \<or>
               (''max_delay'' = ''max_delay'' \<and> ''min_delay'' = ''min_delay'')"
    by simp_all
  have v: "\<not> valid_delay (Finite 9999)" "valid_delay (Finite 5)"
    "\<not> valid_delay (Finite 0)" "valid_delay (Finite 3)"
    by simp_all
  have none: "\<forall>w \<in> set ([] :: cdouble list). \<not> valid_delay w" by simp
  note t1 = C9_rejected_value_per_key [OF keys1 f1 entry_min_9999 v(1) g1 v(2) none,
      where s = st0 and st = st0 and can_create = True]
  note t2 = C9_rejected_value_per_key [OF keys2 f2 entry_max_abc v(3) g2 v(4) none,
      where s = st0 and st = st0 and can_create = True]
  have a1: "process_config_line atof_decimal ''min_delay = 9999\<newline>'' st0 =
      emit (invalid_value_warning ''min_delay'') st0"
    by (rule t1 [THEN conjunct1])
  have b1: "delay_of ''min_delay'' (read_config_lines atof_decimal config_prior_value st0) = 3"
    using t1 [THEN conjunct2, THEN conjunct2, THEN conjunct1] unfolding k1 d by simp
  have c1: "delay_of ''max_delay'' (read_config_lines atof_decimal config_prior_value st0) = 5"
    by (rule t1 [THEN conjunct2, THEN conjunct2, THEN conjunct2, THEN conjunct1])
  have w1: "invalid_value_warning ''min_delay''
      \<in> set (new_events st0 (LoadConfiguration atof_decimal (Some config_prior_value) True st0))"
    by (rule t1 [THEN conjunct2, THEN conjunct2, THEN conjunct2, THEN conjunct2, THEN conjunct1])
  have e1: "g_min_delay_seconds (LoadConfiguration atof_decimal (Some config_prior_value) True st0) = 3"
    "g_max_delay_seconds (LoadConfiguration atof_decimal (Some config_prior_value) True st0) = 5"
    using t1 [THEN conjunct2, THEN conjunct2, THEN conjunct2, THEN conjunct2, THEN conjunct2]
    unfolding k1 d by (simp_all add: Let_def)
  have a2: "process_config_line atof_decimal ''max_delay = abc\<newline>'' st0 =
      emit (invalid_value_warning ''max_delay'') st0"
    by (rule t2 [THEN conjunct1])
  have b2: "delay_of ''max_delay'' (read_config_lines atof_decimal config_unparseable st0) = 7"
    using t2 [THEN conjunct2, THEN conjunct2, THEN conjunct1] unfolding k2 d by simp
  have c2: "delay_of ''min_delay'' (read_config_lines atof_decimal config_unparseable st0) = 3"
    by (rule t2 [THEN conjunct2, THEN conjunct2, THEN conjunct2, THEN conjunct1])
  have w2: "invalid_value_warning ''max_delay''
      \<in> set (new_events st0 (LoadConfiguration atof_decimal (Some config_unparseable) True st0))"
    by (rule t2 [THEN conjunct2, THEN conjunct2, THEN conjunct2, THEN conjunct2, THEN conjunct1])
  have e2: "g_min_delay_seconds (LoadConfiguration atof_decimal (Some config_unparseable) True st0) = 3"
    "g_max_delay_seconds (LoadConfiguration atof_decimal (Some config_unparseable) True st0) = 7"
    using t2 [THEN conjunct2, THEN conjunct2, THEN conjunct2, THEN conjunct2, THEN conjunct2]
    unfolding k2 d by (simp_all add: Let_def)
  have g1': "key_values atof_decimal ''max_delay''
      ([''min_delay = 3\<newline>''] @ ''min_delay = 9999\<newline>'' # [''max_delay = 5\<newline>'']) = [Finite 5]"
    using g1 by simp
  have g2': "key_values atof_decimal ''min_delay''
      ([] @ ''max_delay = abc\<newline>'' # [''min_delay = 3\<newline>'']) = [Finite 3]"
    using g2 by simp
  show ?thesis
    by (intro conjI f1 f2 entry_min_9999 entry_max_abc v g1' g2' a1 b1 c1 w1 e1 a2 b2 c2 w2 e2)
qed

end
